(* ===== verification/Prelude.thy ===== *)
theory Prelude
  imports Main "HOL-Library.State_Monad" "HOL-Library.Sublist"
begin

text \<open>
  Shared material of the development: the theorem collections, the Go idiom of a call that
  returns a value or an error (a sum inside the state monad) with its early return, the loops
  that stop at the first error, and a few facts on lists and association lists that several
  components use.
\<close>

named_theorems run_simps "equations that execute a program of the model on a state"
named_theorems extends_intros "a program only extends the log"

section \<open>Calls that return an error\<close>

text \<open>
  A Go function with result \<open>(T, error)\<close> is a program of type \<open>('s, 'e + 'a) state\<close>: \<open>Inl\<close> the
  error, \<open>Inr\<close> the value. \<open>on_error m h k\<close> is the idiom
  \<^verbatim>\<open>x, err := m(); if err != nil { h }; k\<close>: the handler returns from the function, the
  continuation is the rest of its body.
\<close>

definition on_error ::
  "('s, 'e + 'a) state \<Rightarrow> ('e \<Rightarrow> ('s, 'b) state) \<Rightarrow> ('a \<Rightarrow> ('s, 'b) state) \<Rightarrow> ('s, 'b) state" where
  "on_error m h k = State_Monad.bind m (\<lambda>r. case r of Inl e \<Rightarrow> h e | Inr a \<Rightarrow> k a)"

abbreviation ret :: "'a \<Rightarrow> ('s, 'a) state" where
  "ret \<equiv> State_Monad.return"

abbreviation ok :: "'a \<Rightarrow> ('s, 'e + 'a) state" where
  "ok a \<equiv> State_Monad.return (Inr a)"

abbreviation err :: "'e \<Rightarrow> ('s, 'e + 'a) state" where
  "err e \<equiv> State_Monad.return (Inl e)"

lemma run_on_error [run_simps]:
  "run_state (on_error m h k) s =
     (case run_state m s of
        (Inl e, t) \<Rightarrow> run_state (h e) t
      | (Inr a, t) \<Rightarrow> run_state (k a) t)"
  by (auto simp: on_error_def split: prod.splits sum.splits)

text \<open>When a handler only returns an error, success goes through the call and its continuation.\<close>

lemma run_on_error_ok:
  "run_state (on_error m (\<lambda>e. err (f e)) k) s = (Inr a, t) \<longleftrightarrow>
     (\<exists>b u. run_state m s = (Inr b, u) \<and> run_state (k b) u = (Inr a, t))"
  by (auto simp: run_on_error split: prod.splits sum.splits)

lemma run_not_isl: "\<not> isl (fst (run_state m s)) \<Longrightarrow> \<exists>a t. run_state m s = (Inr a, t)"
  by (cases "run_state m s"; cases "fst (run_state m s)") auto

lemmas run_monad [run_simps] =
  State_Monad.run_state_bind State_Monad.run_state_return

text \<open>
  \<^verbatim>\<open>for _, x := range xs { if err := f(x); err != nil { return err } }\<close>: the loop stops at the
  first error.
\<close>

primrec each :: "('a \<Rightarrow> ('s, 'e + unit) state) \<Rightarrow> 'a list \<Rightarrow> ('s, 'e + unit) state" where
  "each f [] = ok ()"
| "each f (x # xs) = on_error (f x) err (\<lambda>_. each f xs)"

text \<open>\<^verbatim>\<open>for _, x := range xs { _ = f(x) }\<close>: the results are ignored.\<close>

primrec each_ignore :: "('a \<Rightarrow> ('s, 'b) state) \<Rightarrow> 'a list \<Rightarrow> ('s, unit) state" where
  "each_ignore f [] = ret ()"
| "each_ignore f (x # xs) = do { f x; each_ignore f xs }"

lemma each_append:
  "each f (xs @ ys) = on_error (each f xs) err (\<lambda>_. each f ys)"
proof (induction xs)
  case Nil
  then show ?case by (simp add: on_error_def)
next
  case (Cons x xs)
  show ?case
    by (rule state_ext)
      (auto simp: Cons run_simps split: prod.splits sum.splits)
qed

lemma each_ignore_append:
  "each_ignore f (xs @ ys) = do { each_ignore f xs; each_ignore f ys }"
  by (induction xs) simp_all

section \<open>Association lists read with \<open>map_of\<close>\<close>

lemma map_of_filter_key:
  "map_of (filter (\<lambda>(k, v). P k) xs) k = (if P k then map_of xs k else None)"
  by (induction xs) (auto split: prod.splits)

lemma map_of_filter_keyD:
  "map_of (filter (\<lambda>(k, v). P k) xs) k = Some v \<Longrightarrow> P k \<and> map_of xs k = Some v"
  by (simp add: map_of_filter_key split: if_splits)

section \<open>Lists\<close>

lemma take_append_length [simp]: "take (length xs) (xs @ ys) = xs"
  by simp

lemma last_two_append [simp]: "last (xs @ [x, y]) = y"
  by simp

lemma subseq_append_both: "subseq xs ys \<Longrightarrow> subseq xs' ys' \<Longrightarrow> subseq (xs @ xs') (ys @ ys')"
  by (rule list_emb_append_mono)

end
