(* ===== verification/GoPath.thy ===== *)
theory GoPath
  imports GoText
begin

text \<open>
  Go's \<open>filepath.Clean\<close> and \<open>filepath.Join\<close> on Unix, component by component, and the laws the
  directory layout of the program rests on: joining a plain name to a clean directory appends
  one component, and distinct plain names give distinct paths.
\<close>

section \<open>Clean and Join\<close>

text \<open>
  \<open>clean_comps rooted acc cs\<close> resolves the components \<open>cs\<close> after the already resolved components
  \<open>acc\<close>, which are kept in reverse order: empty components and \<open>.\<close> vanish, \<open>..\<close> removes the
  component before it, is dropped at the root and kept at the start of a relative path.
\<close>

fun clean_comps :: "bool \<Rightarrow> string list \<Rightarrow> string list \<Rightarrow> string list" where
  "clean_comps rooted acc [] = rev acc"
| "clean_comps rooted acc (c # cs) =
     (if c = [] \<or> c = ''.'' then clean_comps rooted acc cs
      else if c = ''..'' then
        (case acc of
           [] \<Rightarrow> if rooted then clean_comps rooted [] cs else clean_comps rooted [''..''] cs
         | a # as \<Rightarrow>
             if a = ''..'' then clean_comps rooted (''..'' # a # as) cs
             else clean_comps rooted as cs)
      else clean_comps rooted (c # acc) cs)"

definition is_rooted :: "string \<Rightarrow> bool" where
  "is_rooted p \<longleftrightarrow> has_prefix p ''/''"

definition path_comps :: "string \<Rightarrow> string list" where
  "path_comps p = clean_comps (is_rooted p) [] (split_on CHR ''/'' p)"

definition Clean :: "string \<Rightarrow> string" where
  "Clean p =
     (let cs = path_comps p in
      if is_rooted p then CHR ''/'' # join ''/'' cs
      else if cs = [] then ''.''
      else join ''/'' cs)"

definition Join :: "string list \<Rightarrow> string" where
  "Join elems =
     (case dropWhile (\<lambda>e. e = []) elems of
        [] \<Rightarrow> []
      | es \<Rightarrow> Clean (join ''/'' es))"

section \<open>Plain names\<close>

text \<open>A plain name is one path component that \<open>Clean\<close> keeps.\<close>

definition plain_name :: "string \<Rightarrow> bool" where
  "plain_name n \<longleftrightarrow> n \<noteq> [] \<and> n \<noteq> ''.'' \<and> n \<noteq> ''..'' \<and> CHR ''/'' \<notin> set n"

lemma clean_comps_append_plain:
  "plain_name n \<Longrightarrow> clean_comps r acc (cs @ [n]) = clean_comps r acc cs @ [n]"
  by (induction r acc cs rule: clean_comps.induct)
    (auto simp: plain_name_def split: list.splits)

lemma split_plain_name: "plain_name n \<Longrightarrow> split_on CHR ''/'' n = [n]"
  by (auto simp: plain_name_def intro: split_by_no)

lemma is_rooted_append: "p \<noteq> [] \<Longrightarrow> is_rooted (p @ q) = is_rooted p"
  by (cases p) (auto simp: is_rooted_def)

lemma path_comps_append_plain:
  "p \<noteq> [] \<Longrightarrow> plain_name n \<Longrightarrow> path_comps (p @ ''/'' @ n) = path_comps p @ [n]"
  by (simp add: path_comps_def is_rooted_append split_by_append2 split_plain_name
      clean_comps_append_plain)

lemma join_snoc: "ws \<noteq> [] \<Longrightarrow> join sep (ws @ [w]) = join sep ws @ sep @ w"
  by (induction sep ws rule: join.induct) auto

lemma clean_comps_not_empty:
  "x \<in> set (clean_comps r acc cs) \<Longrightarrow> \<forall>a \<in> set acc. a \<noteq> [] \<Longrightarrow> x \<noteq> []"
proof (induction r acc cs rule: clean_comps.induct)
  case (2 r acc c cs)
  then show ?case by (cases acc) (simp_all split: if_splits)
qed auto

lemma join_not_Nil: "ws \<noteq> [] \<Longrightarrow> \<forall>w \<in> set ws. w \<noteq> [] \<Longrightarrow> join sep ws \<noteq> []"
  by (induction sep ws rule: join.induct) auto

lemma Clean_not_Nil [simp]: "Clean p \<noteq> []"
proof (cases "path_comps p = []")
  case False
  then have "join ''/'' (path_comps p) \<noteq> []"
    by (intro join_not_Nil) (auto simp: path_comps_def dest: clean_comps_not_empty)
  then show ?thesis by (simp add: Clean_def Let_def)
qed (simp add: Clean_def)

text \<open>
  Joining a plain name to a directory: one more component of the cleaned path.
\<close>

lemma Clean_append_plain:
  assumes "p \<noteq> []" and "plain_name n"
  shows "Clean (p @ ''/'' @ n) =
    (if path_comps p = [] then (if is_rooted p then ''/'' @ n else n)
     else Clean p @ ''/'' @ n)"
proof -
  have r: "is_rooted (p @ ''/'' @ n) = is_rooted p"
    using assms(1) by (rule is_rooted_append)
  show ?thesis
    unfolding Clean_def Let_def r path_comps_append_plain [OF assms]
    by (simp add: join_snoc)
qed

lemma dropWhile_snoc: "\<not> P d \<Longrightarrow> dropWhile P (es @ [d, n]) = dropWhile P (es @ [d]) @ [n]"
  by (induction es) auto

lemma dropWhile_last: "\<not> P d \<Longrightarrow> \<exists>fs. dropWhile P (es @ [d]) = fs @ [d]"
  by (induction es) auto

lemma Join_nonempty:
  "dropWhile (\<lambda>e. e = []) es \<noteq> [] \<Longrightarrow> Join es = Clean (join ''/'' (dropWhile (\<lambda>e. e = []) es))"
  by (auto simp: Join_def simp del: dropWhile_eq_Nil_conv split: list.splits)

lemma path_comps_plain: "plain_name d \<Longrightarrow> path_comps d = [d]"
  by (simp add: path_comps_def split_plain_name) (simp add: plain_name_def)

lemma path_comps_join_plain:
  assumes "plain_name d" shows "join ''/'' (fs @ [d]) \<noteq> []" "path_comps (join ''/'' (fs @ [d])) \<noteq> []"
proof -
  have d: "d \<noteq> []" using assms by (simp add: plain_name_def)
  show "join ''/'' (fs @ [d]) \<noteq> []" using d by (cases "fs = []") (auto simp: join_snoc)
  show "path_comps (join ''/'' (fs @ [d])) \<noteq> []"
  proof (cases "fs = []")
    case True
    then show ?thesis using assms by (simp add: path_comps_plain)
  next
    case False
    show ?thesis
    proof (cases "join ''/'' fs = []")
      case True
      have "split_on CHR ''/'' (''/'' @ d) = [[], d]" using assms by (simp add: split_plain_name)
      then have "path_comps (''/'' @ d) = [d]" using assms
        by (simp add: path_comps_def plain_name_def is_rooted_def)
      with True False show ?thesis by (simp add: join_snoc)
    next
      case F: False
      show ?thesis
        unfolding join_snoc [OF False] path_comps_append_plain [OF F assms] by simp
    qed
  qed
qed

text \<open>The layout law: under a directory whose last component is plain, a plain name is appended.\<close>

lemma Join_snoc_plain:
  assumes d: "plain_name d" and n: "plain_name n"
  shows "Join (es @ [d, n]) = Join (es @ [d]) @ ''/'' @ n"
proof -
  have ne: "d \<noteq> []" using d by (simp add: plain_name_def)
  obtain fs where fs: "dropWhile (\<lambda>e. e = []) (es @ [d]) = fs @ [d]"
    using dropWhile_last [of "\<lambda>e. e = []", OF ne] by blast
  have fs': "dropWhile (\<lambda>e. e = []) (es @ [d, n]) = (fs @ [d]) @ [n]"
    using dropWhile_snoc [of "\<lambda>e. e = []", OF ne] fs by simp
  have "Join (es @ [d, n]) = Clean (join ''/'' (fs @ [d]) @ ''/'' @ n)"
    by (simp add: Join_nonempty fs' join_snoc [of "fs @ [d]", simplified])
  also have "\<dots> = Clean (join ''/'' (fs @ [d])) @ ''/'' @ n"
    by (subst Clean_append_plain) (simp_all only: path_comps_join_plain [OF d] n if_False not_False_eq_True)
  also have "Clean (join ''/'' (fs @ [d])) = Join (es @ [d])"
    by (simp add: Join_nonempty fs)
  finally show ?thesis .
qed

text \<open>\<open>..\<close> takes the last component away again.\<close>

lemma clean_comps_dotdot:
  "plain_name d \<Longrightarrow> clean_comps r acc (cs @ [d, ''..'']) = clean_comps r acc cs"
proof (induction r acc cs rule: clean_comps.induct)
  case (1 r acc)
  then show ?case by (auto simp: plain_name_def)
next
  case (2 r acc c cs)
  then show ?case by (cases acc) (simp_all split: if_splits)
qed

lemma path_comps_dotdot:
  assumes "p \<noteq> []" and "plain_name d"
  shows "path_comps (p @ ''/'' @ d @ ''/..'') = path_comps p"
proof -
  have "split_on CHR ''/'' (d @ ''/..'') = [d, ''..'']"
    using assms(2) by (subst split_by_append) (auto simp: plain_name_def)
  then have "split_on CHR ''/'' (p @ ''/'' @ d @ ''/..'') = split_on CHR ''/'' p @ [d, ''..'']"
    by (simp add: split_by_append2)
  then show ?thesis
    unfolding path_comps_def is_rooted_append [OF assms(1)]
    by (simp add: clean_comps_dotdot [OF assms(2)])
qed

lemma Clean_dotdot:
  "p \<noteq> [] \<Longrightarrow> plain_name d \<Longrightarrow> Clean (p @ ''/'' @ d @ ''/..'') = Clean p"
  unfolding Clean_def path_comps_dotdot by (simp add: is_rooted_append)

lemma Join_dotdot:
  assumes c: "plain_name c" and d: "plain_name d"
  shows "Join (es @ [c, d, ''..'']) = Join (es @ [c])"
proof -
  have ne: "c \<noteq> []" "d \<noteq> []" using c d by (simp_all add: plain_name_def)
  obtain fs where fs: "dropWhile (\<lambda>e. e = []) (es @ [c]) = fs @ [c]"
    using dropWhile_last [of "\<lambda>e. e = []", OF ne(1)] by blast
  have fs': "dropWhile (\<lambda>e. e = []) (es @ [c, d, ''..'']) = fs @ [c, d, ''..'']"
    using dropWhile_snoc [of "\<lambda>e. e = []", OF ne(2), of "es @ [c]" "''..''"]
      dropWhile_snoc [of "\<lambda>e. e = []", OF ne(1), of es d] fs by simp
  have j: "join ''/'' (fs @ [c, d, ''..'']) = join ''/'' (fs @ [c]) @ ''/'' @ d @ ''/..''"
    using join_snoc [of "fs @ [c]" "''/''" d] join_snoc [of "fs @ [c, d]" "''/''" "''..''"] by simp
  show ?thesis
    unfolding Join_nonempty [of "es @ [c]", unfolded fs, simplified]
    using path_comps_join_plain(1) [OF c, of fs]
    by (simp only: Join_nonempty fs' j Clean_dotdot [OF _ d] append_is_Nil_conv list.distinct simp_thms)
qed

section \<open>Clean is idempotent\<close>

text \<open>The stack of components, last first: \<open>..\<close> only at the bottom of a relative path.\<close>

fun ok_acc :: "bool \<Rightarrow> string list \<Rightarrow> bool" where
  "ok_acc r [] = True"
| "ok_acc r (a # as) =
     (a \<noteq> [] \<and> a \<noteq> ''.'' \<and> CHR ''/'' \<notin> set a \<and> (a = ''..'' \<longrightarrow> \<not> r \<and> set as \<subseteq> {''..''}) \<and> ok_acc r as)"

lemma ok_acc_clean:
  "ok_acc r acc \<Longrightarrow> \<forall>c \<in> set cs. CHR ''/'' \<notin> set c \<Longrightarrow> ok_acc r (rev (clean_comps r acc cs))"
  by (induction r acc cs rule: clean_comps.induct) (auto split: list.splits)

lemma ok_acc_append: "ok_acc r (xs @ ys) \<Longrightarrow> ok_acc r ys"
  by (induction xs) auto

lemma clean_comps_ok: "ok_acc r (rev cs @ acc) \<Longrightarrow> clean_comps r acc cs = rev acc @ cs"
proof (induction cs arbitrary: acc)
  case (Cons c cs)
  have c: "ok_acc r (c # acc)" using ok_acc_append [of r "rev cs" "c # acc"] Cons.prems by simp
  have IH: "clean_comps r (c # acc) cs = rev (c # acc) @ cs" using Cons by simp
  show ?case
  proof (cases "c = ''..''")
    case True
    with c have "\<not> r" "set acc \<subseteq> {''..''}" by auto
    then show ?thesis using IH True by (cases acc) auto
  next
    case False
    then show ?thesis using IH c by simp
  qed
qed simp

lemma ok_path_comps: "ok_acc (is_rooted p) (rev (path_comps p))"
  unfolding path_comps_def by (rule ok_acc_clean) (auto dest: split_by_pieces)

lemma ok_acc_no_slash: "ok_acc r acc \<Longrightarrow> \<forall>c \<in> set acc. CHR ''/'' \<notin> set c \<and> c \<noteq> []"
  by (induction acc) auto

lemma comps_plain: "c \<in> set (path_comps p) \<Longrightarrow> CHR ''/'' \<notin> set c \<and> c \<noteq> []"
  using ok_acc_no_slash [OF ok_path_comps [of p]] by auto

lemma is_rooted_Clean [simp]: "is_rooted (Clean p) = is_rooted p"
proof (cases "is_rooted p")
  case True
  then show ?thesis by (simp add: Clean_def is_rooted_def Let_def)
next
  case False
  show ?thesis
  proof (cases "path_comps p")
    case Nil
    with False show ?thesis by (simp add: Clean_def is_rooted_def)
  next
    case (Cons c cs)
    then obtain d ds where d: "c = d # ds" "d \<noteq> CHR ''/''"
      using comps_plain [of c p] by (cases c) auto
    then have "hd (join ''/'' (path_comps p)) \<noteq> CHR ''/''" "join ''/'' (path_comps p) \<noteq> []"
      using Cons by (cases cs; simp)+
    with False Cons show ?thesis
      by (cases "join ''/'' (path_comps p)") (auto simp: Clean_def is_rooted_def Let_def)
  qed
qed

lemma path_comps_Clean [simp]: "path_comps (Clean p) = path_comps p"
proof -
  have ok: "clean_comps (is_rooted p) [] (path_comps p) = path_comps p"
    using clean_comps_ok [of "is_rooted p" "path_comps p" "[]"] ok_path_comps [of p] by simp
  have s: "split_on CHR ''/'' (join ''/'' (path_comps p)) = path_comps p" if "path_comps p \<noteq> []"
    using split_join [OF that, of "CHR ''/''"] comps_plain [of _ p] by blast
  show ?thesis
  proof (cases "path_comps p = []")
    case True
    then show ?thesis
      by (subst path_comps_def) (simp add: Clean_def is_rooted_def Let_def)
  next
    case False
    have "split_on CHR ''/'' (Clean p) =
        (if is_rooted p then [] # path_comps p else path_comps p)"
      using s [OF False] False by (simp add: Clean_def Let_def)
    then show ?thesis
      using ok by (subst path_comps_def) (cases "is_rooted p"; simp)
  qed
qed

lemma Clean_Clean [simp]: "Clean (Clean p) = Clean p"
  by (subst (1 3) Clean_def) simp

lemma Clean_Join [simp]: "es \<noteq> [] \<Longrightarrow> dropWhile (\<lambda>e. e = []) es \<noteq> [] \<Longrightarrow> Clean (Join es) = Join es"
  by (simp add: Join_def split: list.splits)

section \<open>Joining onto a joined path\<close>

lemma clean_comps_append:
  "clean_comps r acc (as @ bs) = clean_comps r (rev (clean_comps r acc as)) bs"
  by (induction r acc as rule: clean_comps.induct) (auto split: list.splits)

lemma path_comps_append:
  "p \<noteq> [] \<Longrightarrow>
   path_comps (p @ CHR ''/'' # q) = clean_comps (is_rooted p) (rev (path_comps p)) (split_on CHR ''/'' q)"
  by (simp add: path_comps_def is_rooted_append split_by_append2 clean_comps_append)

lemma Clean_Clean_append: "p \<noteq> [] \<Longrightarrow> Clean (Clean p @ CHR ''/'' # q) = Clean (p @ CHR ''/'' # q)"
  unfolding Clean_def [of "Clean p @ CHR ''/'' # q"] Clean_def [of "p @ CHR ''/'' # q"]
  by (simp add: path_comps_append is_rooted_append)

lemma Join_Join:
  assumes "d \<noteq> []"
  shows "Join [Join (es @ [d]), q] = Join (es @ [d, q])"
proof -
  obtain fs where fs: "dropWhile (\<lambda>e. e = []) (es @ [d]) = fs @ [d]"
    using dropWhile_last [of "\<lambda>e. e = []", OF assms] by blast
  have ne: "join ''/'' (fs @ [d]) \<noteq> []" using assms by (cases "fs = []") (auto simp: join_snoc)
  have dw: "dropWhile (\<lambda>e. e = []) (es @ [d, q]) = (fs @ [d]) @ [q]"
    using dropWhile_snoc [of "\<lambda>e. e = []", OF assms] fs by simp
  have j: "join ''/'' ((fs @ [d]) @ [q]) = join ''/'' (fs @ [d]) @ ''/'' @ q"
    by (rule join_snoc) simp
  have "Join (es @ [d]) = Clean (join ''/'' (fs @ [d]))"
    using Join_nonempty [of "es @ [d]"] unfolding fs by simp
  moreover have "Join (es @ [d, q]) = Clean (join ''/'' ((fs @ [d]) @ [q]))"
    using Join_nonempty [of "es @ [d, q]"] unfolding dw by simp
  ultimately show ?thesis
    using Clean_Clean_append [OF ne, of q] j by (simp add: Join_def)
qed

lemma Join_dotdot_twice:
  assumes "plain_name c" "plain_name d"
  shows "Join [Join (es @ [c, d]), ''..''] = Join (es @ [c])"
  using Join_Join [of d "es @ [c]" "''..''"] Join_dotdot [OF assms, of es] assms(2)
  by (simp add: plain_name_def)

end
