(* ===== verification/Sha256.thy ===== *)
theory Sha256
  imports GoText
begin

text \<open>
  SHA-256 (FIPS 180-4), the function \<open>sha256.Sum256\<close> of Go's standard library that every derived
  network identity of a VM starts from: padding, message schedule and compression on 32-bit words.
\<close>

unbundle bit_operations_syntax

type_synonym u32 = "32 word"

text \<open>
  The round constants and the initial state are, in decimal, the first 32 bits of the fractional
  parts of the cube roots of the first 64 primes and of the square roots of the first eight
  (\<open>sha_constants\<close> below).
\<close>

definition sha_K :: "u32 list" where
  "sha_K =
    [1116352408, 1899447441, 3049323471, 3921009573, 961987163, 1508970993, 2453635748,
     2870763221, 3624381080, 310598401, 607225278, 1426881987, 1925078388, 2162078206,
     2614888103, 3248222580, 3835390401, 4022224774, 264347078, 604807628, 770255983,
     1249150122, 1555081692, 1996064986, 2554220882, 2821834349, 2952996808, 3210313671,
     3336571891, 3584528711, 113926993, 338241895, 666307205, 773529912, 1294757372,
     1396182291, 1695183700, 1986661051, 2177026350, 2456956037, 2730485921, 2820302411,
     3259730800, 3345764771, 3516065817, 3600352804, 4094571909, 275423344, 430227734,
     506948616, 659060556, 883997877, 958139571, 1322822218, 1537002063, 1747873779,
     1955562222, 2024104815, 2227730452, 2361852424, 2428436474, 2756734187, 3204031479,
     3329325298]"

definition sha_H0 :: "u32 list" where
  "sha_H0 =
    [1779033703, 3144134277, 1013904242, 2773480762, 1359893119, 2600822924, 528734635,
     1541459225]"

definition primes_64 :: "nat list" where
  "primes_64 =
    [2, 3, 5, 7, 11, 13, 17, 19, 23, 29, 31, 37, 41, 43, 47, 53, 59, 61, 67, 71, 73, 79, 83,
     89, 97, 101, 103, 107, 109, 113, 127, 131, 137, 139, 149, 151, 157, 163, 167, 173, 179,
     181, 191, 193, 197, 199, 211, 223, 227, 229, 233, 239, 241, 251, 257, 263, 269, 271, 277,
     281, 283, 293, 307, 311]"

text \<open>
  \<open>k\<close> is the fractional part of the \<open>n\<close>-th root of \<open>p\<close>, cut to 32 bits; the integral part is
  recovered from the bounds given.
\<close>

definition root_bits :: "nat \<Rightarrow> nat list \<Rightarrow> nat \<Rightarrow> nat \<Rightarrow> bool" where
  "root_bits n powers p k \<longleftrightarrow>
     (let r = length (filter (\<lambda>q. q \<le> p) powers) * 2 ^ 32 + k
      in r ^ n \<le> p * 2 ^ (32 * n) \<and> p * 2 ^ (32 * n) < (r + 1) ^ n)"

lemma sha_constants:
  "list_all2 (\<lambda>p k. root_bits 3 [1, 8, 27, 64, 125, 216] p (unat k)) primes_64 sha_K"
  "list_all2 (\<lambda>p k. root_bits 2 [1, 4, 9, 16] p (unat k)) (take 8 primes_64) sha_H0"
  by (simp_all add: root_bits_def primes_64_def sha_K_def sha_H0_def Let_def)

definition rotr32 :: "nat \<Rightarrow> u32 \<Rightarrow> u32" where
  "rotr32 n x = drop_bit n x OR push_bit (32 - n) x"

definition big_sigma0 :: "u32 \<Rightarrow> u32" where
  "big_sigma0 x = rotr32 2 x XOR rotr32 13 x XOR rotr32 22 x"

definition big_sigma1 :: "u32 \<Rightarrow> u32" where
  "big_sigma1 x = rotr32 6 x XOR rotr32 11 x XOR rotr32 25 x"

definition small_sigma0 :: "u32 \<Rightarrow> u32" where
  "small_sigma0 x = rotr32 7 x XOR rotr32 18 x XOR drop_bit 3 x"

definition small_sigma1 :: "u32 \<Rightarrow> u32" where
  "small_sigma1 x = rotr32 17 x XOR rotr32 19 x XOR drop_bit 10 x"

definition sha_ch :: "u32 \<Rightarrow> u32 \<Rightarrow> u32 \<Rightarrow> u32" where
  "sha_ch x y z = (x AND y) XOR (NOT x AND z)"

definition sha_maj :: "u32 \<Rightarrow> u32 \<Rightarrow> u32 \<Rightarrow> u32" where
  "sha_maj x y z = (x AND y) XOR (x AND z) XOR (y AND z)"

text \<open>Big-endian conversions.\<close>

definition be32 :: "byte list \<Rightarrow> u32" where
  "be32 bs = foldl (\<lambda>a b. push_bit 8 a OR ucast b) 0 bs"

definition bytes_of_u32 :: "u32 \<Rightarrow> byte list" where
  "bytes_of_u32 w =
     [ucast (drop_bit 24 w), ucast (drop_bit 16 w), ucast (drop_bit 8 w), ucast w]"

definition be64_bytes :: "nat \<Rightarrow> byte list" where
  "be64_bytes n =
     map (\<lambda>i. ucast (drop_bit i (word_of_nat n :: 64 word))) [56, 48, 40, 32, 24, 16, 8, 0]"

text \<open>Padding: one bit, zeros, and the length in bits, up to a multiple of 64 bytes.\<close>

definition sha_pad :: "byte list \<Rightarrow> byte list" where
  "sha_pad m =
     m @ [0x80] @ replicate ((119 - length m mod 64) mod 64) 0 @ be64_bytes (8 * length m)"

lemma length_be64_bytes [simp]: "length (be64_bytes n) = 8"
  by (simp add: be64_bytes_def)

lemma pos_mod_bound_64: "(k :: nat) mod 64 < 64"
  by simp

lemma length_sha_pad: "length (sha_pad m) mod 64 = 0"
proof -
  have "(k + 9 + (119 - k mod 64) mod 64) mod 64 = 0" for k :: nat
  proof -
    have "(k + 9 + (119 - k mod 64) mod 64) mod 64 = (k + 9 + (119 - k mod 64)) mod 64"
      by (metis mod_add_right_eq)
    also have "k + 9 + (119 - k mod 64) = 64 * (k div 64) + 128"
    proof -
      define q r where "q = k div 64" and "r = k mod 64"
      have "k = 64 * q + r" "r < 64" by (simp_all add: q_def r_def)
      then show ?thesis unfolding q_def [symmetric] r_def [symmetric] by simp
    qed
    finally show ?thesis by simp
  qed
  from this [of "length m"] show ?thesis by (simp add: sha_pad_def algebra_simps)
qed

fun chunks :: "nat \<Rightarrow> nat \<Rightarrow> 'a list \<Rightarrow> 'a list list" where
  "chunks 0 k xs = []"
| "chunks (Suc n) k xs = take k xs # chunks n k (drop k xs)"

text \<open>The message schedule, kept in reverse: the newest word first.\<close>

fun sha_extend :: "nat \<Rightarrow> u32 list \<Rightarrow> u32 list" where
  "sha_extend 0 ws = ws"
| "sha_extend (Suc n) ws =
     sha_extend n
       ((small_sigma1 (ws ! 1) + ws ! 6 + small_sigma0 (ws ! 14) + ws ! 15) # ws)"

definition sha_schedule :: "byte list \<Rightarrow> u32 list" where
  "sha_schedule block = rev (sha_extend 48 (rev (map be32 (chunks 16 4 block))))"

fun sha_round :: "u32 list \<Rightarrow> u32 \<times> u32 \<Rightarrow> u32 list" where
  "sha_round [a, b, c, d, e, f, g, h] (k, w) =
     (let t1 = h + big_sigma1 e + sha_ch e f g + k + w;
          t2 = big_sigma0 a + sha_maj a b c
      in [t1 + t2, a, b, c, d + t1, e, f, g])"
| "sha_round hs _ = hs"

definition sha_compress :: "u32 list \<Rightarrow> byte list \<Rightarrow> u32 list" where
  "sha_compress hs block =
     map2 (+) hs (foldl sha_round hs (zip sha_K (sha_schedule block)))"

definition sha256 :: "byte list \<Rightarrow> byte list" where
  "sha256 m =
     (let p = sha_pad m in
      concat (map bytes_of_u32
        (foldl sha_compress sha_H0 (chunks (length p div 64) 64 p))))"

section \<open>The digest has 32 bytes\<close>

lemma length_sha_round: "length hs = 8 \<Longrightarrow> length (sha_round hs x) = 8"
  by (induction hs x rule: sha_round.induct) (auto simp: Let_def)

lemma length_foldl_sha_round: "length hs = 8 \<Longrightarrow> length (foldl sha_round hs xs) = 8"
  by (induction xs arbitrary: hs) (simp_all add: length_sha_round)

lemma length_sha_compress: "length hs = 8 \<Longrightarrow> length (sha_compress hs b) = 8"
  by (simp add: sha_compress_def length_foldl_sha_round)

lemma length_foldl_sha_compress: "length hs = 8 \<Longrightarrow> length (foldl sha_compress hs bs) = 8"
  by (induction bs arbitrary: hs) (simp_all add: length_sha_compress)

lemma length_concat_bytes: "length (concat (map bytes_of_u32 ws)) = 4 * length ws"
  by (induction ws) (simp_all add: bytes_of_u32_def)

lemma length_sha256 [simp]: "length (sha256 m) = 32"
  by (simp add: sha256_def Let_def length_concat_bytes length_foldl_sha_compress sha_H0_def)

end
