(* ===== verification/Network.thy ===== *)
theory Network
  imports GoPath Sha256
begin

text \<open>
  \<open>network.go\<close> and the derived names of \<open>vm_direct.go\<close>: everything a VM's network needs is
  computed from the VM's name. The contract of a /30 link (two usable addresses of one block) and
  of an interface name (it fits the kernel's limit) are locales, interpreted on both addressing
  schemes and on all four names of the program.
\<close>

unbundle bit_operations_syntax

section \<open>IPv4 addresses\<close>

text \<open>\<open>net.IPv4\<close> builds an address from four bytes; only its last four bytes are ever read.\<close>

datatype ipv4 = IPv4 (oct1: byte) (oct2: byte) (oct3: byte) (oct4: byte)

definition ip_string :: "ipv4 \<Rightarrow> string" where
  "ip_string a =
     dec (unat (oct1 a)) @ ''.'' @ dec (unat (oct2 a)) @ ''.'' @
     dec (unat (oct3 a)) @ ''.'' @ dec (unat (oct4 a))"

definition ip_nat :: "ipv4 \<Rightarrow> nat" where
  "ip_nat a = ((unat (oct1 a) * 256 + unat (oct2 a)) * 256 + unat (oct3 a)) * 256 + unat (oct4 a)"

lemma digits_256_eq:
  assumes "q < (b :: nat)" "q' < b"
  shows "p * b + q = p' * b + q' \<longleftrightarrow> p = p' \<and> q = q'"
proof
  assume e: "p * b + q = p' * b + q'"
  have "(p * b + q) div b = p" "(p' * b + q') div b = p'"
    "(p * b + q) mod b = q" "(p' * b + q') mod b = q'" using assms by simp_all
  with e show "p = p' \<and> q = q'" by simp
qed simp

lemma ip_nat_inject: "ip_nat a = ip_nat b \<Longrightarrow> a = b"
  by (cases a; cases b)
    (simp only: ip_nat_def digits_256_eq unat_byte_less ipv4.sel word_unat_eq_iff ipv4.inject simp_thms)

text \<open>Addresses are ordered as 32-bit numbers, so that address blocks are intervals.\<close>

instantiation ipv4 :: linorder
begin

definition less_eq_ipv4 :: "ipv4 \<Rightarrow> ipv4 \<Rightarrow> bool" where
  "less_eq_ipv4 a b \<longleftrightarrow> ip_nat a \<le> ip_nat b"

definition less_ipv4 :: "ipv4 \<Rightarrow> ipv4 \<Rightarrow> bool" where
  "less_ipv4 a b \<longleftrightarrow> ip_nat a < ip_nat b"

instance
  by standard (auto simp: less_eq_ipv4_def less_ipv4_def dest: ip_nat_inject)

end

text \<open>The block of \<open>2 ^ (32 - len)\<close> addresses with the same first \<open>len\<close> bits.\<close>

definition in_cidr :: "ipv4 \<Rightarrow> ipv4 \<Rightarrow> nat \<Rightarrow> bool" where
  "in_cidr a base len \<longleftrightarrow> ip_nat a div 2 ^ (32 - len) = ip_nat base div 2 ^ (32 - len)"

definition ipBase30 :: "ipv4 \<Rightarrow> ipv4" where
  "ipBase30 ip = IPv4 (oct1 ip) (oct2 ip) (oct3 ip) (oct4 ip AND 0xFC)"

section \<open>The derived configuration\<close>

definition tapMAC :: string where
  "tapMAC = ''AA:FC:01:00:00:00''"

record networkConfig =
  TAPDevice :: string
  HostIP :: ipv4
  GuestIP :: ipv4
  GuestMAC :: string
  SSHPort :: int

definition name_hash :: "string \<Rightarrow> byte list" where
  "name_hash name = sha256 (to_bytes name)"

lemma length_name_hash [simp]: "length (name_hash name) = 32"
  by (simp add: name_hash_def)

text \<open>Go's \<open>binary.BigEndian.Uint16\<close> of two bytes of the digest.\<close>

definition be16_at :: "byte list \<Rightarrow> nat \<Rightarrow> 16 word" where
  "be16_at h i = push_bit 8 (ucast (h ! i)) OR ucast (h ! Suc i)"

definition tapDevName :: "string \<Rightarrow> string" where
  "tapDevName name = ''kn-'' @ (if length name > 8 then take 8 name else name)"

definition sshPort :: "string \<Rightarrow> int" where
  "sshPort name = int (unat (be16_at (name_hash name) 2)) mod 50000 + 10000"

definition subnetIndex :: "string \<Rightarrow> 16 word" where
  "subnetIndex name = be16_at (name_hash name) 0 AND 0x3FFF"

definition guestMAC :: "string \<Rightarrow> string" where
  "guestMAC name =
     (let h = name_hash name in
      ''AA:FC:00:'' @ hex2_upper (h ! 0) @ '':'' @ hex2_upper (h ! 1) @ '':'' @ hex2_upper (h ! 2))"

definition deriveNetwork :: "string \<Rightarrow> networkConfig" where
  "deriveNetwork name =
     (let subnet = subnetIndex name in
      \<lparr> TAPDevice = tapDevName name,
        HostIP = IPv4 172 16 (ucast (drop_bit 8 subnet)) (ucast (push_bit 2 subnet OR 1)),
        GuestIP = IPv4 172 16 (ucast (drop_bit 8 subnet)) (ucast (push_bit 2 subnet OR 2)),
        GuestMAC = guestMAC name,
        SSHPort = sshPort name \<rparr>)"

definition bootArgsIP :: "networkConfig \<Rightarrow> string list \<Rightarrow> string" where
  "bootArgsIP nc dns =
     (let base = ''ip='' @ ip_string (GuestIP nc) @ ''::'' @ ip_string (HostIP nc) @
                 '':255.255.255.252::eth0:off''
      in if length dns \<ge> 2 then base @ '':'' @ dns ! 0 @ '':'' @ dns ! 1
         else if length dns = 1 then base @ '':'' @ dns ! 0
         else base)"

section \<open>Names and addresses of direct mode\<close>

definition nameHash8 :: "string \<Rightarrow> string" where
  "nameHash8 name =
     (let h = name_hash name in hex2 (h ! 0) @ hex2 (h ! 1) @ hex2 (h ! 2) @ hex2 (h ! 3))"

definition netnsName :: "string \<Rightarrow> string" where
  "netnsName name = ''kn-'' @ nameHash8 name"

definition vethHostName :: "string \<Rightarrow> string" where
  "vethHostName name = ''vh-'' @ nameHash8 name"

definition vethGuestName :: "string \<Rightarrow> string" where
  "vethGuestName name = ''vg-'' @ nameHash8 name"

definition vethSubnetIndex :: "string \<Rightarrow> u32" where
  "vethSubnetIndex name = be32 (take 4 (name_hash (name @ ''-veth''))) AND 0x3FFF"

definition vethHostIP :: "string \<Rightarrow> ipv4" where
  "vethHostIP name =
     (let idx = vethSubnetIndex name in
      IPv4 172 20 (ucast (drop_bit 6 idx)) (ucast (push_bit 2 (idx AND 0x3F) OR 1)))"

definition vethGuestIP :: "string \<Rightarrow> ipv4" where
  "vethGuestIP name =
     (let idx = vethSubnetIndex name in
      IPv4 172 20 (ucast (drop_bit 6 idx)) (ucast (push_bit 2 (idx AND 0x3F) OR 2)))"

section \<open>Bytes bit by bit\<close>

lemma all_less_upt: "(\<forall>n < k. P n) \<longleftrightarrow> list_all P [0..<k]" for k :: nat
  by (auto simp: list_all_iff)

lemma all_less_8:
  "(\<forall>n < 8. P n) \<longleftrightarrow> P 0 \<and> P 1 \<and> P 2 \<and> P 3 \<and> P 4 \<and> P 5 \<and> P 6 \<and> P (7 :: nat)"
  by (simp add: all_less_upt upt_rec eval_nat_numeral)

lemma all_less_14:
  "(\<forall>n < 14. P n) \<longleftrightarrow>
     (\<forall>n < 8. P n) \<and> P 8 \<and> P 9 \<and> P 10 \<and> P 11 \<and> P 12 \<and> P (13 :: nat)"
  by (simp add: all_less_upt upt_rec eval_nat_numeral)

lemma byte_bits:
  "(a :: byte) = b \<longleftrightarrow>
     bit a 0 = bit b 0 \<and> bit a 1 = bit b 1 \<and> bit a 2 = bit b 2 \<and> bit a 3 = bit b 3 \<and>
     bit a 4 = bit b 4 \<and> bit a 5 = bit b 5 \<and> bit a 6 = bit b 6 \<and> bit a 7 = bit b 7"
proof
  assume *: "bit a 0 = bit b 0 \<and> bit a 1 = bit b 1 \<and> bit a 2 = bit b 2 \<and> bit a 3 = bit b 3 \<and>
     bit a 4 = bit b 4 \<and> bit a 5 = bit b 5 \<and> bit a 6 = bit b 6 \<and> bit a 7 = bit b 7"
  show "a = b"
  proof (rule bit_word_eqI)
    have "\<forall>n < 8. bit a n = bit b n" using * by (simp only: all_less_8)
    moreover fix n assume "n < LENGTH(8)"
    ultimately show "bit a n = bit b n" by simp
  qed
qed simp

lemma byte_and_3: "unat (x AND 3 :: byte) = unat x mod 4"
proof -
  have "(3 :: nat) = mask 2" by (simp add: mask_eq_exp_minus_1)
  then have "unat x AND 3 = take_bit 2 (unat x)" by (simp only: take_bit_eq_mask)
  then show ?thesis by (simp add: unsigned_and_eq take_bit_eq_mod)
qed

lemma byte_and_FC: "unat (x AND 0xFC :: byte) = 4 * (unat x div 4)"
proof -
  have "(x AND 0xFC) AND (x AND 3) = 0" "(x AND 0xFC) OR (x AND 3) = x"
    unfolding byte_bits by (simp_all add: bit_simps)
  then have "(x AND 0xFC) + (x AND 3) = x"
    using word_plus_and_or [of "x AND 0xFC" "x AND 3"] by (simp only: add_0)
  then have "x AND 0xFC = x - (x AND 3)"
    by (rule eq_diff_eq [THEN iffD2])
  moreover have le: "x AND 3 \<le> x"
    by (simp only: word_le_nat_alt byte_and_3 mod_less_eq_dividend)
  ultimately have "unat (x AND 0xFC) = unat x - unat x mod 4"
    by (simp only: unat_sub [OF le] byte_and_3)
  then show ?thesis by (simp only: minus_mod_eq_mult_div)
qed

lemma ip_nat_mod_4: "ip_nat a mod 4 = unat (oct4 a) mod 4"
proof -
  have "(k * 256 + d) mod 4 = d mod 4" for k d :: nat
  proof -
    have "k * 256 + d = d + 4 * (64 * k)" by simp
    then show ?thesis by (simp only: mod_mult_self2)
  qed
  then show ?thesis by (simp only: ip_nat_def)
qed

section \<open>The contract of a /30 link\<close>

text \<open>
  Both addressing schemes of the program give each VM a pair of addresses in a block of four:
  the host side ends in the bits \<open>01\<close>, the guest side in \<open>10\<close>, and everything above the last two
  bits agrees. What the rest of the program needs follows from these laws alone.
\<close>

locale slash30 =
  fixes host guest :: "string \<Rightarrow> ipv4"
  assumes same_octets: "oct1 (host n) = oct1 (guest n)" "oct2 (host n) = oct2 (guest n)"
      "oct3 (host n) = oct3 (guest n)"
    and same_block: "oct4 (host n) AND 0xFC = oct4 (guest n) AND 0xFC"
    and host_bits: "oct4 (host n) AND 3 = 1"
    and guest_bits: "oct4 (guest n) AND 3 = 2"
begin

lemma base30: "ipBase30 (host n) = ipBase30 (guest n)"
  by (simp add: ipBase30_def same_octets same_block)

lemma host_mod: "ip_nat (host n) mod 4 = 1"
proof -
  have "unat (oct4 (host n)) mod 4 = 1" using byte_and_3 [of "oct4 (host n)"] by (simp add: host_bits)
  then show ?thesis by (simp only: ip_nat_mod_4)
qed

lemma guest_next: "ip_nat (guest n) = Suc (ip_nat (host n))"
proof -
  have "unat (oct4 (host n)) mod 4 = 1" "unat (oct4 (guest n)) mod 4 = 2"
    using byte_and_3 [of "oct4 (host n)"] byte_and_3 [of "oct4 (guest n)"]
    by (simp_all add: host_bits guest_bits)
  moreover have "unat (oct4 (host n)) div 4 = unat (oct4 (guest n)) div 4"
    using arg_cong [OF same_block, of unat] by (simp add: byte_and_FC)
  moreover have "a mod 4 = 1 \<Longrightarrow> b mod 4 = 2 \<Longrightarrow> a div 4 = b div 4 \<Longrightarrow> b = Suc a" for a b :: nat
    using mult_div_mod_eq [of 4 a] mult_div_mod_eq [of 4 b] by simp
  ultimately have "unat (oct4 (guest n)) = Suc (unat (oct4 (host n)))" by blast
  then show ?thesis by (simp add: ip_nat_def same_octets)
qed

lemma same_cidr: "in_cidr (guest n) (host n) 30"
proof -
  have "k mod 4 = 1 \<Longrightarrow> Suc k div 4 = k div 4" for k :: nat by presburger
  from this [OF host_mod] show ?thesis by (simp add: in_cidr_def guest_next)
qed

lemma distinct: "host n \<noteq> guest n"
  using guest_next [of n] by auto

text \<open>Neither address is the block's network address or its broadcast address.\<close>

lemma usable: "ip_nat (host n) mod 4 \<in> {1, 2}" "ip_nat (guest n) mod 4 \<in> {1, 2}"
  using host_mod [of n] mod_Suc [of "ip_nat (host n)" 4] by (simp_all add: guest_next)

end

lemma deriveNetwork_simps [simp]:
  "TAPDevice (deriveNetwork name) = tapDevName name"
  "GuestMAC (deriveNetwork name) = guestMAC name"
  "SSHPort (deriveNetwork name) = sshPort name"
  by (simp_all add: deriveNetwork_def Let_def)

interpretation tap_link: slash30 "\<lambda>n. HostIP (deriveNetwork n)" "\<lambda>n. GuestIP (deriveNetwork n)"
  by unfold_locales (simp_all add: deriveNetwork_def Let_def byte_bits bit_simps)

interpretation veth_link: slash30 vethHostIP vethGuestIP
  by unfold_locales (simp_all add: vethHostIP_def vethGuestIP_def Let_def byte_bits bit_simps)

section \<open>The contract of an interface name\<close>

text \<open>
  Linux interface names have at most 15 bytes (\<open>IFNAMSIZ\<close> counts the terminator), are not empty
  and hold no slash and no white space. A scheme that puts a three-byte prefix before at most
  eight bytes of a kind that is allowed meets it.
\<close>

definition ifname_ok :: "string \<Rightarrow> bool" where
  "ifname_ok s \<longleftrightarrow>
     s \<noteq> [] \<and> length s \<le> 15 \<and> s \<noteq> ''.'' \<and> s \<noteq> ''..'' \<and>
     (\<forall>c \<in> set s. c \<noteq> CHR ''/'' \<and> \<not> is_space c)"

locale ifname_scheme =
  fixes mk body :: "string \<Rightarrow> string" and pre :: string and good :: "string \<Rightarrow> bool"
  assumes mk_eq: "mk n = pre @ body n"
    and pre_ok: "length pre = 3" "\<forall>c \<in> set pre. c \<noteq> CHR ''/'' \<and> \<not> is_space c"
    and body_length: "length (body n) \<le> 8"
    and body_chars: "good n \<Longrightarrow> c \<in> set (body n) \<Longrightarrow> c \<noteq> CHR ''/'' \<and> \<not> is_space c"
begin

lemma length_mk: "length (mk n) \<le> 11"
  using body_length [of n] by (simp add: mk_eq pre_ok(1))

lemma ifname: "good n \<Longrightarrow> ifname_ok (mk n)"
proof -
  assume g: "good n"
  have l: "length (mk n) \<ge> 3" by (simp add: mk_eq pre_ok(1))
  show ?thesis unfolding ifname_ok_def
  proof (intro conjI ballI)
    show "mk n \<noteq> []" "mk n \<noteq> ''.''" "mk n \<noteq> ''..''" using l by auto
    show "length (mk n) \<le> 15" using length_mk [of n] by simp
    fix c assume "c \<in> set (mk n)"
    then show "c \<noteq> CHR ''/''" "\<not> is_space c"
      using pre_ok(2) body_chars [OF g] by (auto simp: mk_eq)
  qed
qed

lemma mk_inject: "mk m = mk n \<longleftrightarrow> body m = body n"
  by (simp add: mk_eq)

end

lemma hex_lower_plain: "is_hex_lower c \<Longrightarrow> c \<noteq> CHR ''/'' \<and> \<not> is_space c"
  by (auto simp: is_hex_lower_def is_space_def less_eq_char_def)

lemma nameHash8_chars: "c \<in> set (nameHash8 n) \<Longrightarrow> is_hex_lower c"
  by (auto simp: nameHash8_def Let_def dest: hex2_hex)

lemma nameHash8_plain: "c \<in> set (nameHash8 n) \<Longrightarrow> c \<noteq> CHR ''/'' \<and> \<not> is_space c"
  by (rule hex_lower_plain [OF nameHash8_chars])

lemma prefix_chars [simp]:
  "\<not> is_space CHR ''k''" "\<not> is_space CHR ''n''" "\<not> is_space CHR ''v''" "\<not> is_space CHR ''h''"
  "\<not> is_space CHR ''g''" "\<not> is_space CHR ''-''"
  by (simp_all add: is_space_def)

lemma length_nameHash8 [simp]: "length (nameHash8 n) = 8"
  by (simp add: nameHash8_def Let_def)

interpretation netns_if: ifname_scheme netnsName nameHash8 "''kn-''" "\<lambda>_. True"
  by unfold_locales (auto simp: netnsName_def dest: nameHash8_plain)

interpretation veth_host_if: ifname_scheme vethHostName nameHash8 "''vh-''" "\<lambda>_. True"
  by unfold_locales (auto simp: vethHostName_def dest: nameHash8_plain)

interpretation veth_guest_if: ifname_scheme vethGuestName nameHash8 "''vg-''" "\<lambda>_. True"
  by unfold_locales (auto simp: vethGuestName_def dest: nameHash8_plain)

text \<open>The TAP device carries the VM's own name, so it is valid where the name is.\<close>

interpretation tap_if: ifname_scheme tapDevName "take 8" "''kn-''"
    "\<lambda>n. \<forall>c \<in> set n. c \<noteq> CHR ''/'' \<and> \<not> is_space c"
  by unfold_locales (auto simp: tapDevName_def dest: in_set_takeD)

section \<open>Properties\<close>

lemma take_14_bits:
  fixes a b :: "'a::len word"
  shows "take_bit 14 a = take_bit 14 b \<longleftrightarrow>
    bit a 0 = bit b 0 \<and> bit a 1 = bit b 1 \<and> bit a 2 = bit b 2 \<and> bit a 3 = bit b 3 \<and>
    bit a 4 = bit b 4 \<and> bit a 5 = bit b 5 \<and> bit a 6 = bit b 6 \<and> bit a 7 = bit b 7 \<and>
    bit a 8 = bit b 8 \<and> bit a 9 = bit b 9 \<and> bit a 10 = bit b 10 \<and> bit a 11 = bit b 11 \<and>
    bit a 12 = bit b 12 \<and> bit a 13 = bit b 13" (is "_ \<longleftrightarrow> ?bits")
proof -
  have "take_bit 14 a = take_bit 14 b \<longleftrightarrow> (\<forall>n < 14. bit a n = bit b n)"
  proof
    assume eq: "take_bit 14 a = take_bit 14 b"
    show "\<forall>n < 14. bit a n = bit b n"
    proof (intro allI impI)
      fix n :: nat assume "n < 14"
      then show "bit a n = bit b n"
        using arg_cong [OF eq, of "\<lambda>w. bit w n"] by (simp add: bit_take_bit_iff)
    qed
  next
    assume "\<forall>n < 14. bit a n = bit b n"
    then show "take_bit 14 a = take_bit 14 b"
      by (intro bit_eqI) (auto simp: bit_take_bit_iff)
  qed
  then show ?thesis by (simp only: all_less_14 all_less_8 conj_assoc)
qed

lemma mask_14:
  "(x :: 16 word) AND 0x3FFF = take_bit 14 x" "(y :: u32) AND 0x3FFF = take_bit 14 y"
  by (simp_all add: take_bit_eq_mask mask_eq_exp_minus_1)

lemma take_14_subnetIndex: "take_bit 14 (subnetIndex n) = subnetIndex n"
  by (simp add: subnetIndex_def mask_14)

lemma subnetIndex_high: "\<not> bit (subnetIndex n) 14" "\<not> bit (subnetIndex n) 15"
  by (simp_all add: subnetIndex_def bit_simps)

lemma take_14_vethSubnetIndex: "take_bit 14 (vethSubnetIndex n) = vethSubnetIndex n"
  by (simp add: vethSubnetIndex_def mask_14)

lemma vethHostIP_inject: "vethHostIP a = vethHostIP b \<longleftrightarrow> vethSubnetIndex a = vethSubnetIndex b"
proof -
  have "vethHostIP a = vethHostIP b \<longleftrightarrow>
      take_bit 14 (vethSubnetIndex a) = take_bit 14 (vethSubnetIndex b)"
    by (simp add: vethHostIP_def Let_def byte_bits take_14_bits bit_simps conj_ac)
  then show ?thesis by (simp only: take_14_vethSubnetIndex)
qed

lemma HostIP_inject:
  "HostIP (deriveNetwork a) = HostIP (deriveNetwork b) \<longleftrightarrow>
     subnetIndex a AND 0x3F3F = subnetIndex b AND 0x3F3F"
proof -
  have m: "take_bit 14 (subnetIndex n AND 0x3F3F) = subnetIndex n AND 0x3F3F" for n
    by (simp only: take_bit_and take_14_subnetIndex) simp
  have "subnetIndex a AND 0x3F3F = subnetIndex b AND 0x3F3F \<longleftrightarrow>
      take_bit 14 (subnetIndex a AND 0x3F3F) = take_bit 14 (subnetIndex b AND 0x3F3F)"
    by (simp only: m)
  also have "\<dots> \<longleftrightarrow> HostIP (deriveNetwork a) = HostIP (deriveNetwork b)"
    unfolding take_14_bits
    by (simp add: deriveNetwork_def Let_def byte_bits bit_simps conj_ac subnetIndex_high)
  finally show ?thesis by simp
qed

lemma GuestIP_inject:
  "GuestIP (deriveNetwork a) = GuestIP (deriveNetwork b) \<longleftrightarrow>
     HostIP (deriveNetwork a) = HostIP (deriveNetwork b)"
  using tap_link.guest_next [of a] tap_link.guest_next [of b] ip_nat_inject by (metis Suc_inject)

lemma vethGuestIP_inject: "vethGuestIP a = vethGuestIP b \<longleftrightarrow> vethHostIP a = vethHostIP b"
  using veth_link.guest_next [of a] veth_link.guest_next [of b] ip_nat_inject by (metis Suc_inject)

lemma oct_bounds: "unat (oct1 a) < 256" "unat (oct2 a) < 256" "unat (oct3 a) < 256" "unat (oct4 a) < 256"
  by (rule unat_byte_less)+

lemma ip_nat_high: "ip_nat a div 65536 = unat (oct1 a) * 256 + unat (oct2 a)"
proof -
  have "ip_nat a = (unat (oct3 a) * 256 + unat (oct4 a)) +
      (unat (oct1 a) * 256 + unat (oct2 a)) * 65536"
    by (simp add: ip_nat_def)
  moreover have "unat (oct3 a) * 256 + unat (oct4 a) < 65536"
    using oct_bounds [of a] by linarith
  ultimately show ?thesis by simp
qed

lemma in_cidr_16: "in_cidr a (IPv4 x y 0 0) 16 \<longleftrightarrow> oct1 a = x \<and> oct2 a = y"
  by (simp add: in_cidr_def ip_nat_high digits_256_eq unat_byte_less oct_bounds word_unat_eq_iff)

lemma in_cidr_14:
  "in_cidr a (IPv4 x y 0 0) 14 \<longleftrightarrow> oct1 a = x \<and> unat (oct2 a) div 4 = unat y div 4"
proof -
  have d: "ip_nat b div 262144 = unat (oct1 b) * 64 + unat (oct2 b) div 4" for b
  proof -
    have "ip_nat b div 262144 = ip_nat b div 65536 div 4" by (simp flip: div_mult2_eq)
    also have "\<dots> = unat (oct1 b) * 64 + unat (oct2 b) div 4"
      unfolding ip_nat_high by presburger
    finally show ?thesis .
  qed
  have "unat z div 4 < 64" for z :: byte using unat_byte_less [of z] by (simp add: less_mult_imp_div_less)
  then show ?thesis
    by (simp add: in_cidr_def d digits_256_eq word_unat_eq_iff)
qed

lemma host_octets:
  "oct1 (HostIP (deriveNetwork n)) = 172" "oct2 (HostIP (deriveNetwork n)) = 16"
  "unat (oct3 (HostIP (deriveNetwork n))) < 64"
proof -
  have "oct3 (HostIP (deriveNetwork n)) = take_bit 6 (oct3 (HostIP (deriveNetwork n)))"
    by (simp add: deriveNetwork_def Let_def byte_bits bit_simps subnetIndex_high)
  then have "unat (oct3 (HostIP (deriveNetwork n))) = take_bit 6 (unat (oct3 (HostIP (deriveNetwork n))))"
    by (metis unsigned_take_bit_eq)
  then show "unat (oct3 (HostIP (deriveNetwork n))) < 64"
    using take_bit_nat_less_exp [of 6 "unat (oct3 (HostIP (deriveNetwork n)))"] by simp
qed (simp_all add: deriveNetwork_def Let_def)

lemma card_guest_subnets: "card (range (\<lambda>n. HostIP (deriveNetwork n))) \<le> 4096"
proof -
  let ?f = "\<lambda>(i, j). IPv4 172 16 (word_of_nat i) (word_of_nat (4 * j + 1))"
  have "range (\<lambda>n. HostIP (deriveNetwork n)) \<subseteq> ?f ` ({0..<64} \<times> {0..<64})"
  proof
    fix a assume "a \<in> range (\<lambda>n. HostIP (deriveNetwork n))"
    then obtain n where a: "a = HostIP (deriveNetwork n)" by blast
    define i j where "i = unat (oct3 a)" and "j = unat (oct4 a) div 4"
    have "unat (oct4 a) mod 4 = 1" using tap_link.host_mod [of n] by (simp add: a ip_nat_mod_4)
    then have "unat (oct4 a) = 4 * j + 1" using mult_div_mod_eq [of 4 "unat (oct4 a)"] by (simp add: j_def)
    then have "word_of_nat (unat (oct4 a)) = (word_of_nat (4 * j + 1) :: byte)" by (rule arg_cong)
    then have "oct4 a = word_of_nat (4 * j + 1)" by (simp only: of_nat_unat ucast_id)
    moreover have "oct3 a = word_of_nat i" by (simp add: i_def)
    moreover have "oct1 a = 172" "oct2 a = 16" "i < 64" by (simp_all add: a i_def host_octets)
    moreover have "j < 64" using oct_bounds(4) [of a] by (simp add: j_def less_mult_imp_div_less)
    ultimately have "a = ?f (i, j)" "(i, j) \<in> {0..<64} \<times> {0..<64}" by (cases a; simp)+
    then show "a \<in> ?f ` ({0..<64} \<times> {0..<64})" by blast
  qed
  then have "card (range (\<lambda>n. HostIP (deriveNetwork n))) \<le> card (?f ` ({0..<64} \<times> {0..<64::nat}))"
    by (intro card_mono) auto
  also have "\<dots> \<le> card ({0..<64::nat} \<times> {0..<64::nat})" by (rule card_image_le) simp
  also have "\<dots> = 4096" by (simp add: card_cartesian_product)
  finally show ?thesis .
qed

lemma length_4: "length xs = 4 \<Longrightarrow> \<exists>x y z w. xs = [x, y, z, w]"
  by (auto simp: numeral_eq_Suc length_Suc_conv)

subsection \<open>Statements\<close>


text \<open>On both kinds of link the guest address is the host address plus one, both are usable
  host addresses of the same /30 and differ from its network address and its broadcast address.\<close>
theorem link_pairs:
  "ip_nat (GuestIP (deriveNetwork n)) = Suc (ip_nat (HostIP (deriveNetwork n))) \<and>
   in_cidr (GuestIP (deriveNetwork n)) (HostIP (deriveNetwork n)) 30 \<and>
   ip_nat (HostIP (deriveNetwork n)) mod 4 = 1 \<and>
   ipBase30 (HostIP (deriveNetwork n)) = ipBase30 (GuestIP (deriveNetwork n)) \<and>
   ip_nat (vethGuestIP n) = Suc (ip_nat (vethHostIP n)) \<and>
   in_cidr (vethGuestIP n) (vethHostIP n) 30 \<and>
   ip_nat (vethHostIP n) mod 4 = 1 \<and>
   ipBase30 (vethHostIP n) = ipBase30 (vethGuestIP n)"
  by (intro conjI tap_link.guest_next tap_link.same_cidr tap_link.host_mod tap_link.base30
      veth_link.guest_next veth_link.same_cidr veth_link.host_mod veth_link.base30)

text \<open>The TAP addresses keep only twelve of the fourteen bits of the subnet index: bits 6 and 7
  are shifted out of the last octet and not kept by the third, so at most 4096 different guest
  subnets exist, not 16384.\<close>
theorem guest_subnets_collapse:
  "card (range (\<lambda>n. HostIP (deriveNetwork n))) \<le> 4096 \<and>
   (\<forall>a b. HostIP (deriveNetwork a) = HostIP (deriveNetwork b) \<longleftrightarrow>
          subnetIndex a AND 0x3F3F = subnetIndex b AND 0x3F3F)"
  using card_guest_subnets HostIP_inject by blast

text \<open>The veth addresses keep all fourteen bits of their index: two VMs share a veth link
  exactly when they have the same index, and the index is below 16384.\<close>
theorem veth_slots:
  "(vethHostIP a = vethHostIP b \<longleftrightarrow> vethSubnetIndex a = vethSubnetIndex b) \<and>
   (vethGuestIP a = vethGuestIP b \<longleftrightarrow> vethSubnetIndex a = vethSubnetIndex b) \<and>
   unat (vethSubnetIndex a) < 16384"
proof -
  have "unat (take_bit 14 (vethSubnetIndex a)) < 2 ^ 14"
    unfolding unsigned_take_bit_eq by (rule take_bit_nat_less_exp)
  then show ?thesis by (simp add: take_14_vethSubnetIndex vethHostIP_inject vethGuestIP_inject)
qed

text \<open>Every SSH port lies in 10000..59999, and no assignment of ports to all names can be
  unique: some two names share a port.\<close>
theorem ssh_port_range:
  "10000 \<le> sshPort n \<and> sshPort n < 60000 \<and> (\<exists>a b. a \<noteq> b \<and> sshPort a = sshPort b)"
proof -
  have r: "10000 \<le> sshPort m \<and> sshPort m < 60000" for m
    using pos_mod_bound [of 50000 "int (unat (be16_at (name_hash m) 2))"]
    by (simp add: sshPort_def)
  then have "range sshPort \<subseteq> {10000..<60000}" by auto
  then have "finite (range sshPort)" by (rule finite_subset) simp
  moreover have "infinite (UNIV :: string set)" by (rule infinite_UNIV_listI)
  ultimately have "\<not> inj sshPort" by (metis finite_imageD)
  then show ?thesis using r [of n] by (auto simp: inj_def)
qed


end
