(* ===== verification/Float64.thy ===== *)
theory Float64
  imports Main
begin

text \<open>
  Go's \<open>float64\<close>: a finite value is \<open>m * 2 ^ e\<close>, and an operation rounds its exact result to 53
  significant bits, ties to even (IEEE 754 binary64, with gradual underflow and overflow to
  infinity). Zeros are not told apart by sign, which nothing in the program observes.
\<close>

datatype float64 = FNaN | FInf bool | Fin int int

text \<open>The number of binary digits of an integer that is not negative.\<close>

function int_bits :: "int \<Rightarrow> int" where
  "int_bits n = (if n \<le> 0 then 0 else 1 + int_bits (n div 2))"
  by pat_completeness auto
termination
  by (relation "measure nat") auto

declare int_bits.simps [simp del]

text \<open>\<open>half_even a k\<close> is \<open>a / 2 ^ k\<close> rounded to the nearest integer, ties to even.\<close>

definition half_even :: "int \<Rightarrow> nat \<Rightarrow> int" where
  "half_even a k =
     (let q = a div 2 ^ k; r = a mod 2 ^ k in
      if 2 * r < 2 ^ k \<or> (2 * r = 2 ^ k \<and> even q) then q else q + 1)"

definition f_round :: "int \<Rightarrow> int \<Rightarrow> float64" where
  "f_round m e =
     (let k = max (int_bits \<bar>m\<bar> - 53) (- 1074 - e);
          q = (if k \<le> 0 then \<bar>m\<bar> else half_even \<bar>m\<bar> (nat k));
          e' = (if k \<le> 0 then e else e + k)
      in if q \<noteq> 0 \<and> int_bits q + e' > 1024 then FInf (m < 0)
         else Fin (sgn m * q) e')"

definition f_of_int :: "int \<Rightarrow> float64" where
  "f_of_int n = f_round n 0"

fun f_mul :: "float64 \<Rightarrow> float64 \<Rightarrow> float64" where
  "f_mul FNaN _ = FNaN"
| "f_mul _ FNaN = FNaN"
| "f_mul (FInf s) (FInf t) = FInf (s \<noteq> t)"
| "f_mul (FInf s) (Fin b f) = (if b = 0 then FNaN else FInf (s \<noteq> (b < 0)))"
| "f_mul (Fin a e) (FInf t) = (if a = 0 then FNaN else FInf ((a < 0) \<noteq> t))"
| "f_mul (Fin a e) (Fin b f) = f_round (a * b) (e + f)"

text \<open>\<open>x / 8\<close>\<close>

definition f_div8 :: "float64 \<Rightarrow> float64" where
  "f_div8 x = f_mul x (Fin 1 (- 3))"

text \<open>
  A ratio of integers, rounded to the nearest value: the quotient with more bits than are kept, and one
  more bit that says whether there is a remainder.
\<close>

definition f_ratio :: "int \<Rightarrow> int \<Rightarrow> float64" where
  "f_ratio m d =
     (let k = nat (int_bits d - int_bits \<bar>m\<bar> + 60);
          q = \<bar>m\<bar> * 2 ^ k div d;
          r = \<bar>m\<bar> * 2 ^ k mod d
      in f_round (sgn m * (2 * q + (if r = 0 then 0 else 1))) (- int k - 1))"

fun f_div :: "float64 \<Rightarrow> float64 \<Rightarrow> float64" where
  "f_div FNaN _ = FNaN"
| "f_div _ FNaN = FNaN"
| "f_div (FInf s) (FInf t) = FNaN"
| "f_div (FInf s) (Fin b f) = FInf (s \<noteq> (b < 0))"
| "f_div (Fin a e) (FInf t) = Fin 0 0"
| "f_div (Fin a e) (Fin b f) =
     (if b = 0 then (if a = 0 then FNaN else FInf (a < 0))
      else f_ratio (sgn b * a * 2 ^ nat (e - f)) (\<bar>b\<bar> * 2 ^ nat (f - e)))"

text \<open>Sums and comparisons bring two values to one exponent; a comparison is false on a NaN.\<close>

definition scaled :: "int \<Rightarrow> int \<Rightarrow> int \<Rightarrow> int" where
  "scaled g a e = a * 2 ^ nat (e - g)"

fun f_add :: "float64 \<Rightarrow> float64 \<Rightarrow> float64" where
  "f_add FNaN _ = FNaN"
| "f_add _ FNaN = FNaN"
| "f_add (FInf s) (FInf t) = (if s = t then FInf s else FNaN)"
| "f_add (FInf s) (Fin _ _) = FInf s"
| "f_add (Fin _ _) (FInf t) = FInf t"
| "f_add (Fin a e) (Fin b f) = f_round (scaled (min e f) a e + scaled (min e f) b f) (min e f)"

fun f_less :: "float64 \<Rightarrow> float64 \<Rightarrow> bool" where
  "f_less FNaN _ = False"
| "f_less _ FNaN = False"
| "f_less (FInf s) (FInf t) = (s \<and> \<not> t)"
| "f_less (FInf s) (Fin _ _) = s"
| "f_less (Fin _ _) (FInf t) = (\<not> t)"
| "f_less (Fin a e) (Fin b f) = (scaled (min e f) a e < scaled (min e f) b f)"

fun f_eq :: "float64 \<Rightarrow> float64 \<Rightarrow> bool" where
  "f_eq FNaN _ = False"
| "f_eq _ FNaN = False"
| "f_eq (FInf s) (FInf t) = (s = t)"
| "f_eq (FInf s) (Fin _ _) = False"
| "f_eq (Fin _ _) (FInf t) = False"
| "f_eq (Fin a e) (Fin b f) = (scaled (min e f) a e = scaled (min e f) b f)"

definition f_le :: "float64 \<Rightarrow> float64 \<Rightarrow> bool" where
  "f_le x y \<longleftrightarrow> f_less x y \<or> f_eq x y"

text \<open>\<open>math.Ceil\<close>\<close>

fun f_ceil :: "float64 \<Rightarrow> float64" where
  "f_ceil (Fin a e) = (if 0 \<le> e then Fin a e else Fin (- ((- a) div 2 ^ nat (- e))) 0)"
| "f_ceil x = x"

text \<open>
  Conversion to a 64-bit integer cuts the fraction off; Go leaves the result open for a value that
  does not fit, so it is the argument \<open>wide\<close>.
\<close>

definition f_trunc :: "int \<Rightarrow> int \<Rightarrow> int" where
  "f_trunc a e = (if 0 \<le> e then a * 2 ^ nat e else sgn a * (\<bar>a\<bar> div 2 ^ nat (- e)))"

fun f_to_int :: "(float64 \<Rightarrow> int) \<Rightarrow> float64 \<Rightarrow> int" where
  "f_to_int wide (Fin a e) =
     (if - (2 ^ 63) \<le> f_trunc a e \<and> f_trunc a e < 2 ^ 63 then f_trunc a e else wide (Fin a e))"
| "f_to_int wide x = wide x"

lemma f_le_NaN [simp]: "\<not> f_le FNaN x" "\<not> f_eq FNaN x" "\<not> f_less FNaN x"
  by (simp_all add: f_le_def)

lemma int_bits_le: "n < 2 ^ k \<Longrightarrow> int_bits n \<le> int k"
proof (induction k arbitrary: n)
  case 0
  then show ?case by (simp add: int_bits.simps)
next
  case (Suc k)
  then have "n div 2 < 2 ^ k" by auto
  from Suc.IH [OF this] show ?case by (simp add: int_bits.simps [of n])
qed

text \<open>Integers of up to 53 bits are exact.\<close>

lemma f_of_int_exact: "\<bar>n\<bar> < 2 ^ 53 \<Longrightarrow> f_of_int n = Fin n 0"
proof -
  assume "\<bar>n\<bar> < 2 ^ 53"
  then have "int_bits \<bar>n\<bar> \<le> 53" using int_bits_le [of "\<bar>n\<bar>" 53] by simp
  then show ?thesis by (auto simp: f_of_int_def f_round_def Let_def sgn_mult_abs)
qed

text \<open>The ceiling of a finite value is the least integer that is not below it.\<close>

lemma div_eq_bounds:
  fixes x p q :: int
  assumes "0 < p"
  shows "x div p = q \<longleftrightarrow> q * p \<le> x \<and> x < q * p + p"
proof
  assume "x div p = q"
  then have "x = q * p + x mod p" by (metis div_mult_mod_eq)
  then show "q * p \<le> x \<and> x < q * p + p"
    using pos_mod_sign [OF assms, of x] pos_mod_bound [OF assms, of x] by linarith
next
  assume "q * p \<le> x \<and> x < q * p + p"
  then show "x div p = q"
    using int_div_pos_eq [of x p q "x - q * p"] by (simp add: mult.commute)
qed

lemma f_ceil_least:
  assumes "e < 0"
  shows "f_ceil (Fin a e) = Fin c 0 \<longleftrightarrow> (c - 1) * 2 ^ nat (- e) < a \<and> a \<le> c * 2 ^ nat (- e)"
proof -
  have "- ((- a) div 2 ^ nat (- e)) = c \<longleftrightarrow> (- a) div 2 ^ nat (- e) = - c" by auto
  also have "\<dots> \<longleftrightarrow> (c - 1) * 2 ^ nat (- e) < a \<and> a \<le> c * 2 ^ nat (- e)"
    by (subst div_eq_bounds) (auto simp: algebra_simps)
  finally show ?thesis using assms by simp
qed

end
