(* ===== verification/World.thy ===== *)
theory World
  imports GoPath Float64 "HOL-Library.List_Lexorder"
begin

text \<open>
  The world the program runs in. Its state is a file system, a clock and the log of the calls
  made so far; a Go function is a program of the state monad on it. The file operations have the
  semantics of package \<open>os\<close>; what is outside the program (the commands it executes, the
  Firecracker process behind a socket, the moment a system call fails) is the parameter \<open>env\<close>,
  whose answers may depend on the whole state, log included.
\<close>

section \<open>Errors\<close>

text \<open>
  \<open>Wrap s e\<close> is \<^verbatim>\<open>fmt.Errorf(s + "%w", e)\<close>, \<open>Also d e\<close> the error of a failed resume,
  \<open>Joined\<close> that of \<open>errors.Join\<close>.
\<close>

datatype err =
    ENOENT | ENOTDIR | EISDIR | ENOTEMPTY | ENXIO | EINVAL | ECONNREFUSED | ESRCH
  | OsErr string
  | ExitErr int
  | ErrMsg string
  | Wrap string err
  | Also err err
  | Joined "err list"

fun err_text :: "err \<Rightarrow> string" where
  "err_text ENOENT = ''no such file or directory''"
| "err_text ENOTDIR = ''not a directory''"
| "err_text EISDIR = ''is a directory''"
| "err_text ENOTEMPTY = ''directory not empty''"
| "err_text ENXIO = ''no such device or address''"
| "err_text EINVAL = ''invalid argument''"
| "err_text ECONNREFUSED = ''connection refused''"
| "err_text ESRCH = ''no such process''"
| "err_text (OsErr s) = s"
| "err_text (ExitErr n) = ''exit status '' @ itoa n"
| "err_text (ErrMsg s) = s"
| "err_text (Wrap s e) = s @ err_text e"
| "err_text (Also d e) = err_text d @ ''; also failed to resume: '' @ err_text e"
| "err_text (Joined es) = join [CHR 0x0A] (map err_text es)"

section \<open>The file system\<close>

datatype node = Dir | File string | Socket

type_synonym files = "(string \<times> node) list"

definition fs_lookup :: "files \<Rightarrow> string \<Rightarrow> node option" where
  "fs_lookup fs p =
     (if Clean p = ''/'' \<or> Clean p = ''.'' then Some Dir else map_of fs (Clean p))"

text \<open>The proper ancestors of a path below its root, from the top.\<close>

definition of_comps :: "bool \<Rightarrow> string list \<Rightarrow> string" where
  "of_comps r cs = Clean ((if r then ''/'' else []) @ join ''/'' cs)"

definition ancestors :: "string \<Rightarrow> string list" where
  "ancestors p =
     (let cs = path_comps p in map (\<lambda>i. of_comps (is_rooted p) (take i cs)) [1..<length cs])"

definition not_dir :: "files \<Rightarrow> string \<Rightarrow> bool" where
  "not_dir fs p \<longleftrightarrow> (\<exists>n. fs_lookup fs p = Some n \<and> n \<noteq> Dir)"

definition missing :: "files \<Rightarrow> string \<Rightarrow> err" where
  "missing fs p = (if list_ex (not_dir fs) (ancestors p) then ENOTDIR else ENOENT)"

lemma not_dir_code [code]:
  "not_dir fs p = (case fs_lookup fs p of None \<Rightarrow> False | Some n \<Rightarrow> n \<noteq> Dir)"
  by (auto simp: not_dir_def split: option.splits)

text \<open>\<open>p\<close> itself or something below it.\<close>

definition below :: "string \<Rightarrow> string \<Rightarrow> bool" where
  "below p q \<longleftrightarrow>
     Clean q = Clean p \<or> has_prefix (Clean q) (if Clean p = ''/'' then ''/'' else Clean p @ ''/'')"

definition put_node :: "string \<Rightarrow> node \<Rightarrow> files \<Rightarrow> files" where
  "put_node p n fs = (Clean p, n) # filter (\<lambda>(q, _). q \<noteq> Clean p) fs"

definition drop_node :: "string \<Rightarrow> files \<Rightarrow> files" where
  "drop_node p fs = filter (\<lambda>(q, _). q \<noteq> Clean p) fs"

definition drop_tree :: "string \<Rightarrow> files \<Rightarrow> files" where
  "drop_tree p fs = filter (\<lambda>(q, _). \<not> below p q) fs"

text \<open>The entries of a directory: the paths that are one plain component below it.\<close>

definition child_name :: "string \<Rightarrow> string \<Rightarrow> string option" where
  "child_name p q =
     (if has_prefix q (if Clean p = ''/'' then ''/'' else Clean p @ ''/'') then
        (let n = drop (length (if Clean p = ''/'' then ''/'' else Clean p @ ''/'')) q
         in if plain_name n then Some n else None)
      else None)"

definition child_names :: "files \<Rightarrow> string \<Rightarrow> string list" where
  "child_names fs p = sort (remdups (List.map_filter (\<lambda>(q, _). child_name p q) fs))"

definition parent_dir :: "files \<Rightarrow> string \<Rightarrow> bool" where
  "parent_dir fs p \<longleftrightarrow>
     (ancestors p = [] \<or> fs_lookup fs (last (ancestors p)) = Some Dir)"

subsection \<open>Package os\<close>

definition fs_stat :: "files \<Rightarrow> string \<Rightarrow> err + node" where
  "fs_stat fs p = (case fs_lookup fs p of None \<Rightarrow> Inl (missing fs p) | Some n \<Rightarrow> Inr n)"

definition fs_read :: "files \<Rightarrow> string \<Rightarrow> err + string" where
  "fs_read fs p =
     (case fs_lookup fs p of
        None \<Rightarrow> Inl (missing fs p)
      | Some Dir \<Rightarrow> Inl EISDIR
      | Some Socket \<Rightarrow> Inl ENXIO
      | Some (File d) \<Rightarrow> Inr d)"

definition fs_write :: "files \<Rightarrow> string \<Rightarrow> string \<Rightarrow> err + files" where
  "fs_write fs p d =
     (case fs_lookup fs p of
        Some Dir \<Rightarrow> Inl EISDIR
      | Some Socket \<Rightarrow> Inl ENXIO
      | Some (File _) \<Rightarrow> Inr (put_node p (File d) fs)
      | None \<Rightarrow> if parent_dir fs p then Inr (put_node p (File d) fs) else Inl (missing fs p))"

definition fs_mkdir_all :: "files \<Rightarrow> string \<Rightarrow> err + files" where
  "fs_mkdir_all fs p =
     (if list_ex (not_dir fs) (ancestors p @ [p]) then Inl ENOTDIR
      else Inr (foldl (\<lambda>fs q. if fs_lookup fs q = None then put_node q Dir fs else fs) fs
                  (ancestors p @ [p])))"

definition fs_remove :: "files \<Rightarrow> string \<Rightarrow> err + files" where
  "fs_remove fs p =
     (case fs_lookup fs p of
        None \<Rightarrow> Inl (missing fs p)
      | Some Dir \<Rightarrow> if child_names fs p = [] then Inr (drop_node p fs) else Inl ENOTEMPTY
      | Some _ \<Rightarrow> Inr (drop_node p fs))"

definition ends_with_dot :: "string \<Rightarrow> bool" where
  "ends_with_dot p \<longleftrightarrow> p = ''.'' \<or> has_suffix p ''/.''"

definition fs_remove_all :: "files \<Rightarrow> string \<Rightarrow> err + files" where
  "fs_remove_all fs p =
     (if p = [] then Inr fs
      else if ends_with_dot p then Inl EINVAL
      else if list_ex (not_dir fs) (ancestors p) then Inl ENOTDIR
      else Inr (drop_tree p fs))"

definition fs_read_dir :: "files \<Rightarrow> string \<Rightarrow> err + (string \<times> bool) list" where
  "fs_read_dir fs p =
     (case fs_lookup fs p of
        None \<Rightarrow> Inl (missing fs p)
      | Some Dir \<Rightarrow> Inr (map (\<lambda>n. (n, fs_lookup fs (Join [p, n]) = Some Dir)) (child_names fs p))
      | Some _ \<Rightarrow> Inl ENOTDIR)"

definition fs_truncate :: "files \<Rightarrow> string \<Rightarrow> int \<Rightarrow> err + files" where
  "fs_truncate fs p n =
     (if n < 0 then Inl EINVAL
      else
        (case fs_lookup fs p of
           None \<Rightarrow> Inl (missing fs p)
         | Some Dir \<Rightarrow> Inl EISDIR
         | Some Socket \<Rightarrow> Inl EINVAL
         | Some (File d) \<Rightarrow>
             Inr (put_node p (File (take (nat n) d @ replicate (nat n - length d) (CHR 0x00))) fs)))"

definition node_size :: "node \<Rightarrow> int" where
  "node_size n = (case n of File d \<Rightarrow> int (length d) | _ \<Rightarrow> 0)"

section \<open>Calls and the environment\<close>

datatype signal = Sig0 | SIGKILL

datatype event =
    Stat string | ReadFile string | WriteFile string string | MkdirAll string
  | Remove string | RemoveAll string | ReadDir string | Truncate string int
  | OpenWrite string | CreateTrunc string
  | Exec "string list" | Spawn "string list" bool
  | KillChild nat | WaitChild nat | SendSignal int signal
  | Http string string string string
  | Dial string | Sleep nat | Now | Rand nat

record world =
  files :: files
  clock :: nat
  trace :: "event list"

record env =
  home :: string
  fault :: "world \<Rightarrow> event \<Rightarrow> (err \<times> files) option"
  took :: "world \<Rightarrow> event \<Rightarrow> nat"
  command :: "world \<Rightarrow> string list \<Rightarrow> string \<times> err option \<times> files"
  spawned :: "world \<Rightarrow> string list \<Rightarrow> (err + nat) \<times> files"
  kill_child :: "world \<Rightarrow> nat \<Rightarrow> err option"
  wait_child :: "world \<Rightarrow> nat \<Rightarrow> err option \<times> files"
  signalled :: "world \<Rightarrow> int \<Rightarrow> signal \<Rightarrow> err option"
  serve :: "world \<Rightarrow> string \<Rightarrow> string \<Rightarrow> string \<Rightarrow> string \<Rightarrow> (err + nat \<times> string) \<times> files"
  dialled :: "world \<Rightarrow> string \<Rightarrow> err option"
  meanwhile :: "world \<Rightarrow> nat \<Rightarrow> files"
  entropy :: "world \<Rightarrow> nat \<Rightarrow> nat \<Rightarrow> byte"
  mod_time :: "world \<Rightarrow> string \<Rightarrow> nat option"
  wide_int :: "float64 \<Rightarrow> int"
  zone :: int

type_synonym 'a prog = "(world, 'a) state"
type_synonym 'a go = "(world, err + 'a) state"

definition logged :: "env \<Rightarrow> event \<Rightarrow> world \<Rightarrow> world" where
  "logged E ev w = w\<lparr>trace := trace w @ [ev], clock := clock w + took E w ev\<rparr>"

text \<open>
  A call that only reads, and one that may change the file system. The environment can make any
  call fail; a call that changes files may then leave them as it pleases.
\<close>

definition os_read :: "env \<Rightarrow> event \<Rightarrow> (files \<Rightarrow> err + 'a) \<Rightarrow> 'a go" where
  "os_read E ev f = State (\<lambda>w.
     (case fault E w ev of Some (e, _) \<Rightarrow> Inl e | None \<Rightarrow> f (files w), logged E ev w))"

definition os_write :: "env \<Rightarrow> event \<Rightarrow> (files \<Rightarrow> err + files) \<Rightarrow> unit go" where
  "os_write E ev f = State (\<lambda>w.
     case fault E w ev of
       Some (e, fs) \<Rightarrow> (Inl e, (logged E ev w)\<lparr>files := fs\<rparr>)
     | None \<Rightarrow>
         (case f (files w) of
            Inl e \<Rightarrow> (Inl e, logged E ev w)
          | Inr fs \<Rightarrow> (Inr (), (logged E ev w)\<lparr>files := fs\<rparr>)))"

definition os_Stat :: "env \<Rightarrow> string \<Rightarrow> node go" where
  "os_Stat E p = os_read E (Stat p) (\<lambda>fs. fs_stat fs p)"

definition os_ReadFile :: "env \<Rightarrow> string \<Rightarrow> string go" where
  "os_ReadFile E p = os_read E (ReadFile p) (\<lambda>fs. fs_read fs p)"

definition os_ReadDir :: "env \<Rightarrow> string \<Rightarrow> (string \<times> bool) list go" where
  "os_ReadDir E p = os_read E (ReadDir p) (\<lambda>fs. fs_read_dir fs p)"

text \<open>\<open>os.OpenFile\<close> with \<open>O_WRONLY\<close>, and with \<open>O_CREATE|O_WRONLY|O_TRUNC\<close>.\<close>

definition os_OpenWrite :: "env \<Rightarrow> string \<Rightarrow> node go" where
  "os_OpenWrite E p = os_read E (OpenWrite p) (\<lambda>fs. fs_stat fs p)"

definition os_CreateTrunc :: "env \<Rightarrow> string \<Rightarrow> unit go" where
  "os_CreateTrunc E p = os_write E (CreateTrunc p) (\<lambda>fs. fs_write fs p [])"

definition os_WriteFile :: "env \<Rightarrow> string \<Rightarrow> string \<Rightarrow> unit go" where
  "os_WriteFile E p d = os_write E (WriteFile p d) (\<lambda>fs. fs_write fs p d)"

definition os_MkdirAll :: "env \<Rightarrow> string \<Rightarrow> unit go" where
  "os_MkdirAll E p = os_write E (MkdirAll p) (\<lambda>fs. fs_mkdir_all fs p)"

definition os_Remove :: "env \<Rightarrow> string \<Rightarrow> unit go" where
  "os_Remove E p = os_write E (Remove p) (\<lambda>fs. fs_remove fs p)"

definition os_RemoveAll :: "env \<Rightarrow> string \<Rightarrow> unit go" where
  "os_RemoveAll E p = os_write E (RemoveAll p) (\<lambda>fs. fs_remove_all fs p)"

definition os_Truncate :: "env \<Rightarrow> string \<Rightarrow> int \<Rightarrow> unit go" where
  "os_Truncate E p n = os_write E (Truncate p n) (\<lambda>fs. fs_truncate fs p n)"

text \<open>
  \<open>exec.Command(...)\<close> run to its end (its output and its error), and started in the background
  (its process id).
\<close>

definition exec_run :: "env \<Rightarrow> string list \<Rightarrow> (string \<times> err option) prog" where
  "exec_run E argv = State (\<lambda>w.
     case command E w argv of
       (out, e, fs) \<Rightarrow> ((out, e), (logged E (Exec argv) w)\<lparr>files := fs\<rparr>))"

definition exec_start :: "env \<Rightarrow> string list \<Rightarrow> bool \<Rightarrow> nat go" where
  "exec_start E argv setsid = State (\<lambda>w.
     case spawned E w argv of
       (r, fs) \<Rightarrow> (r, (logged E (Spawn argv setsid) w)\<lparr>files := fs\<rparr>))"

definition proc_Kill :: "env \<Rightarrow> nat \<Rightarrow> unit go" where
  "proc_Kill E pid = State (\<lambda>w.
     (case kill_child E w pid of Some e \<Rightarrow> Inl e | None \<Rightarrow> Inr (), logged E (KillChild pid) w))"

definition cmd_Wait :: "env \<Rightarrow> nat \<Rightarrow> unit go" where
  "cmd_Wait E pid = State (\<lambda>w.
     case wait_child E w pid of
       (r, fs) \<Rightarrow>
         (case r of Some e \<Rightarrow> Inl e | None \<Rightarrow> Inr (), (logged E (WaitChild pid) w)\<lparr>files := fs\<rparr>))"

definition syscall_Kill :: "env \<Rightarrow> int \<Rightarrow> signal \<Rightarrow> unit go" where
  "syscall_Kill E pid sg = State (\<lambda>w.
     (case signalled E w pid sg of Some e \<Rightarrow> Inl e | None \<Rightarrow> Inr (),
      logged E (SendSignal pid sg) w))"

text \<open>
  An HTTP request on a Unix socket. Connecting needs a socket at the path; what answers behind it
  is the environment's.
\<close>

definition http_do :: "env \<Rightarrow> string \<Rightarrow> string \<Rightarrow> string \<Rightarrow> string \<Rightarrow> (nat \<times> string) go" where
  "http_do E sock meth path body = State (\<lambda>w.
     case fs_lookup (files w) sock of
       Some Socket \<Rightarrow>
         (case serve E w sock meth path body of
            (r, fs) \<Rightarrow> (r, (logged E (Http sock meth path body) w)\<lparr>files := fs\<rparr>))
     | None \<Rightarrow> (Inl (missing (files w) sock), logged E (Http sock meth path body) w)
     | Some _ \<Rightarrow> (Inl ECONNREFUSED, logged E (Http sock meth path body) w))"

definition net_Dial :: "env \<Rightarrow> string \<Rightarrow> unit go" where
  "net_Dial E addr = State (\<lambda>w.
     (case dialled E w addr of Some e \<Rightarrow> Inl e | None \<Rightarrow> Inr (), logged E (Dial addr) w))"

definition time_Now :: "env \<Rightarrow> nat prog" where
  "time_Now E = State (\<lambda>w. (clock w, logged E Now w))"

text \<open>\<open>time.Sleep\<close> takes at least the time it is given; meanwhile others change files.\<close>

definition time_Sleep :: "env \<Rightarrow> nat \<Rightarrow> unit prog" where
  "time_Sleep E d = State (\<lambda>w.
     ((), (logged E (Sleep d) w)\<lparr>clock := clock w + d + took E w (Sleep d),
                                files := meanwhile E w d\<rparr>))"

definition rand_Read :: "env \<Rightarrow> nat \<Rightarrow> byte list prog" where
  "rand_Read E n = State (\<lambda>w. (map (entropy E w n) [0..<n], logged E (Rand n) w))"

definition dir_mtime :: "env \<Rightarrow> string \<Rightarrow> nat option prog" where
  "dir_mtime E p = State (\<lambda>w. (mod_time E w p, logged E (Stat p) w))"

text \<open>
  An environment in which nothing fails: every call succeeds at once, commands print nothing and
  change nothing, every request is answered with 204.
\<close>

definition calm_env :: env where
  "calm_env =
     \<lparr> home = ''/root'', fault = \<lambda>_ _. None, took = \<lambda>_ _. 0,
       command = \<lambda>w _. ([], None, files w), spawned = \<lambda>w _. (Inr 100, files w),
       kill_child = \<lambda>_ _. None, wait_child = \<lambda>w _. (None, files w), signalled = \<lambda>_ _ _. None,
       serve = \<lambda>w _ _ _ _. (Inr (204, []), files w), dialled = \<lambda>_ _. None,
       meanwhile = \<lambda>w _. files w, entropy = \<lambda>_ _ i. word_of_nat i, mod_time = \<lambda>_ _. None,
       wide_int = \<lambda>_. - (2 ^ 63), zone = 0 \<rparr>"

lemma calm_env_simps [simp]:
  "home calm_env = ''/root''" "fault calm_env w ev = None" "took calm_env w ev = 0"
  "command calm_env w argv = ([], None, files w)" "spawned calm_env w argv = (Inr 100, files w)"
  "kill_child calm_env w k = None" "wait_child calm_env w k = (None, files w)"
  "signalled calm_env w i sg = None"
  "serve calm_env w sock meth path body = (Inr (204, []), files w)"
  "dialled calm_env w addr = None" "meanwhile calm_env w d = files w"
  "entropy calm_env w n k = word_of_nat k" "mod_time calm_env w p = None"
  "wide_int calm_env x = - (2 ^ 63)" "zone calm_env = 0"
  by (simp_all add: calm_env_def)

definition empty_world :: world where
  "empty_world = \<lparr> files = [], clock = 0, trace = [] \<rparr>"

lemma empty_world_simps [simp]:
  "files empty_world = []" "clock empty_world = 0" "trace empty_world = []"
  by (simp_all add: empty_world_def)

end
