(* ===== verification/Logic.thy ===== *)
theory Logic
  imports World
begin

text \<open>
  How the development reasons about programs: \<open>ensures\<close> relates the state before a program to its
  result and the state after it, \<open>calls\<close> bounds the calls it makes, \<open>requests\<close> reads the API
  requests off the log. Then the laws of the file operations, and the two interfaces that several
  components share: a record kept as JSON, and a loop that polls until a deadline.
\<close>

named_theorems ensures_intros "what the calls ensure"

section \<open>Pre- and postconditions\<close>

definition ensures :: "(world \<Rightarrow> bool) \<Rightarrow> 'a prog \<Rightarrow> ('a \<Rightarrow> world \<Rightarrow> bool) \<Rightarrow> bool" where
  "ensures P m Q \<longleftrightarrow> (\<forall>w. P w \<longrightarrow> (case run_state m w of (r, w') \<Rightarrow> Q r w'))"

lemma ensuresD: "ensures P m Q \<Longrightarrow> run_state m w = (r, w') \<Longrightarrow> P w \<Longrightarrow> Q r w'"
  by (auto simp: ensures_def)

lemma ensuresI: "(\<And>w r w'. P w \<Longrightarrow> run_state m w = (r, w') \<Longrightarrow> Q r w') \<Longrightarrow> ensures P m Q"
  by (auto simp: ensures_def split: prod.splits)

lemma ensures_return: "(\<And>w. P w \<Longrightarrow> Q a w) \<Longrightarrow> ensures P (ret a) Q"
  by (auto simp: ensures_def run_simps)

lemma ensures_bind:
  "ensures P m R \<Longrightarrow> (\<And>a. ensures (R a) (f a) Q) \<Longrightarrow> ensures P (State_Monad.bind m f) Q"
  by (fastforce simp: ensures_def run_simps split: prod.splits)

lemma ensures_on_error:
  "ensures P m R \<Longrightarrow> (\<And>e. ensures (R (Inl e)) (h e) Q) \<Longrightarrow> (\<And>a. ensures (R (Inr a)) (k a) Q) \<Longrightarrow>
   ensures P (on_error m h k) Q"
  by (fastforce simp: ensures_def run_simps split: prod.splits sum.splits)

lemma ensures_weaken:
  "ensures P m Q \<Longrightarrow> (\<And>w. P' w \<Longrightarrow> P w) \<Longrightarrow> (\<And>r w. Q r w \<Longrightarrow> Q' r w) \<Longrightarrow> ensures P' m Q'"
  by (fastforce simp: ensures_def split: prod.splits)

lemma ensures_pre: "ensures P m Q \<Longrightarrow> (\<And>w. P' w \<Longrightarrow> P w) \<Longrightarrow> ensures P' m Q"
  by (rule ensures_weaken)

lemma ensures_post: "ensures P m Q \<Longrightarrow> (\<And>r w. Q r w \<Longrightarrow> Q' r w) \<Longrightarrow> ensures P m Q'"
  by (rule ensures_weaken)

lemma ensures_triv: "ensures P m (\<lambda>_ _. True)"
  by (simp add: ensures_def split: prod.splits)

text \<open>What holds of the state whenever a program fails, whatever the state before it.\<close>

definition fails :: "(err \<Rightarrow> world \<Rightarrow> bool) \<Rightarrow> 'a go \<Rightarrow> bool" where
  "fails Q m \<longleftrightarrow> ensures (\<lambda>_. True) m (\<lambda>r w. case r of Inl e \<Rightarrow> Q e w | Inr _ \<Rightarrow> True)"

lemma failsD: "fails Q m \<Longrightarrow> run_state m w = (Inl e, w') \<Longrightarrow> Q e w'"
  by (auto simp: fails_def dest: ensuresD)

lemma fails_ok: "fails Q (ok a)"
  by (simp add: fails_def ensures_def run_simps)

lemma fails_on_error:
  "(\<And>e. fails Q (h e)) \<Longrightarrow> (\<And>a. fails Q (k a)) \<Longrightarrow> fails Q (on_error m h k)"
  unfolding fails_def
  by (rule ensures_on_error [OF ensures_triv]) (auto intro: ensures_pre)

lemma fails_bind: "(\<And>a. fails Q (f a)) \<Longrightarrow> fails Q (State_Monad.bind m f)"
  unfolding fails_def by (rule ensures_bind [OF ensures_triv]) (auto intro: ensures_pre)

text \<open>A handler that runs \<open>c\<close> and then returns the error: the state is one \<open>c\<close> leaves.\<close>

lemma fails_handler:
  "ensures (\<lambda>_. True) c (\<lambda>_ w. Q e w) \<Longrightarrow> fails Q (do { _ \<leftarrow> c; err e })"
  unfolding fails_def
  by (rule ensures_bind) (auto intro: ensures_return)

lemma fails_err: "(\<And>w. Q e w) \<Longrightarrow> fails Q (err e)"
  by (simp add: fails_def ensures_def run_simps)

lemma fails_if: "fails Q m \<Longrightarrow> fails Q n \<Longrightarrow> fails Q (if b then m else n)"
  by simp

lemma fails_option:
  "fails Q m \<Longrightarrow> (\<And>a. fails Q (k a)) \<Longrightarrow> fails Q (case x of None \<Rightarrow> m | Some a \<Rightarrow> k a)"
  by (cases x) simp_all

lemma fails_sum:
  "(\<And>e. fails Q (h e)) \<Longrightarrow> (\<And>a. fails Q (k a)) \<Longrightarrow> fails Q (case x of Inl e \<Rightarrow> h e | Inr a \<Rightarrow> k a)"
  by (cases x) simp_all

lemma fails_prod: "(\<And>a b. fails Q (k a b)) \<Longrightarrow> fails Q (case x of (a, b) \<Rightarrow> k a b)"
  by (cases x) simp

text \<open>An error passed on, and one kept while more calls are made.\<close>

lemma fails_pass:
  "fails (\<lambda>e _. Q e) m \<Longrightarrow> (\<And>a. fails (\<lambda>e _. Q e) (k a)) \<Longrightarrow> fails (\<lambda>e _. Q e) (on_error m err k)"
  unfolding fails_def
  by (rule ensures_on_error, assumption) (auto intro: ensures_return ensures_pre)

lemma fails_keep:
  "fails (\<lambda>e _. Q e) m \<Longrightarrow> (\<And>r w. fst (run_state (n r) w) = r) \<Longrightarrow> fails (\<lambda>e _. Q e) (State_Monad.bind m n)"
  unfolding fails_def
  by (fastforce simp: ensures_def run_simps split: prod.splits sum.splits dest: fstI)

lemmas fails_intros =
  fails_ok fails_on_error fails_bind fails_err fails_if fails_option fails_sum fails_prod

text \<open>A value that is returned after other calls have been made.\<close>

lemma ensures_keep:
  "ensures P m R \<Longrightarrow> (\<And>a. ensures (R a) n (\<lambda>_. Q a)) \<Longrightarrow>
   ensures P (do { r \<leftarrow> m; _ \<leftarrow> n; ret r }) Q"
  by (rule ensures_bind, assumption, rule ensures_bind, assumption) (rule ensures_return)

section \<open>The calls a program makes\<close>

definition calls :: "(event \<Rightarrow> bool) \<Rightarrow> 'a prog \<Rightarrow> bool" where
  "calls P m \<longleftrightarrow>
     (\<forall>w. \<exists>es. trace (snd (run_state m w)) = trace w @ es \<and> list_all P es)"

lemma callsE:
  assumes "calls P m" "run_state m w = (r, w')"
  obtains es where "trace w' = trace w @ es" "list_all P es"
  using assms by (auto simp: calls_def) (metis snd_conv)

lemma calls_return [extends_intros]: "calls P (ret a)"
  by (auto simp: calls_def run_simps intro: exI [of _ "[]"])

lemma calls_step: "trace w' = trace w @ as \<Longrightarrow> list_all P as \<Longrightarrow>
  trace w'' = trace w' @ bs \<Longrightarrow> list_all P bs \<Longrightarrow>
  \<exists>es. trace w'' = trace w @ es \<and> list_all P es"
  by (rule exI [of _ "as @ bs"]) simp

lemma calls_bind [extends_intros]:
  "calls P m \<Longrightarrow> (\<And>a. calls P (f a)) \<Longrightarrow> calls P (State_Monad.bind m f)"
  unfolding calls_def
  by (clarsimp simp: run_simps split: prod.splits) (metis calls_step snd_conv)

lemma calls_on_error [extends_intros]:
  "calls P m \<Longrightarrow> (\<And>e. calls P (h e)) \<Longrightarrow> (\<And>a. calls P (k a)) \<Longrightarrow> calls P (on_error m h k)"
  unfolding on_error_def by (intro calls_bind) (auto split: sum.splits)

lemma calls_if [extends_intros]: "calls P m \<Longrightarrow> calls P n \<Longrightarrow> calls P (if b then m else n)"
  by simp

lemma calls_option [extends_intros]:
  "(x = None \<Longrightarrow> calls P m) \<Longrightarrow> (\<And>a. x = Some a \<Longrightarrow> calls P (k a)) \<Longrightarrow>
   calls P (case x of None \<Rightarrow> m | Some a \<Rightarrow> k a)"
  by (cases x) simp_all

lemma calls_sum [extends_intros]:
  "(\<And>e. calls P (h e)) \<Longrightarrow> (\<And>a. calls P (k a)) \<Longrightarrow> calls P (case x of Inl e \<Rightarrow> h e | Inr a \<Rightarrow> k a)"
  by (cases x) simp_all

lemma calls_prod [extends_intros]:
  "(\<And>a b. calls P (k a b)) \<Longrightarrow> calls P (case x of (a, b) \<Rightarrow> k a b)"
  by (cases x) simp

lemma calls_each [extends_intros]: "(\<And>x. x \<in> set xs \<Longrightarrow> calls P (f x)) \<Longrightarrow> calls P (each f xs)"
  by (induction xs) (auto intro!: extends_intros)

lemma calls_each_ignore [extends_intros]:
  "(\<And>x. x \<in> set xs \<Longrightarrow> calls P (f x)) \<Longrightarrow> calls P (each_ignore f xs)"
  by (induction xs) (auto intro!: extends_intros)

lemma calls_mono: "calls P m \<Longrightarrow> (\<And>e. P e \<Longrightarrow> Q e) \<Longrightarrow> calls Q m"
  unfolding calls_def list_all_iff by meson

lemma logged_simps [simp]:
  "trace (logged E ev w) = trace w @ [ev]" "files (logged E ev w) = files w"
  "clock (logged E ev w) = clock w + took E w ev"
  by (simp_all add: logged_def)

lemma calls_one: "(\<And>w. trace (snd (run_state m w)) = trace w @ [ev]) \<Longrightarrow> P ev \<Longrightarrow> calls P m"
  by (simp add: calls_def)

lemma trace_os_read [simp]: "trace (snd (run_state (os_read E ev f) w)) = trace w @ [ev]"
  by (simp add: os_read_def)

lemma trace_os_write [simp]: "trace (snd (run_state (os_write E ev f) w)) = trace w @ [ev]"
  by (auto simp: os_write_def split: option.splits sum.splits)

lemmas os_defs =
  os_Stat_def os_ReadFile_def os_ReadDir_def os_OpenWrite_def os_CreateTrunc_def os_WriteFile_def
  os_MkdirAll_def os_Remove_def os_RemoveAll_def os_Truncate_def

lemma calls_os [extends_intros]:
  "P (Stat p) \<Longrightarrow> calls P (os_Stat E p)"
  "P (ReadFile p) \<Longrightarrow> calls P (os_ReadFile E p)"
  "P (ReadDir p) \<Longrightarrow> calls P (os_ReadDir E p)"
  "P (OpenWrite p) \<Longrightarrow> calls P (os_OpenWrite E p)"
  "P (CreateTrunc p) \<Longrightarrow> calls P (os_CreateTrunc E p)"
  "P (WriteFile p d) \<Longrightarrow> calls P (os_WriteFile E p d)"
  "P (MkdirAll p) \<Longrightarrow> calls P (os_MkdirAll E p)"
  "P (Remove p) \<Longrightarrow> calls P (os_Remove E p)"
  "P (RemoveAll p) \<Longrightarrow> calls P (os_RemoveAll E p)"
  "P (Truncate p n) \<Longrightarrow> calls P (os_Truncate E p n)"
  by (auto intro: calls_one simp: os_defs)

lemma trace_env [simp]:
  "trace (snd (run_state (exec_run E argv) w)) = trace w @ [Exec argv]"
  "trace (snd (run_state (exec_start E argv b) w)) = trace w @ [Spawn argv b]"
  "trace (snd (run_state (proc_Kill E pid) w)) = trace w @ [KillChild pid]"
  "trace (snd (run_state (cmd_Wait E pid) w)) = trace w @ [WaitChild pid]"
  "trace (snd (run_state (syscall_Kill E ip sg) w)) = trace w @ [SendSignal ip sg]"
  "trace (snd (run_state (http_do E sock meth path body) w)) = trace w @ [Http sock meth path body]"
  "trace (snd (run_state (net_Dial E addr) w)) = trace w @ [Dial addr]"
  "trace (snd (run_state (time_Now E) w)) = trace w @ [Now]"
  "trace (snd (run_state (time_Sleep E d) w)) = trace w @ [Sleep d]"
  "trace (snd (run_state (rand_Read E n) w)) = trace w @ [Rand n]"
  "trace (snd (run_state (dir_mtime E p) w)) = trace w @ [Stat p]"
  by (auto simp: exec_run_def exec_start_def proc_Kill_def cmd_Wait_def syscall_Kill_def
      http_do_def net_Dial_def time_Now_def time_Sleep_def rand_Read_def dir_mtime_def
      split: prod.splits option.splits node.splits)

lemma calls_env [extends_intros]:
  "P (Exec argv) \<Longrightarrow> calls P (exec_run E argv)"
  "P (Spawn argv b) \<Longrightarrow> calls P (exec_start E argv b)"
  "P (KillChild pid) \<Longrightarrow> calls P (proc_Kill E pid)"
  "P (WaitChild pid) \<Longrightarrow> calls P (cmd_Wait E pid)"
  "P (SendSignal ip sg) \<Longrightarrow> calls P (syscall_Kill E ip sg)"
  "P (Http sock meth path body) \<Longrightarrow> calls P (http_do E sock meth path body)"
  "P (Dial addr) \<Longrightarrow> calls P (net_Dial E addr)"
  "P Now \<Longrightarrow> calls P (time_Now E)"
  "P (Sleep d) \<Longrightarrow> calls P (time_Sleep E d)"
  "P (Rand n) \<Longrightarrow> calls P (rand_Read E n)"
  "P (Stat p) \<Longrightarrow> calls P (dir_mtime E p)"
  by (auto intro: calls_one)

section \<open>The API requests in the log\<close>

fun request :: "event \<Rightarrow> (string \<times> string \<times> string \<times> string) option" where
  "request (Http sock meth path body) = Some (sock, meth, path, body)"
| "request _ = None"

definition requests :: "world \<Rightarrow> (string \<times> string \<times> string \<times> string) list" where
  "requests w = List.map_filter request (trace w)"

lemma requests_append: "trace w' = trace w @ es \<Longrightarrow>
  requests w' = requests w @ List.map_filter request es"
  by (simp add: requests_def List.map_filter_def)

definition no_request :: "event \<Rightarrow> bool" where
  "no_request e \<longleftrightarrow> request e = None"

lemma no_request_simps [simp]:
  "no_request (Stat p)" "no_request (ReadFile p)" "no_request (WriteFile p d)"
  "no_request (MkdirAll p)" "no_request (Remove p)" "no_request (RemoveAll p)"
  "no_request (ReadDir p)" "no_request (Truncate p n)" "no_request (OpenWrite p)"
  "no_request (CreateTrunc p)" "no_request (Exec a)" "no_request (Spawn a b)"
  "no_request (KillChild k)" "no_request (WaitChild k)" "no_request (SendSignal i sg)"
  "no_request (Dial p)" "no_request (Sleep t)" "no_request Now" "no_request (Rand t)"
  "\<not> no_request (Http s m p d)"
  by (simp_all add: no_request_def)

lemma map_filter_None: "list_all (\<lambda>e. f e = None) es \<Longrightarrow> List.map_filter f es = []"
  by (induction es) (simp_all add: map_filter_simps)

lemma requests_same:
  "calls no_request m \<Longrightarrow> run_state m w = (r, w') \<Longrightarrow> requests w' = requests w"
  by (auto elim!: callsE simp: requests_append no_request_def [abs_def] intro!: map_filter_None)

lemma ensures_same_requests:
  "calls no_request m \<Longrightarrow> ensures (\<lambda>w. P (requests w)) m (\<lambda>_ w. P (requests w))"
  by (rule ensuresI) (simp add: requests_same)

text \<open>Steps that make no request, in front of the rest of a program.\<close>

lemma same_on_error:
  "calls no_request m \<Longrightarrow> (\<And>e. ensures (\<lambda>w. requests w = xs) (h e) Q) \<Longrightarrow>
   (\<And>a. ensures (\<lambda>w. requests w = xs) (k a) Q) \<Longrightarrow> ensures (\<lambda>w. requests w = xs) (on_error m h k) Q"
  by (rule ensures_on_error [OF ensures_same_requests [of m "\<lambda>q. q = xs"]])

lemma same_bind:
  "calls no_request m \<Longrightarrow> (\<And>a. ensures (\<lambda>w. requests w = xs) (f a) Q) \<Longrightarrow>
   ensures (\<lambda>w. requests w = xs) (State_Monad.bind m f) Q"
  by (rule ensures_bind [OF ensures_same_requests [of m "\<lambda>q. q = xs"]])

lemma ensures_option:
  "ensures P m Q \<Longrightarrow> (\<And>a. ensures P (k a) Q) \<Longrightarrow> ensures P (case x of None \<Rightarrow> m | Some a \<Rightarrow> k a) Q"
  by (cases x) simp_all

lemma ensures_prod: "(\<And>a b. ensures P (k a b) Q) \<Longrightarrow> ensures P (case x of (a, b) \<Rightarrow> k a b) Q"
  by (cases x) simp

lemma ensures_if: "ensures P m Q \<Longrightarrow> ensures P n Q \<Longrightarrow> ensures P (if b then m else n) Q"
  by simp

section \<open>Programs whose log is known\<close>

definition logs :: "event list \<Rightarrow> 'a prog \<Rightarrow> bool" where
  "logs es m \<longleftrightarrow> (\<forall>w. trace (snd (run_state m w)) = trace w @ es)"

named_theorems logs_intros "the log of a call"

lemma logs_return [logs_intros]: "logs [] (ret a)"
  by (simp add: logs_def run_simps)

lemma logs_bind: "logs es m \<Longrightarrow> (\<And>a. logs fs (k a)) \<Longrightarrow> logs (es @ fs) (State_Monad.bind m k)"
  by (auto simp: logs_def run_simps split: prod.splits) (metis append_assoc snd_conv)

lemma logs_then: "logs es m \<Longrightarrow> (\<And>a. logs fs (k a)) \<Longrightarrow> gs = es @ fs \<Longrightarrow> logs gs (State_Monad.bind m k)"
  by (simp add: logs_bind)

lemma logs_calls [logs_intros]:
  "logs [Exec argv] (exec_run E argv)" "logs [KillChild pid] (proc_Kill E pid)"
  "logs [WaitChild pid] (cmd_Wait E pid)" "logs [Remove p] (os_Remove E p)"
  "logs [RemoveAll p] (os_RemoveAll E p)" "logs [MkdirAll p] (os_MkdirAll E p)"
  "logs [WriteFile p d] (os_WriteFile E p d)" "logs [Now] (time_Now E)"
  by (simp_all add: logs_def os_defs)

lemma logsD: "logs es m \<Longrightarrow> run_state m w = (r, w') \<Longrightarrow> trace w' = trace w @ es"
  by (metis logs_def snd_conv)

lemma fails_weaken: "fails Q m \<Longrightarrow> (\<And>e w. Q e w \<Longrightarrow> Q' e w) \<Longrightarrow> fails Q' m"
  unfolding fails_def by (erule ensures_post) (auto split: sum.splits)

lemma fails_through: "fails Q m \<Longrightarrow> (\<And>a. fails Q (k a)) \<Longrightarrow> fails Q (on_error m err k)"
  unfolding fails_def
  by (rule ensures_on_error, assumption) (auto intro: ensures_return ensures_pre)

text \<open>After a handler that makes the calls \<open>es\<close> and returns the error.\<close>

lemma fails_logged:
  assumes "logs es c" and "\<And>w pre. trace w = pre @ es \<Longrightarrow> Q e w"
  shows "fails Q (do { c; err e })"
  unfolding fails_def
  by (rule ensures_bind [where R = "\<lambda>_ w. \<exists>pre. trace w = pre @ es"])
    (use assms logsD [OF assms(1)] in \<open>auto intro!: ensuresI ensures_return\<close>)

end
