(* ===== verification/Config.thy ===== *)
theory Config
  imports Logic
begin

text \<open>
  The configuration of a VM (\<open>config.go\<close>): its fields, the defaults filled in for zero values, the
  checks made before anything is started, and the merge of two port lists (\<open>mergeUniquePorts\<close> of
  \<open>vm.go\<close>).
\<close>

record PortMapping =
  Host :: int
  Guest :: int

text \<open>An \<open>io.Writer\<close> the caller may leave nil, to be replaced by \<open>io.Discard\<close>.\<close>

datatype writer = Discard | Writer nat

record Config =
  Name :: string
  Kernel :: string
  RootFS :: string
  CPUs :: float64
  Memory :: int
  NetworkMbps :: float64
  DiskMBps :: int
  DiskIOPS :: int
  Ports :: "PortMapping list"
  SnapshotID :: string
  Detach :: bool
  FirecrackerBin :: string
  PastaBin :: string
  Stdout :: "writer option"
  Stderr :: "writer option"
  RootFSSize :: int
  RawDiskPath :: string
  Netns :: string
  EscapeCgroupSlice :: string

definition randomName :: "env \<Rightarrow> string prog" where
  "randomName E = do { b \<leftarrow> rand_Read E 4; ret (hex_encode b) }"

definition setDefaults :: "env \<Rightarrow> Config \<Rightarrow> Config prog" where
  "setDefaults E c = do {
     name \<leftarrow> (if Name c = [] then randomName E else ret (Name c));
     ret (c \<lparr> Name := name,
              CPUs := (if f_eq (CPUs c) (Fin 0 0) then Fin 1 0 else CPUs c),
              Memory := (if Memory c = 0 then 1024 else Memory c),
              FirecrackerBin := (if FirecrackerBin c = [] then ''firecracker'' else FirecrackerBin c),
              PastaBin := (if PastaBin c = [] then ''pasta'' else PastaBin c),
              Stdout := Some (case Stdout c of None \<Rightarrow> Discard | Some w \<Rightarrow> w),
              Stderr := Some (case Stderr c of None \<Rightarrow> Discard | Some w \<Rightarrow> w) \<rparr>)
   }"

definition validate :: "env \<Rightarrow> Config \<Rightarrow> unit go" where
  "validate E c =
     (if SnapshotID c \<noteq> [] then ok ()
      else if Kernel c = [] then err (ErrMsg ''kernel path is required'')
      else
        on_error (os_Stat E (Kernel c)) (\<lambda>e. err (Wrap ''kernel: '' e)) (\<lambda>_.
        on_error
          (if RawDiskPath c = [] then
             (if RootFS c = [] then err (ErrMsg ''rootfs path is required'')
              else on_error (os_Stat E (RootFS c)) (\<lambda>e. err (Wrap ''rootfs: '' e)) (\<lambda>_. ok ()))
           else ok ())
          err (\<lambda>_.
        if f_le (CPUs c) (Fin 0 0) then err (ErrMsg ''cpus must be > 0'')
        else if Memory c < 128 then err (ErrMsg ''memory must be >= 128 MiB'')
        else ok ())))"

definition zero_Config :: Config where
  "zero_Config =
     \<lparr> Name = [], Kernel = [], RootFS = [], CPUs = Fin 0 0, Memory = 0, NetworkMbps = Fin 0 0,
       DiskMBps = 0, DiskIOPS = 0, Ports = [], SnapshotID = [], Detach = False,
       FirecrackerBin = [], PastaBin = [], Stdout = None, Stderr = None, RootFSSize = 0,
       RawDiskPath = [], Netns = [], EscapeCgroupSlice = [] \<rparr>"

section \<open>Merging ports\<close>

text \<open>The loop of \<open>mergeUniquePorts\<close>: \<open>seen\<close> and \<open>result\<close> are its variables.\<close>

fun add_unique ::
    "PortMapping list \<Rightarrow> int set \<times> PortMapping list \<Rightarrow> int set \<times> PortMapping list" where
  "add_unique [] st = st"
| "add_unique (p # ps) (seen, result) =
     (if Host p \<notin> seen then add_unique ps (insert (Host p) seen, result @ [p])
      else add_unique ps (seen, result))"

definition mergeUniquePorts ::
    "PortMapping list \<Rightarrow> PortMapping list \<Rightarrow> PortMapping list" where
  "mergeUniquePorts a b = snd (add_unique b (add_unique a ({}, [])))"

text \<open>A list read as the map from host ports to mappings: the first entry of a port counts.\<close>

definition port_map :: "PortMapping list \<Rightarrow> int \<rightharpoonup> PortMapping" where
  "port_map ps = map_of (map (\<lambda>p. (Host p, p)) ps)"

lemma port_map_append: "port_map (xs @ ys) = port_map ys ++ port_map xs"
  by (simp add: port_map_def map_of_append)

lemma dom_port_map: "dom (port_map ps) = Host ` set ps"
  by (simp add: port_map_def dom_map_of_conv_image_fst image_image)

lemma add_unique_append: "add_unique (xs @ ys) st = add_unique ys (add_unique xs st)"
  by (induction xs st rule: add_unique.induct) simp_all

lemma add_unique_result:
  assumes "distinct (map Host res)" "seen = Host ` set res"
  shows "case add_unique ps (seen, res) of (seen', res') \<Rightarrow>
    distinct (map Host res') \<and> seen' = Host ` set res' \<and>
    port_map res' = port_map (res @ ps) \<and> (\<exists>new. res' = res @ new \<and> subseq new ps)"
  using assms
proof (induction ps arbitrary: seen res)
  case Nil
  then show ?case by simp
next
  case (Cons p ps)
  show ?case
  proof (cases "Host p \<in> seen")
    case True
    then obtain q where "port_map res (Host p) = Some q"
      using Cons.prems(2) dom_port_map [of res] by (metis domD)
    then have "port_map (res @ p # ps) = port_map (res @ ps)"
      by (auto simp: port_map_append port_map_def map_add_def fun_eq_iff split: option.splits)
    with Cons.IH [OF Cons.prems] True show ?thesis by (fastforce split: prod.splits)
  next
    case False
    have d: "distinct (map Host (res @ [p]))" using False Cons.prems by auto
    have "insert (Host p) seen = Host ` set (res @ [p])" using Cons.prems by auto
    from Cons.IH [OF d this] False show ?thesis by (auto split: prod.splits)
  qed
qed

lemma mergeUniquePorts_append: "mergeUniquePorts a b = snd (add_unique (a @ b) ({}, []))"
  by (simp add: mergeUniquePorts_def add_unique_append)

lemma mergeUniquePorts_props:
  "distinct (map Host (mergeUniquePorts a b))"
  "port_map (mergeUniquePorts a b) = port_map (a @ b)"
  "subseq (mergeUniquePorts a b) (a @ b)"
  using add_unique_result [of "[]" "{}" "a @ b"]
  by (auto simp: mergeUniquePorts_append split: prod.splits)

lemma mergeUniquePorts_id:
  assumes "distinct (map Host (a @ b))"
  shows "mergeUniquePorts a b = a @ b"
proof -
  have "snd (add_unique ps (seen, res)) = res @ ps"
    if "distinct (map Host ps)" "seen \<inter> Host ` set ps = {}" for ps seen res
    using that by (induction ps arbitrary: seen res) auto
  from this [of "a @ b" "{}" "[]"] assms show ?thesis by (simp add: mergeUniquePorts_append)
qed

section \<open>Properties\<close>

text \<open>C32: Merging two port lists is the merge of the maps they stand for: every host port occurs
  once in the result, it keeps the first mapping it has in the first list or else in the second,
  the order of the entries is kept, and lists without a clash are simply appended.\<close>
theorem merged_ports:
  "distinct (map Host (mergeUniquePorts a b)) \<and>
   port_map (mergeUniquePorts a b) = port_map b ++ port_map a \<and>
   subseq (mergeUniquePorts a b) (a @ b) \<and>
   mergeUniquePorts (mergeUniquePorts a b) [] = mergeUniquePorts a b"
  using mergeUniquePorts_props [of a b] mergeUniquePorts_id [of "mergeUniquePorts a b" "[]"]
  by (simp add: port_map_append)

text \<open>The result of a check that only asks whether a path can be examined.\<close>

definition stat_ok :: "env \<Rightarrow> world \<Rightarrow> string \<Rightarrow> bool" where
  "stat_ok E w p \<longleftrightarrow> fault E w (Stat p) = None \<and> fs_lookup (files w) p \<noteq> None"

lemma run_os_Stat:
  "run_state (os_Stat E p) w =
     (case fault E w (Stat p) of Some (e, _) \<Rightarrow> Inl e | None \<Rightarrow> fs_stat (files w) p,
      logged E (Stat p) w)"
  by (simp add: os_Stat_def os_read_def)

lemma stat_result:
  "(\<exists>n. fst (run_state (os_Stat E p) w) = Inr n) \<longleftrightarrow> stat_ok E w p"
  by (auto simp: run_os_Stat stat_ok_def fs_stat_def split: option.splits)

lemma snd_os_Stat [simp]: "snd (run_state (os_Stat E p) w) = logged E (Stat p) w"
  by (simp add: run_os_Stat)

text \<open>What a configuration must satisfy to pass the checks: a restore passes always; otherwise
  a kernel that can be examined is needed, a root file system that can be examined unless the
  caller brings a raw disk, a number of CPUs that does not compare at most zero, and 128 MiB.\<close>
theorem validate_accepts:
  "fst (run_state (validate E c) w) = Inr () \<longleftrightarrow>
     (if SnapshotID c = [] then
        Kernel c \<noteq> [] \<and> stat_ok E w (Kernel c) \<and>
        (if RawDiskPath c = [] then
           RootFS c \<noteq> [] \<and> stat_ok E (logged E (Stat (Kernel c)) w) (RootFS c)
         else True) \<and>
        \<not> f_le (CPUs c) (Fin 0 0) \<and> 128 \<le> Memory c
      else True)"
proof -
  have k: "(case run_state (os_Stat E p) v of (Inl e, t) \<Rightarrow> A e t | (Inr n, t) \<Rightarrow> B n t) =
      (if stat_ok E v p then B (projr (fst (run_state (os_Stat E p) v))) (logged E (Stat p) v)
       else A (projl (fst (run_state (os_Stat E p) v))) (logged E (Stat p) v))"
    for p v and A :: "err \<Rightarrow> world \<Rightarrow> 'x" and B
    using stat_result [of E p v] snd_os_Stat [of E p v]
    by (cases "run_state (os_Stat E p) v") (auto split: sum.splits)
  show ?thesis
    by (auto simp: validate_def run_simps k split: if_splits)
qed

lemma run_randomName:
  "run_state (randomName E) w =
     (hex_encode (map (entropy E w 4) [0..<4]), logged E (Rand 4) w)"
  by (simp add: randomName_def rand_Read_def run_simps)

text \<open>Filling in defaults leaves what the caller has set, names the VM, and is complete: doing it
  again changes nothing and asks for no randomness. A name that is made up has eight hexadecimal
  digits.\<close>
theorem defaults_complete:
  "case run_state (setDefaults E c) w of
     (d, w') \<Rightarrow>
       Name d \<noteq> [] \<and> (if Name c = [] then length (Name d) = 8 \<and> list_all is_hex_lower (Name d) \<and>
                                            trace w' = trace w @ [Rand 4]
                       else Name d = Name c \<and> w' = w) \<and>
       Memory d = (if Memory c = 0 then 1024 else Memory c) \<and> Memory d \<noteq> 0 \<and>
       \<not> f_eq (CPUs d) (Fin 0 0) \<and> Ports d = Ports c \<and> Kernel d = Kernel c \<and>
       RootFS d = RootFS c \<and> RawDiskPath d = RawDiskPath c \<and> SnapshotID d = SnapshotID c \<and>
       FirecrackerBin d \<noteq> [] \<and> PastaBin d \<noteq> [] \<and>
       run_state (setDefaults E d) w' = (d, w')"
proof (cases "Name c = []")
  case True
  have "hex_encode (map (entropy E w 4) [0..<4]) \<noteq> []"
    using length_hex_encode [of "map (entropy E w 4) [0..<4]"] by (metis length_0_conv length_map
        length_upt diff_zero mult_eq_0_iff zero_neq_numeral)
  then show ?thesis
    using hex_encode_hex [of _ "map (entropy E w 4) [0..<4]"]
    by (simp add: setDefaults_def run_randomName run_simps True scaled_def list_all_iff)
next
  case False
  then show ?thesis by (simp add: setDefaults_def run_simps scaled_def)
qed

end
