(* ===== verification/Json.thy ===== *)
theory Json
  imports GoText
begin

text \<open>
  The part of Go's \<open>encoding/json\<close> the program uses: the text of a value (\<open>Marshal\<close> and
  \<open>MarshalIndent\<close>), the parser behind \<open>Unmarshal\<close> and \<open>Decoder.Decode\<close>, and the field-by-field
  decoding of an object into a struct. Strings are byte strings: bytes from 128 up are passed
  through, as \<open>encoding/json\<close> does for valid UTF-8 other than the two line separators.
\<close>

section \<open>Values and their text\<close>

datatype json =
    JNull
  | JBool bool
  | JInt int
  | JNum string
  | JStr string
  | JArr "json list"
  | JObj "(string \<times> json) list"

definition code :: "char \<Rightarrow> nat" where
  "code c = of_char c"

definition esc_char :: "char \<Rightarrow> string" where
  "esc_char c =
     (if c = CHR 0x22 then [CHR 0x5C, CHR 0x22]
      else if c = CHR 0x5C then [CHR 0x5C, CHR 0x5C]
      else if c = CHR 0x08 then [CHR 0x5C, CHR ''b'']
      else if c = CHR 0x0C then [CHR 0x5C, CHR ''f'']
      else if c = CHR 0x0A then [CHR 0x5C, CHR ''n'']
      else if c = CHR 0x0D then [CHR 0x5C, CHR ''r'']
      else if c = CHR 0x09 then [CHR 0x5C, CHR ''t'']
      else if code c < 32 \<or> c = CHR ''<'' \<or> c = CHR ''>'' \<or> c = CHR ''&'' then
        CHR 0x5C # ''u00'' @ [nibble_lower (code c div 16), nibble_lower (code c mod 16)]
      else [c])"

definition jstr :: "string \<Rightarrow> string" where
  "jstr s = CHR 0x22 # concat (map esc_char s) @ [CHR 0x22]"

text \<open>
  One printer for both layouts: \<open>nl n\<close> is what separates the lines at depth \<open>n\<close> (nothing for
  \<open>Marshal\<close>, a line break and the indentation for \<open>MarshalIndent\<close>), \<open>sp\<close> what follows a colon.
\<close>

fun gen_print :: "(nat \<Rightarrow> string) \<Rightarrow> string \<Rightarrow> nat \<Rightarrow> json \<Rightarrow> string" where
  "gen_print nl sp n JNull = ''null''"
| "gen_print nl sp n (JBool b) = (if b then ''true'' else ''false'')"
| "gen_print nl sp n (JInt i) = itoa i"
| "gen_print nl sp n (JNum s) = s"
| "gen_print nl sp n (JStr s) = jstr s"
| "gen_print nl sp n (JArr xs) =
     (if xs = [] then ''[]''
      else ''['' @ nl (Suc n) @
        join ('','' @ nl (Suc n)) (map (gen_print nl sp (Suc n)) xs) @ nl n @ '']'')"
| "gen_print nl sp n (JObj kvs) =
     (if kvs = [] then ''{}''
      else ''{'' @ nl (Suc n) @
        join ('','' @ nl (Suc n))
          (map (\<lambda>(k, v). jstr k @ '':'' @ sp @ gen_print nl sp (Suc n) v) kvs) @ nl n @ ''}'')"

definition json_Marshal :: "json \<Rightarrow> string" where
  "json_Marshal j = gen_print (\<lambda>_. []) [] 0 j"

text \<open>\<open>json.MarshalIndent(v, "", "  ")\<close>\<close>

definition indent_nl :: "nat \<Rightarrow> string" where
  "indent_nl n = CHR 0x0A # concat (replicate n ''  '')"

definition json_MarshalIndent :: "json \<Rightarrow> string" where
  "json_MarshalIndent j = gen_print indent_nl '' '' 0 j"

section \<open>The parser\<close>

definition json_ws :: "char \<Rightarrow> bool" where
  "json_ws c \<longleftrightarrow> c = CHR '' '' \<or> c = CHR 0x09 \<or> c = CHR 0x0A \<or> c = CHR 0x0D"

definition skip_ws :: "string \<Rightarrow> string" where
  "skip_ws s = dropWhile json_ws s"

lemma length_skip_ws: "length (skip_ws s) \<le> length s"
  by (simp add: skip_ws_def length_dropWhile_le)

lemma skip_ws_Cons: "skip_ws s = c # cs \<Longrightarrow> length cs < length s"
  using length_skip_ws [of s] by simp

definition hex_val :: "char \<Rightarrow> nat option" where
  "hex_val c =
     (if is_digit c then Some (code c - 48)
      else if 97 \<le> code c \<and> code c \<le> 102 then Some (code c - 87)
      else if 65 \<le> code c \<and> code c \<le> 70 then Some (code c - 55)
      else None)"

definition hex4 :: "char \<Rightarrow> char \<Rightarrow> char \<Rightarrow> char \<Rightarrow> nat option" where
  "hex4 a b c d =
     (case (hex_val a, hex_val b, hex_val c, hex_val d) of
        (Some w, Some x, Some y, Some z) \<Rightarrow> Some (((w * 16 + x) * 16 + y) * 16 + z)
      | _ \<Rightarrow> None)"

text \<open>A code point in UTF-8.\<close>

definition utf8 :: "nat \<Rightarrow> string" where
  "utf8 n =
     (if n < 128 then [char_of n]
      else if n < 2048 then [char_of (192 + n div 64), char_of (128 + n mod 64)]
      else if n < 65536 then
        [char_of (224 + n div 4096), char_of (128 + n div 64 mod 64), char_of (128 + n mod 64)]
      else
        [char_of (240 + n div 262144), char_of (128 + n div 4096 mod 64),
         char_of (128 + n div 64 mod 64), char_of (128 + n mod 64)])"

definition is_high :: "nat \<Rightarrow> bool" where "is_high n \<longleftrightarrow> 55296 \<le> n \<and> n < 56320"
definition is_low :: "nat \<Rightarrow> bool" where "is_low n \<longleftrightarrow> 56320 \<le> n \<and> n < 57344"

definition cons_str :: "string \<Rightarrow> (string \<times> string) option \<Rightarrow> (string \<times> string) option" where
  "cons_str p r = map_option (\<lambda>(s, t). (p @ s, t)) r"

definition simple_esc :: "char \<Rightarrow> char option" where
  "simple_esc c =
     (if c = CHR 0x22 \<or> c = CHR 0x5C \<or> c = CHR ''/'' then Some c
      else if c = CHR ''b'' then Some (CHR 0x08)
      else if c = CHR ''f'' then Some (CHR 0x0C)
      else if c = CHR ''n'' then Some (CHR 0x0A)
      else if c = CHR ''r'' then Some (CHR 0x0D)
      else if c = CHR ''t'' then Some (CHR 0x09)
      else None)"

text \<open>
  The rest of a string literal after its opening quote: its value and the text after the closing
  quote. A surrogate pair is one code point, a lone surrogate the replacement character.
\<close>

fun low_pair :: "string \<Rightarrow> nat option" where
  "low_pair (b # u # e # f # g # h # r) =
     (if b = CHR 0x5C \<and> u = CHR ''u'' then
        (case hex4 e f g h of
           Some m \<Rightarrow> if is_low m then Some m else None
         | None \<Rightarrow> None)
      else None)"
| "low_pair _ = None"

function parse_str :: "string \<Rightarrow> (string \<times> string) option" where
  "parse_str s =
     (case s of
        [] \<Rightarrow> None
      | c # cs \<Rightarrow>
          if c = CHR 0x22 then Some ([], cs)
          else if c = CHR 0x5C then
            (case cs of
               [] \<Rightarrow> None
             | e # ds \<Rightarrow>
                 if e = CHR ''u'' then
                   (case ds of
                      h1 # h2 # h3 # h4 # r \<Rightarrow>
                        (case hex4 h1 h2 h3 h4 of
                           None \<Rightarrow> None
                         | Some n \<Rightarrow>
                             if is_high n then
                               (case low_pair r of
                                  Some m \<Rightarrow>
                                    cons_str (utf8 (65536 + (n - 55296) * 1024 + (m - 56320)))
                                      (parse_str (drop 6 r))
                                | None \<Rightarrow> cons_str (utf8 65533) (parse_str r))
                             else if is_low n then cons_str (utf8 65533) (parse_str r)
                             else cons_str (utf8 n) (parse_str r))
                    | _ \<Rightarrow> None)
                 else
                   (case simple_esc e of
                      None \<Rightarrow> None
                    | Some x \<Rightarrow> cons_str [x] (parse_str ds)))
          else if code c < 32 then None
          else cons_str [c] (parse_str cs))"
  by pat_completeness auto
termination
  by (relation "measure length") auto

declare parse_str.simps [simp del]

lemma cons_str_Some [simp]:
  "cons_str p r = Some (s, t) \<longleftrightarrow> (\<exists>s'. r = Some (s', t) \<and> s = p @ s')"
  by (auto simp: cons_str_def)

lemma length_parse_str: "parse_str s = Some (x, r) \<Longrightarrow> length r < length s"
proof (induction "length s" arbitrary: s x r rule: less_induct)
  case less
  have IH: "length r' < length s" if "parse_str t = Some (y, r')" "length t < length s" for t y r'
    using less.hyps [OF that(2) that(1)] that(2) by simp
  show ?case
    using less.prems
    by (subst (asm) parse_str.simps)
      (auto split: list.splits if_splits option.splits dest: IH)
qed

text \<open>Numbers: the longest run of number characters must be a number of the JSON grammar.\<close>

definition num_char :: "char \<Rightarrow> bool" where
  "num_char c \<longleftrightarrow>
     is_digit c \<or> c = CHR ''-'' \<or> c = CHR ''+'' \<or> c = CHR ''.'' \<or> c = CHR ''e'' \<or> c = CHR ''E''"

definition nat_literal :: "string \<Rightarrow> bool" where
  "nat_literal s \<longleftrightarrow> s \<noteq> [] \<and> list_all is_digit s \<and> (length s = 1 \<or> hd s \<noteq> CHR ''0'')"

definition strip_minus :: "string \<Rightarrow> string" where
  "strip_minus s = trim_prefix s ''-''"

definition int_literal :: "string \<Rightarrow> bool" where
  "int_literal s \<longleftrightarrow> nat_literal (strip_minus s)"

definition exp_literal :: "string \<Rightarrow> bool" where
  "exp_literal s \<longleftrightarrow>
     s = [] \<or>
     (hd s \<in> {CHR ''e'', CHR ''E''} \<and>
      (let t = (if has_prefix (tl s) ''+'' \<or> has_prefix (tl s) ''-'' then drop 2 s else tl s)
       in t \<noteq> [] \<and> list_all is_digit t))"

definition num_literal :: "string \<Rightarrow> bool" where
  "num_literal s \<longleftrightarrow>
     (let t = strip_minus s; ds = takeWhile is_digit t; r = dropWhile is_digit t in
      nat_literal ds \<and>
      (if has_prefix r ''.'' then
         takeWhile is_digit (tl r) \<noteq> [] \<and> exp_literal (dropWhile is_digit (tl r))
       else exp_literal r))"

definition parse_num :: "string \<Rightarrow> (json \<times> string) option" where
  "parse_num s =
     (let n = takeWhile num_char s; r = dropWhile num_char s in
      if int_literal n then
        (case signed_digits n of None \<Rightarrow> None | Some i \<Rightarrow> Some (JInt i, r))
      else if num_literal n then Some (JNum n, r)
      else None)"

text \<open>
  Values, the elements of an array after its bracket, the members of an object after its brace.
  The guards on lengths always hold (\<open>length_parse\<close> below); they make the recursion terminate.
\<close>

definition keyword :: "string \<Rightarrow> (json \<times> string) option" where
  "keyword s =
     (if has_prefix s ''true'' then Some (JBool True, drop 4 s)
      else if has_prefix s ''false'' then Some (JBool False, drop 5 s)
      else if has_prefix s ''null'' then Some (JNull, drop 4 s)
      else None)"

function parse_value :: "string \<Rightarrow> (json \<times> string) option"
  and parse_elems :: "string \<Rightarrow> (json list \<times> string) option"
  and parse_members :: "string \<Rightarrow> ((string \<times> json) list \<times> string) option" where
  "parse_value s =
     (case skip_ws s of
        [] \<Rightarrow> None
      | c # cs \<Rightarrow>
          if c = CHR 0x22 then map_option (\<lambda>(x, r). (JStr x, r)) (parse_str cs)
          else if c = CHR ''['' then
            (if has_prefix (skip_ws cs) '']'' then Some (JArr [], tl (skip_ws cs))
             else map_option (\<lambda>(xs, r). (JArr xs, r)) (parse_elems cs))
          else if c = CHR ''{'' then
            (if has_prefix (skip_ws cs) ''}'' then Some (JObj [], tl (skip_ws cs))
             else map_option (\<lambda>(xs, r). (JObj xs, r)) (parse_members cs))
          else if c = CHR ''-'' \<or> is_digit c then parse_num (c # cs)
          else keyword (c # cs))"
| "parse_elems s =
     (case parse_value s of
        None \<Rightarrow> None
      | Some (x, r) \<Rightarrow>
          if length r < length s then
            (case skip_ws r of
               [] \<Rightarrow> None
             | c # cs \<Rightarrow>
                 if c = CHR '']'' then Some ([x], cs)
                 else if c = CHR '','' then
                   map_option (\<lambda>(xs, t). (x # xs, t)) (parse_elems cs)
                 else None)
          else None)"
| "parse_members s =
     (case skip_ws s of
        [] \<Rightarrow> None
      | q # qs \<Rightarrow>
          if q = CHR 0x22 then
            (case parse_str qs of
               None \<Rightarrow> None
             | Some (k, r1) \<Rightarrow>
                 (case skip_ws r1 of
                    [] \<Rightarrow> None
                  | d # ds \<Rightarrow>
                      if d = CHR '':'' \<and> length ds < length s then
                        (case parse_value ds of
                           None \<Rightarrow> None
                         | Some (v, r) \<Rightarrow>
                             if length r < length s then
                               (case skip_ws r of
                                  [] \<Rightarrow> None
                                | c # cs \<Rightarrow>
                                    if c = CHR ''}'' then Some ([(k, v)], cs)
                                    else if c = CHR '','' then
                                      map_option (\<lambda>(xs, t). ((k, v) # xs, t)) (parse_members cs)
                                    else None)
                             else None)
                      else None))
          else None)"
  by pat_completeness auto
termination
proof (relation "measure (\<lambda>x. case x of Inl s \<Rightarrow> 2 * length s
    | Inr (Inl s) \<Rightarrow> 2 * length s + 1 | Inr (Inr s) \<Rightarrow> 2 * length s + 1)", goal_cases)
qed (auto dest!: skip_ws_Cons)


section \<open>Reading back what was written\<close>

declare parse_value.simps [simp del] parse_elems.simps [simp del] parse_members.simps [simp del]

lemma code_less: "code c < 256"
  using of_char_of [of "code c"] by (simp add: code_def)

lemma char_of_code [simp]: "char_of (code c) = c"
  by (simp add: code_def)

lemma hex_val_nibble: "n < 16 \<Longrightarrow> hex_val (nibble_lower n) = Some n"
  by (auto simp: hex_val_def nibble_lower_def is_digit_def code_def)

lemma hex4_control:
  "n < 256 \<Longrightarrow>
   hex4 (CHR ''0'') (CHR ''0'') (nibble_lower (n div 16)) (nibble_lower (n mod 16)) = Some n"
  by (simp add: hex4_def hex_val_nibble) (simp add: hex_val_def is_digit_def code_def)

lemma parse_str_plain:
  "c \<noteq> CHR 0x22 \<Longrightarrow> c \<noteq> CHR 0x5C \<Longrightarrow> 32 \<le> code c \<Longrightarrow>
   parse_str (c # r) = cons_str [c] (parse_str r)"
  by (subst parse_str.simps) simp

lemma parse_str_simple:
  "e \<noteq> CHR ''u'' \<Longrightarrow> simple_esc e = Some c \<Longrightarrow>
   parse_str (CHR 0x5C # e # r) = cons_str [c] (parse_str r)"
  by (subst parse_str.simps) simp

lemma parse_str_control:
  assumes "code c < 128"
  shows "parse_str (CHR 0x5C # CHR ''u'' # CHR ''0'' # CHR ''0'' # nibble_lower (code c div 16) #
    nibble_lower (code c mod 16) # r) = cons_str [c] (parse_str r)"
  using assms
  by (subst parse_str.simps) (simp add: hex4_control is_high_def is_low_def utf8_def)

lemma parse_str_esc: "parse_str (esc_char c @ r) = cons_str [c] (parse_str r)"
proof (cases "code c < 32 \<or> c = CHR ''<'' \<or> c = CHR ''>'' \<or> c = CHR ''&''")
  case True
  then have "code c < 128" by (auto simp: code_def)
  from parse_str_control [OF this] True show ?thesis
    by (auto simp: esc_char_def parse_str_simple simple_esc_def)
next
  case False
  then show ?thesis
    by (auto simp: esc_char_def parse_str_simple parse_str_plain simple_esc_def)
qed

lemma parse_str_print: "parse_str (concat (map esc_char s) @ CHR 0x22 # r) = Some (s, r)"
proof (induction s)
  case Nil
  show ?case by (subst parse_str.simps) simp
next
  case (Cons c s)
  then show ?case by (simp add: parse_str_esc cons_str_def)
qed

definition ends_value :: "string \<Rightarrow> bool" where
  "ends_value r \<longleftrightarrow> (case r of [] \<Rightarrow> True | c # _ \<Rightarrow> \<not> num_char c)"

lemma num_char_digit [simp]: "is_digit c \<Longrightarrow> num_char c" "num_char CHR ''-''"
  by (simp_all add: num_char_def)

lemma itoa_num_chars: "c \<in> set (itoa i) \<Longrightarrow> num_char c"
  by (auto simp: itoa_def dest: dec_digits split: if_splits)

lemma itoa_all: "list_all num_char (itoa i)"
  by (simp add: list_all_iff itoa_num_chars)

lemma take_num: "list_all num_char n \<Longrightarrow> ends_value r \<Longrightarrow> takeWhile num_char (n @ r) = n"
  by (induction n) (auto simp: ends_value_def split: list.splits)

lemma drop_num: "list_all num_char n \<Longrightarrow> ends_value r \<Longrightarrow> dropWhile num_char (n @ r) = r"
  by (induction n) (auto simp: ends_value_def split: list.splits)

lemma digit_0: "n < 10 \<Longrightarrow> digit n = CHR ''0'' \<Longrightarrow> n = 0"
  using of_char_digit [of n] by simp

lemma hd_dec: "10 \<le> n \<Longrightarrow> hd (dec n) \<noteq> CHR ''0''"
proof (induction n rule: dec.induct)
  case (1 n)
  show ?case
  proof (cases "n div 10 < 10")
    case True
    have "n div 10 \<noteq> 0" using "1.prems" by simp
    with True "1.prems" show ?thesis
      by (subst dec.simps, subst dec.simps) (auto dest: digit_0)
  next
    case False
    with 1 show ?thesis by (subst dec.simps) simp
  qed
qed

lemma nat_literal_dec: "nat_literal (dec n)"
proof (cases "n < 10")
  case True
  then show ?thesis by (simp add: nat_literal_def dec.simps [of n])
next
  case False
  then show ?thesis using hd_dec [of n] by (auto simp: nat_literal_def list_all_iff dest: dec_digits)
qed

lemma trim_minus_dec: "trim_prefix (dec n) ''-'' = dec n"
proof -
  have "\<not> has_prefix (dec n) ''-''"
    using not_in_dec(5) [of n] by (metis append_Cons has_prefixE list.set_intros(1))
  then show ?thesis by (simp add: trim_prefix_def)
qed

lemma int_literal_itoa: "int_literal (itoa i)"
  using trim_prefix_append [of "''-''" "dec (nat (- i))"]
  by (simp add: int_literal_def strip_minus_def itoa_def trim_minus_dec nat_literal_dec)

lemma parse_num_itoa: "ends_value r \<Longrightarrow> parse_num (itoa i @ r) = Some (JInt i, r)"
  by (simp add: parse_num_def take_num drop_num itoa_all int_literal_itoa del: takeWhile_append dropWhile_append)

fun exact :: "json \<Rightarrow> bool" where
  "exact (JNum s) = False"
| "exact (JArr xs) = list_all exact xs"
| "exact (JObj kvs) = list_all (\<lambda>(k, v). exact v) kvs"
| "exact _ = True"

lemma skip_ws_append [simp]: "list_all json_ws w \<Longrightarrow> skip_ws (w @ s) = skip_ws s"
  by (simp add: skip_ws_def dropWhile_append list_all_iff)

lemma skip_ws_stop [simp]: "\<not> json_ws c \<Longrightarrow> skip_ws (c # s) = c # s"
  by (simp add: skip_ws_def)

lemma skip_ws_Nil [simp]: "skip_ws [] = []"
  by (simp add: skip_ws_def)

lemma parse_value_ws: "list_all json_ws w \<Longrightarrow> parse_value (w @ s) = parse_value s"
  by (subst (1 2) parse_value.simps) simp

lemma json_ws_chars [simp]:
  "\<not> json_ws CHR 0x22" "\<not> json_ws CHR ''['' " "\<not> json_ws CHR '']''" "\<not> json_ws CHR ''{''"
  "\<not> json_ws CHR ''}''" "\<not> json_ws CHR '',''" "\<not> json_ws CHR '':''" "\<not> json_ws CHR ''-''"
  "\<not> json_ws CHR ''t''" "\<not> json_ws CHR ''f''" "\<not> json_ws CHR ''n''"
  by (simp_all add: json_ws_def)

lemma json_ws_num: "json_ws c \<Longrightarrow> \<not> num_char c"
  by (auto simp: json_ws_def num_char_def is_digit_def)

lemma ends_value_ws: "list_all json_ws w \<Longrightarrow> \<not> num_char c \<Longrightarrow> ends_value (w @ c # r)"
  by (cases w) (auto simp: ends_value_def json_ws_num)

lemma ends_value_Cons [simp]: "ends_value (c # r) \<longleftrightarrow> \<not> num_char c"
  by (simp add: ends_value_def)

lemma ends_value_Nil [simp]: "ends_value []"
  by (simp add: ends_value_def)

lemma not_num_chars [simp]:
  "\<not> num_char CHR '']''" "\<not> num_char CHR ''}''" "\<not> num_char CHR '',''"
  by (simp_all add: num_char_def is_digit_def)

lemma parse_value_str: "parse_value (jstr s @ r) = Some (JStr s, r)"
  by (subst parse_value.simps) (simp add: jstr_def parse_str_print)

lemma parse_value_int: "ends_value r \<Longrightarrow> parse_value (itoa i @ r) = Some (JInt i, r)"
proof -
  assume r: "ends_value r"
  obtain c cs where c: "itoa i = c # cs" by (cases "itoa i") (auto simp: itoa_def split: if_splits)
  have d: "c = CHR ''-'' \<or> is_digit c"
    using c dec_digits [of c "nat i"] by (auto simp: itoa_def split: if_splits)
  then have "\<not> json_ws c" "c \<noteq> CHR 0x22" "c \<noteq> CHR ''[''" "c \<noteq> CHR ''{''"
    by (auto simp: json_ws_def is_digit_def)
  with d show ?thesis
    using parse_num_itoa [OF r, of i] by (subst parse_value.simps) (simp add: c)
qed

lemma parse_value_keyword:
  "parse_value (''null'' @ r) = Some (JNull, r)"
  "parse_value (''true'' @ r) = Some (JBool True, r)"
  "parse_value (''false'' @ r) = Some (JBool False, r)"
  by (subst parse_value.simps, simp add: keyword_def is_digit_def)+

text \<open>The texts an array or object is made of, for any readable printer of its elements.\<close>

lemma parse_elems_join:
  assumes "xs \<noteq> []" "list_all json_ws w" "list_all json_ws v" "list_all json_ws u"
    and "\<And>x r. x \<in> set xs \<Longrightarrow> ends_value r \<Longrightarrow> parse_value (p x @ r) = Some (x, r)"
    and "\<And>x. x \<in> set xs \<Longrightarrow> p x \<noteq> []"
  shows "parse_elems (w @ join ('','' @ v) (map p xs) @ u @ CHR '']'' # r) = Some (xs, r)"
  using assms
proof (induction xs arbitrary: w)
  case Nil
  then show ?case by simp
next
  case (Cons x xs)
  show ?case
  proof (cases xs)
    case Nil
    show ?thesis
      using Cons.prems
      by (subst parse_elems.simps) (simp add: Nil parse_value_ws ends_value_ws)
  next
    case (Cons y ys)
    have "parse_elems (v @ join ('','' @ v) (map p xs) @ u @ CHR '']'' # r) = Some (xs, r)"
      using Cons.IH [of v] Cons.prems Cons by simp
    then show ?thesis
      using Cons.prems
      by (subst parse_elems.simps) (simp add: Cons parse_value_ws)
  qed
qed

lemma parse_members_join:
  assumes "kvs \<noteq> []" "list_all json_ws w" "list_all json_ws v" "list_all json_ws u" "list_all json_ws sp"
    and "\<And>x r. x \<in> snd ` set kvs \<Longrightarrow> ends_value r \<Longrightarrow> parse_value (p x @ r) = Some (x, r)"
  shows "parse_members
    (w @ join ('','' @ v) (map (\<lambda>(k, x). jstr k @ '':'' @ sp @ p x) kvs) @ u @ CHR ''}'' # r) =
    Some (kvs, r)"
  using assms
proof (induction kvs arbitrary: w)
  case Nil
  then show ?case by simp
next
  case (Cons kx kvs)
  obtain k x where kx: "kx = (k, x)" by (cases kx)
  show ?case
  proof (cases kvs)
    case Nil
    show ?thesis
      using Cons.prems
      by (subst parse_members.simps)
        (simp add: Nil kx jstr_def parse_str_print parse_value_ws ends_value_ws)
  next
    case (Cons y ys)
    have "parse_members
      (v @ join ('','' @ v) (map (\<lambda>(k, x). jstr k @ '':'' @ sp @ p x) kvs) @ u @ CHR ''}'' # r) =
      Some (kvs, r)"
      by (rule Cons.IH) (use Cons.prems Cons in simp_all)
    then show ?thesis
      using Cons.prems
      by (subst parse_members.simps)
        (simp add: Cons kx jstr_def parse_str_print parse_value_ws split: prod.splits)
  qed
qed

lemma gen_print_start:
  assumes "exact j"
  shows "\<exists>c cs. gen_print nl sp n j = c # cs \<and> \<not> json_ws c \<and> c \<noteq> CHR '']''"
proof (cases j)
  case (JInt i)
  show ?thesis
    using JInt dec_digits [of _ "nat i"]
    by (cases "dec (nat i)") (force simp: itoa_def json_ws_def is_digit_def)+
qed (use assms in \<open>auto simp: jstr_def split: if_splits\<close>)

lemma join_first: "xs \<noteq> [] \<Longrightarrow> \<exists>t. join sep xs = hd xs @ t"
  by (cases "(sep, xs)" rule: join.cases) auto

text \<open>What follows the opening bracket is not the closing one.\<close>

lemma elems_start:
  assumes "xs \<noteq> []" and "exact (hd xs)" and "\<And>n. list_all json_ws (nl n)"
  shows "\<not> has_prefix (skip_ws (nl m @ join s (map (gen_print nl sp k) xs) @ t)) '']''"
proof -
  obtain t' where "join s (map (gen_print nl sp k) xs) = gen_print nl sp k (hd xs) @ t'"
    using join_first [of "map (gen_print nl sp k) xs" s] assms(1) by (auto simp: hd_map)
  then show ?thesis using gen_print_start [OF assms(2), of nl sp k] assms(3) by auto
qed

lemma members_start:
  assumes "kvs \<noteq> []" and "\<And>n. list_all json_ws (nl n)"
  shows "\<not> has_prefix (skip_ws (nl m @ join s (map (\<lambda>(k, v). jstr k @ u v) kvs) @ t)) ''}''"
proof -
  obtain t' where "join s (map (\<lambda>(k, v). jstr k @ u v) kvs) = CHR 0x22 # t'"
    using join_first [of "map (\<lambda>(k, v). jstr k @ u v) kvs" s] assms(1)
    by (cases kvs) (auto simp: jstr_def)
  then show ?thesis using assms(2) by auto
qed

theorem parse_gen_print:
  assumes "exact j" "\<And>n. list_all json_ws (nl n)" "list_all json_ws sp" "ends_value r"
  shows "parse_value (gen_print nl sp n j @ r) = Some (j, r)"
  using assms(1,4)
proof (induction j arbitrary: n r)
  case (JArr xs)
  show ?case
  proof (cases "xs = []")
    case True
    then show ?thesis by (subst parse_value.simps) simp
  next
    case False
    have "exact (hd xs)" using JArr.prems False by (cases xs) auto
    note start = elems_start [OF False this assms(2)]
    have "parse_elems (nl (Suc n) @ join ('','' @ nl (Suc n)) (map (gen_print nl sp (Suc n)) xs) @
        nl n @ CHR '']'' # r) = Some (xs, r)"
    proof (rule parse_elems_join)
      fix x assume x: "x \<in> set xs"
      then have e: "exact x" using JArr.prems by (simp add: list_all_iff)
      show "parse_value (gen_print nl sp (Suc n) x @ r') = Some (x, r')" if "ends_value r'" for r'
        using JArr.IH [OF x e that] .
      show "gen_print nl sp (Suc n) x \<noteq> []" using gen_print_start [OF e, of nl sp "Suc n"] by auto
    qed (use False assms(2) in simp_all)
    then show ?thesis
      using False start by (subst parse_value.simps) simp
  qed
next
  case (JObj kvs)
  show ?case
  proof (cases "kvs = []")
    case True
    then show ?thesis by (subst parse_value.simps) simp
  next
    case False
    note start = members_start [of kvs, OF False assms(2)]
    have "parse_members (nl (Suc n) @ join ('','' @ nl (Suc n))
        (map (\<lambda>(k, v). jstr k @ '':'' @ sp @ gen_print nl sp (Suc n) v) kvs) @
        nl n @ CHR ''}'' # r) = Some (kvs, r)"
    proof (rule parse_members_join)
      fix v r' assume "v \<in> snd ` set kvs" "ends_value r'"
      then obtain k where k: "(k, v) \<in> set kvs" by auto
      then have "exact v" using JObj.prems by (auto simp: list_all_iff)
      then show "parse_value (gen_print nl sp (Suc n) v @ r') = Some (v, r')"
        using JObj.IH [OF k, of v] \<open>ends_value r'\<close> by simp
    qed (use False assms(2,3) in simp_all)
    then show ?thesis
      using False start by (subst parse_value.simps) simp
  qed
qed (simp_all add: parse_value_keyword [simplified] parse_value_str parse_value_int)

section \<open>Whole texts\<close>

text \<open>\<open>Unmarshal\<close> wants one value and white space, \<open>Decoder.Decode\<close> reads one value of a stream.\<close>

definition json_Valid :: "string \<Rightarrow> json option" where
  "json_Valid s =
     (case parse_value s of
        None \<Rightarrow> None
      | Some (j, r) \<Rightarrow> if skip_ws r = [] then Some j else None)"

definition json_First :: "string \<Rightarrow> json option" where
  "json_First s = map_option fst (parse_value s)"

lemma json_Valid_Marshal: "exact j \<Longrightarrow> json_Valid (json_Marshal j) = Some j"
  using parse_gen_print [of j "\<lambda>_. []" "[]" "[]" 0] by (simp add: json_Valid_def json_Marshal_def)

lemma indent_nl_ws: "list_all json_ws (indent_nl n)"
  by (induction n) (simp_all add: indent_nl_def json_ws_def)

lemma json_Valid_MarshalIndent: "exact j \<Longrightarrow> json_Valid (json_MarshalIndent j) = Some j"
  using parse_gen_print [of j indent_nl "'' ''" "[]" 0]
  by (simp add: json_Valid_def json_MarshalIndent_def indent_nl_ws json_ws_def)

lemma json_First_Marshal: "exact j \<Longrightarrow> json_First (json_Marshal j) = Some j"
  using parse_gen_print [of j "\<lambda>_. []" "[]" "[]" 0] by (simp add: json_First_def json_Marshal_def)

section \<open>Decoding into Go values\<close>

text \<open>
  Decoding updates the value it is given and tells whether every part fitted: a part of the wrong
  JSON kind is skipped (and reported at the end), the others are still stored; \<open>null\<close> leaves a
  value as it is. Keys match the field names up to ASCII case, unknown keys are ignored, a
  repeated key is decoded again over what the first left.
\<close>

type_synonym 'a decoder = "json \<Rightarrow> 'a \<Rightarrow> 'a \<times> bool"

definition dec_string :: "string decoder" where
  "dec_string j old = (case j of JStr s \<Rightarrow> (s, True) | JNull \<Rightarrow> (old, True) | _ \<Rightarrow> (old, False))"

definition dec_int :: "int decoder" where
  "dec_int j old =
     (case j of
        JInt i \<Rightarrow> if int64_range i then (i, True) else (old, False)
      | JNull \<Rightarrow> (old, True)
      | _ \<Rightarrow> (old, False))"

definition dec_bool :: "bool decoder" where
  "dec_bool j old = (case j of JBool b \<Rightarrow> (b, True) | JNull \<Rightarrow> (old, True) | _ \<Rightarrow> (old, False))"

text \<open>A pointer: \<open>null\<close> resets it, anything else is decoded into what it points to.\<close>

definition dec_ptr :: "'a \<Rightarrow> 'a decoder \<Rightarrow> 'a option decoder" where
  "dec_ptr zero d j old =
     (case j of
        JNull \<Rightarrow> (None, True)
      | _ \<Rightarrow>
          (case d j (case old of None \<Rightarrow> zero | Some a \<Rightarrow> a) of
             (a, good) \<Rightarrow> (Some a, good)))"

text \<open>A slice: \<open>null\<close> makes it nil, an array is decoded element by element over the old ones.\<close>

fun dec_elems :: "'a \<Rightarrow> 'a decoder \<Rightarrow> json list \<Rightarrow> 'a list \<Rightarrow> 'a list \<times> bool" where
  "dec_elems zero d [] old = ([], True)"
| "dec_elems zero d (j # js) old =
     (case d j (case old of [] \<Rightarrow> zero | a # _ \<Rightarrow> a) of
        (a, good) \<Rightarrow>
          (case dec_elems zero d js (tl old) of
             (bs, good') \<Rightarrow> (a # bs, good \<and> good')))"

definition dec_list :: "'a \<Rightarrow> 'a decoder \<Rightarrow> 'a list decoder" where
  "dec_list zero d j old =
     (case j of
        JArr js \<Rightarrow> dec_elems zero d js old
      | JNull \<Rightarrow> ([], True)
      | _ \<Rightarrow> (old, False))"

definition lower :: "char \<Rightarrow> char" where
  "lower c = (if 65 \<le> code c \<and> code c \<le> 90 then char_of (code c + 32) else c)"

definition fold_key :: "string \<Rightarrow> string" where
  "fold_key s = map lower s"

text \<open>The field a key names: the one of that name, or else the first that matches up to case.\<close>

definition field_of :: "(string \<times> 'a decoder) list \<Rightarrow> string \<Rightarrow> 'a decoder option" where
  "field_of fs k =
     (case map_of fs k of
        Some d \<Rightarrow> Some d
      | None \<Rightarrow> map_of (map (\<lambda>(n, d). (fold_key n, d)) fs) (fold_key k))"

fun dec_members :: "(string \<times> 'a decoder) list \<Rightarrow> (string \<times> json) list \<Rightarrow> 'a \<Rightarrow> 'a \<times> bool" where
  "dec_members fs [] x = (x, True)"
| "dec_members fs ((k, j) # kvs) x =
     (case field_of fs k of
        None \<Rightarrow> dec_members fs kvs x
      | Some d \<Rightarrow>
          (case d j x of
             (y, good) \<Rightarrow>
               (case dec_members fs kvs y of (z, good') \<Rightarrow> (z, good \<and> good'))))"

definition dec_struct :: "(string \<times> 'a decoder) list \<Rightarrow> 'a decoder" where
  "dec_struct fs j x =
     (case j of JObj kvs \<Rightarrow> dec_members fs kvs x | JNull \<Rightarrow> (x, True) | _ \<Rightarrow> (x, False))"

definition dec_field :: "('a \<Rightarrow> 'b) \<Rightarrow> (('b \<Rightarrow> 'b) \<Rightarrow> 'a \<Rightarrow> 'a) \<Rightarrow> 'b decoder \<Rightarrow> 'a decoder" where
  "dec_field sel upd d j x = (case d j (sel x) of (b, good) \<Rightarrow> (upd (\<lambda>_. b) x, good))"

text \<open>
  \<open>json.Unmarshal(data, &x)\<close>: the value left in \<open>x\<close> and whether there was no error. A text that
  is not JSON leaves \<open>x\<close> alone.
\<close>

definition json_Unmarshal :: "'a decoder \<Rightarrow> string \<Rightarrow> 'a \<Rightarrow> 'a \<times> bool" where
  "json_Unmarshal d s x = (case json_Valid s of None \<Rightarrow> (x, False) | Some j \<Rightarrow> d j x)"

definition json_Decode :: "'a decoder \<Rightarrow> string \<Rightarrow> 'a \<Rightarrow> 'a \<times> bool" where
  "json_Decode d s x = (case json_First s of None \<Rightarrow> (x, False) | Some j \<Rightarrow> d j x)"

section \<open>Records kept as JSON\<close>

text \<open>
  The contract of a type with its JSON form: the encoder writes only values that are read back
  exactly, and decoding what it wrote into the zero value gives the value back.
\<close>

locale json_codec =
  fixes enc :: "'a \<Rightarrow> json" and dec :: "'a decoder" and zero :: 'a and fits :: "'a \<Rightarrow> bool"
  assumes enc_exact: "exact (enc a)"
    and dec_enc: "fits a \<Longrightarrow> dec (enc a) zero = (a, True)"
begin

lemma unmarshal_marshal: "fits a \<Longrightarrow> json_Unmarshal dec (json_Marshal (enc a)) zero = (a, True)"
  by (simp add: json_Unmarshal_def json_Valid_Marshal enc_exact dec_enc)

lemma unmarshal_indent: "fits a \<Longrightarrow> json_Unmarshal dec (json_MarshalIndent (enc a)) zero = (a, True)"
  by (simp add: json_Unmarshal_def json_Valid_MarshalIndent enc_exact dec_enc)

lemma decode_marshal: "fits a \<Longrightarrow> json_Decode dec (json_Marshal (enc a)) zero = (a, True)"
  by (simp add: json_Decode_def json_First_Marshal enc_exact dec_enc)

lemma marshal_inject:
  "fits a \<Longrightarrow> fits b \<Longrightarrow> json_Marshal (enc a) = json_Marshal (enc b) \<Longrightarrow> a = b"
  by (metis unmarshal_marshal Pair_inject)

lemma elems_enc: "list_all fits as \<Longrightarrow> dec_elems zero dec (map enc as) [] = (as, True)"
  by (induction as) (simp_all add: dec_enc)

lemma list_codec:
  "exact (JArr (map enc as))"
  "list_all fits as \<Longrightarrow> dec_list zero dec (JArr (map enc as)) [] = (as, True)"
proof -
  show "exact (JArr (map enc as))" by (simp add: list_all_iff enc_exact)
  show "list_all fits as \<Longrightarrow> dec_list zero dec (JArr (map enc as)) [] = (as, True)"
    using elems_enc by (simp add: dec_list_def)
qed

lemma marshal_start: "json_Marshal (enc a) \<noteq> []"
  using gen_print_start [OF enc_exact [of a], of "\<lambda>_. []" "[]" 0] by (auto simp: json_Marshal_def)

end

text \<open>A struct is written as an object, so a pointer to one is read back through \<open>dec_ptr\<close>.\<close>

locale object_codec = json_codec +
  assumes enc_obj: "\<exists>kvs. enc a = JObj kvs"
begin

lemma ptr_enc: "fits a \<Longrightarrow> dec_ptr zero dec (enc a) None = (Some a, True)"
  using enc_obj [of a] dec_enc [of a] by (auto simp: dec_ptr_def)

lemma enc_not_null: "enc a \<noteq> JNull"
  using enc_obj [of a] by auto

end

end
