(* ===== verification/Files.thy ===== *)
theory Files
  imports Logic Json
begin

text \<open>
  Laws of the file operations, and the contract of a file that is written and read whole, on which
  the two JSON files the program keeps (a VM's ports, a snapshot's metadata) rest.
\<close>

section \<open>Laws of the file operations\<close>

definition root_path :: "string \<Rightarrow> bool" where
  "root_path p \<longleftrightarrow> Clean p = ''/'' \<or> Clean p = ''.''"

lemma fs_lookup_put:
  "fs_lookup (put_node p n fs) q =
     (if root_path q then Some Dir else if Clean q = Clean p then Some n else fs_lookup fs q)"
  by (simp add: fs_lookup_def put_node_def root_path_def map_of_filter_key)

lemma fs_lookup_drop:
  "fs_lookup (drop_node p fs) q =
     (if root_path q then Some Dir else if Clean q = Clean p then None else fs_lookup fs q)"
  by (simp add: fs_lookup_def drop_node_def root_path_def map_of_filter_key)

lemma below_Clean [simp]: "below p (Clean q) = below p q" "below (Clean p) q = below p q"
  by (simp_all add: below_def)

lemma fs_lookup_drop_tree:
  "fs_lookup (drop_tree p fs) q =
     (if root_path q then Some Dir else if below p q then None else fs_lookup fs q)"
  by (simp add: fs_lookup_def drop_tree_def root_path_def map_of_filter_key)

lemma fs_lookup_root: "root_path p \<Longrightarrow> fs_lookup fs p = Some Dir"
  by (simp add: fs_lookup_def root_path_def)

lemma fs_lookup_Clean [simp]: "fs_lookup fs (Clean p) = fs_lookup fs p"
  by (simp add: fs_lookup_def)

lemma below_refl [simp]: "below p p"
  by (simp add: below_def)

lemma fs_write_lookup:
  "fs_write fs p d = Inr fs' \<Longrightarrow>
   \<not> root_path p \<and> fs_lookup fs' q =
     (if root_path q then Some Dir else if Clean q = Clean p then Some (File d) else fs_lookup fs q)"
  using fs_lookup_root [of p fs]
  by (auto simp: fs_write_def fs_lookup_put split: option.splits node.splits if_splits)

lemma fs_remove_all_lookup:
  "fs_remove_all fs p = Inr fs' \<Longrightarrow> p \<noteq> [] \<Longrightarrow>
   fs_lookup fs' q =
     (if root_path q then Some Dir else if below p q then None else fs_lookup fs q)"
  by (auto simp: fs_remove_all_def fs_lookup_drop_tree split: if_splits)

lemma fs_remove_lookup:
  "fs_remove fs p = Inr fs' \<Longrightarrow>
   fs_lookup fs p \<noteq> None \<and>
   fs_lookup fs' q =
     (if root_path q then Some Dir else if Clean q = Clean p then None else fs_lookup fs q)"
  by (auto simp: fs_remove_def fs_lookup_drop split: option.splits node.splits if_splits)

lemma fs_truncate_lookup:
  "fs_truncate fs p n = Inr fs' \<Longrightarrow>
   \<exists>d. fs_lookup fs p = Some (File d) \<and> 0 \<le> n \<and> fs_lookup fs' q =
     (if root_path q then Some Dir
      else if Clean q = Clean p
      then Some (File (take (nat n) d @ replicate (nat n - length d) (CHR 0x00)))
      else fs_lookup fs q)"
  by (auto simp: fs_truncate_def fs_lookup_put split: option.splits node.splits if_splits)

text \<open>A successful call, and the state it leaves.\<close>

lemma os_write_ok:
  "run_state (os_write E ev f) w = (Inr u, w') \<longleftrightarrow>
     fault E w ev = None \<and> (\<exists>fs. f (files w) = Inr fs \<and> w' = (logged E ev w)\<lparr>files := fs\<rparr>)"
  by (auto simp: os_write_def split: option.splits sum.splits)

lemma os_read_ok:
  "run_state (os_read E ev f) w = (Inr a, w') \<longleftrightarrow>
     fault E w ev = None \<and> f (files w) = Inr a \<and> w' = logged E ev w"
  by (auto simp: os_read_def split: option.splits)

lemma run_os_read:
  "run_state (os_read E ev f) w =
     (case fault E w ev of Some (e, fs) \<Rightarrow> Inl e | None \<Rightarrow> f (files w), logged E ev w)"
  by (auto simp: os_read_def split: option.splits)

section \<open>Files written and read whole\<close>

locale byte_store =
  fixes read :: "'s \<Rightarrow> string \<Rightarrow> 'e + string"
    and save :: "'s \<Rightarrow> string \<Rightarrow> string \<Rightarrow> 'e + 's"
    and same :: "string \<Rightarrow> string \<Rightarrow> bool"
  assumes read_write: "save s p d = Inr s' \<Longrightarrow> same p q \<Longrightarrow> read s' q = Inr d"
    and read_other: "save s p d = Inr s' \<Longrightarrow> \<not> same p q \<Longrightarrow> read s' q = Inr e \<longleftrightarrow> read s q = Inr e"
    and same_refl: "same p p"
begin

lemma read_back: "save s p d = Inr s' \<Longrightarrow> read s' p = Inr d"
  by (erule read_write) (rule same_refl)

lemma last_write_wins:
  "save s p d = Inr s1 \<Longrightarrow> save s1 q e = Inr s2 \<Longrightarrow>
   read s2 p = Inr (if same q p then e else d)"
  using read_write [of s1 q e s2 p] read_other [of s1 q e s2 p d] read_back [of s p d s1] by auto

end

text \<open>A record kept in such a file as JSON.\<close>

locale record_file = byte_store read save same + json_codec enc dec zero fits
  for read :: "'s \<Rightarrow> string \<Rightarrow> 'e + string"
    and save :: "'s \<Rightarrow> string \<Rightarrow> string \<Rightarrow> 'e + 's"
    and same :: "string \<Rightarrow> string \<Rightarrow> bool"
    and enc :: "'a \<Rightarrow> json" and dec :: "'a decoder" and zero :: 'a and fits :: "'a \<Rightarrow> bool"
begin

lemma load_saved:
  "save s p (json_Marshal (enc a)) = Inr s' \<Longrightarrow> fits a \<Longrightarrow>
   read s' p = Inr (json_Marshal (enc a)) \<and>
   json_Unmarshal dec (json_Marshal (enc a)) zero = (a, True)"
  using read_back unmarshal_marshal by blast

lemma load_saved_indent:
  "save s p (json_MarshalIndent (enc a)) = Inr s' \<Longrightarrow> fits a \<Longrightarrow>
   read s' p = Inr (json_MarshalIndent (enc a)) \<and>
   json_Unmarshal dec (json_MarshalIndent (enc a)) zero = (a, True)"
  using read_back unmarshal_indent by blast

end

definition same_path :: "string \<Rightarrow> string \<Rightarrow> bool" where
  "same_path p q \<longleftrightarrow> Clean p = Clean q"

lemma fs_read_iff: "fs_read fs p = Inr d \<longleftrightarrow> fs_lookup fs p = Some (File d)"
  by (auto simp: fs_read_def split: option.splits node.splits)

lemma fs_lookup_same: "Clean p = Clean q \<Longrightarrow> fs_lookup fs p = fs_lookup fs q"
  by (simp add: fs_lookup_def)

interpretation disk: byte_store fs_read fs_write same_path
proof
  fix s p d s' q e
  assume w: "fs_write s p d = Inr s'"
  have l: "fs_lookup s' q =
      (if root_path q then Some Dir else if Clean q = Clean p then Some (File d) else fs_lookup s q)"
    and nr: "\<not> root_path p"
    using fs_write_lookup [OF w, of q] by auto
  show "fs_read s' q = Inr d" if "same_path p q"
    using that l nr by (simp add: fs_read_iff same_path_def root_path_def)
  show "fs_read s' q = Inr e \<longleftrightarrow> fs_read s q = Inr e" if "\<not> same_path p q"
    using that l by (auto simp: fs_read_iff same_path_def root_path_def fs_lookup_def)
qed (simp add: same_path_def)

end
