(* ===== verification/Disk.thy ===== *)
theory Disk
  imports Config Files
begin

text \<open>
  A VM's data directory (\<open>disk.go\<close>): the copy of its root file system, grown on request, the file
  that remembers its ports, and the removal of it all. The paths of the other directories the
  program keeps (\<open>snapshots\<close>, \<open>sockets\<close>) are here too.
\<close>

section \<open>Paths\<close>

definition vmDataDir :: "env \<Rightarrow> string \<Rightarrow> string" where
  "vmDataDir E name = Join [home E, ''.local'', ''share'', ''knaller'', ''vms'', name]"

definition snapshotBaseDir :: "env \<Rightarrow> string" where
  "snapshotBaseDir E = Join [home E, ''.local'', ''share'', ''knaller'', ''snapshots'']"

definition snapshotDir :: "env \<Rightarrow> string \<Rightarrow> string" where
  "snapshotDir E i = Join [snapshotBaseDir E, i]"

definition socketDirectory :: "env \<Rightarrow> string" where
  "socketDirectory E = Join [home E, ''.local'', ''share'', ''knaller'', ''sockets'']"

definition rootfs_path :: "env \<Rightarrow> string \<Rightarrow> string" where
  "rootfs_path E name = Join [vmDataDir E name, ''rootfs.ext4'']"

definition ports_path :: "env \<Rightarrow> string \<Rightarrow> string" where
  "ports_path E name = Join [vmDataDir E name, ''ports.json'']"

definition socket_path :: "env \<Rightarrow> string \<Rightarrow> string" where
  "socket_path E name = Join [socketDirectory E, name @ ''.socket'']"

section \<open>The root file system\<close>

text \<open>
  \<open>exec.Command(...).CombinedOutput()\<close> whose failure is wrapped, and the exit code from which
  \<open>e2fsck\<close> has failed. A process killed by a signal has the exit code -1.
\<close>

definition run_or :: "env \<Rightarrow> string list \<Rightarrow> string \<Rightarrow> unit go" where
  "run_or E argv what = do {
     (out, e) \<leftarrow> exec_run E argv;
     (case e of
        None \<Rightarrow> ok ()
      | Some e \<Rightarrow> err (Wrap (what @ '': '' @ out @ '': '') e))
   }"

definition fsck_failed :: "err \<Rightarrow> bool" where
  "fsck_failed e = (case e of ExitErr n \<Rightarrow> 4 \<le> n | _ \<Rightarrow> True)"

definition run_fsck :: "env \<Rightarrow> string \<Rightarrow> unit go" where
  "run_fsck E dst = do {
     (out, e) \<leftarrow> exec_run E [''e2fsck'', ''-fp'', dst];
     (case e of
        None \<Rightarrow> ok ()
      | Some e \<Rightarrow>
          if fsck_failed e then err (Wrap (''e2fsck rootfs: '' @ out @ '': '') e) else ok ())
   }"

definition prepareDisk :: "env \<Rightarrow> string \<Rightarrow> string \<Rightarrow> int \<Rightarrow> string go" where
  "prepareDisk E name baseRootFS rootFSSize =
     (let dir = vmDataDir E name; dst = Join [dir, ''rootfs.ext4''] in
      on_error (os_MkdirAll E dir) (\<lambda>e. err (Wrap ''create vm dir: '' e)) (\<lambda>_.
      on_error (run_or E [''cp'', ''--reflink=auto'', baseRootFS, dst] ''copy rootfs'') err (\<lambda>_.
      if rootFSSize > 0 then
        on_error (os_Stat E dst) (\<lambda>e. err (Wrap ''stat rootfs: '' e)) (\<lambda>st.
        if node_size st < rootFSSize then
          on_error (os_Truncate E dst rootFSSize)
            (\<lambda>e. err (Wrap (''truncate rootfs to '' @ itoa rootFSSize @ '': '') e)) (\<lambda>_.
          on_error (run_fsck E dst) err (\<lambda>_.
          on_error (run_or E [''resize2fs'', dst] ''resize2fs rootfs'') err (\<lambda>_.
          ok dst)))
        else ok dst)
      else ok dst)))"

definition prepareDiskFromSnapshot :: "env \<Rightarrow> string \<Rightarrow> string \<Rightarrow> string go" where
  "prepareDiskFromSnapshot E name snapID =
     (let dir = vmDataDir E name; dst = Join [dir, ''rootfs.ext4''];
          src = Join [snapshotDir E snapID, ''rootfs.ext4''] in
      on_error (os_MkdirAll E dir) (\<lambda>e. err (Wrap ''create vm dir: '' e)) (\<lambda>_.
      on_error (run_or E [''cp'', ''--reflink=auto'', src, dst] ''copy rootfs'') err (\<lambda>_.
      ok dst)))"

definition removeDisk :: "env \<Rightarrow> string \<Rightarrow> unit go" where
  "removeDisk E name = os_RemoveAll E (vmDataDir E name)"

section \<open>Ports\<close>

definition enc_PortMapping :: "PortMapping \<Rightarrow> json" where
  "enc_PortMapping p = JObj [(''Host'', JInt (Host p)), (''Guest'', JInt (Guest p))]"

definition zero_PortMapping :: PortMapping where
  "zero_PortMapping = \<lparr> Host = 0, Guest = 0 \<rparr>"

definition dec_PortMapping :: "PortMapping decoder" where
  "dec_PortMapping = dec_struct
     [(''Host'', dec_field Host Host_update dec_int),
      (''Guest'', dec_field Guest Guest_update dec_int)]"

definition fits_PortMapping :: "PortMapping \<Rightarrow> bool" where
  "fits_PortMapping p \<longleftrightarrow> int64_range (Host p) \<and> int64_range (Guest p)"

definition saveVMPorts :: "env \<Rightarrow> string \<Rightarrow> PortMapping list \<Rightarrow> unit go" where
  "saveVMPorts E name ports =
     (if ports = [] then ok ()
      else os_WriteFile E (Join [vmDataDir E name, ''ports.json''])
             (json_Marshal (JArr (map enc_PortMapping ports))))"

definition loadVMPorts :: "env \<Rightarrow> string \<Rightarrow> PortMapping list prog" where
  "loadVMPorts E name =
     on_error (os_ReadFile E (Join [vmDataDir E name, ''ports.json''])) (\<lambda>_. ret []) (\<lambda>data.
     ret (fst (json_Unmarshal (dec_list zero_PortMapping dec_PortMapping) data [])))"

section \<open>Lemmas\<close>

lemmas codec_leafs =
  dec_struct_def dec_field_def field_of_def dec_string_def dec_int_def dec_bool_def

interpretation port: object_codec enc_PortMapping dec_PortMapping zero_PortMapping fits_PortMapping
  by unfold_locales
    (auto simp: enc_PortMapping_def dec_PortMapping_def zero_PortMapping_def fits_PortMapping_def
      codec_leafs)

interpretation ports_file: record_file fs_read fs_write same_path
  "\<lambda>ps. JArr (map enc_PortMapping ps)" "dec_list zero_PortMapping dec_PortMapping" "[]"
  "list_all fits_PortMapping"
  by unfold_locales (simp_all only: port.list_codec)

lemma path_folds:
  "Join [vmDataDir E name, ''rootfs.ext4''] = rootfs_path E name"
  "Join [vmDataDir E name, ''ports.json''] = ports_path E name"
  by (simp_all add: rootfs_path_def ports_path_def)

lemma calls_run_or [extends_intros]: "P (Exec argv) \<Longrightarrow> calls P (run_or E argv what)"
  unfolding run_or_def by (intro extends_intros)

lemma calls_run_fsck [extends_intros]:
  "P (Exec [''e2fsck'', ''-fp'', dst]) \<Longrightarrow> calls P (run_fsck E dst)"
  unfolding run_fsck_def by (intro extends_intros)

text \<open>The calls a disk is prepared with: only the VM's own directory is written to.\<close>

definition disk_call :: "env \<Rightarrow> string \<Rightarrow> string \<Rightarrow> int \<Rightarrow> event \<Rightarrow> bool" where
  "disk_call E name src sz ev \<longleftrightarrow>
     ev \<in> {MkdirAll (vmDataDir E name),
           Exec [''cp'', ''--reflink=auto'', src, rootfs_path E name],
           Stat (rootfs_path E name), Truncate (rootfs_path E name) sz,
           Exec [''e2fsck'', ''-fp'', rootfs_path E name], Exec [''resize2fs'', rootfs_path E name]}"

lemma calls_prepareDisk: "calls (disk_call E name base sz) (prepareDisk E name base sz)"
  unfolding prepareDisk_def Let_def path_folds
  by (intro extends_intros) (simp_all add: disk_call_def)

lemma calls_prepareDiskFromSnapshot:
  "calls (disk_call E name (Join [snapshotDir E i, ''rootfs.ext4'']) 0) (prepareDiskFromSnapshot E name i)"
  unfolding prepareDiskFromSnapshot_def Let_def path_folds
  by (intro extends_intros) (simp_all add: disk_call_def)

lemma calls_saveVMPorts [extends_intros]:
  "(\<And>d. P (WriteFile (ports_path E name) d)) \<Longrightarrow> calls P (saveVMPorts E name ports)"
  unfolding saveVMPorts_def path_folds by (intro extends_intros)

lemma calls_loadVMPorts [extends_intros]:
  "P (ReadFile (ports_path E name)) \<Longrightarrow> calls P (loadVMPorts E name)"
  unfolding loadVMPorts_def path_folds by (intro extends_intros)

lemma calls_removeDisk [extends_intros]:
  "P (RemoveAll (vmDataDir E name)) \<Longrightarrow> calls P (removeDisk E name)"
  unfolding removeDisk_def by (intro extends_intros)

lemma vmDataDir_not_empty [simp]: "vmDataDir E name \<noteq> []"
  by (simp add: vmDataDir_def Join_def split: list.splits)

section \<open>Properties\<close>

text \<open>Preparing a disk makes the VM's directory, copies the base image (or the snapshot's) into
  it with \<open>cp\<close> and grows and checks that copy: the image copied from is never written, and
  nothing outside the VM's own directory is. Removing the disk is one call on that directory.\<close>
theorem disk_confined:
  "calls (disk_call E name base sz) (prepareDisk E name base sz) \<and>
   calls (disk_call E name (Join [snapshotDir E i, ''rootfs.ext4'']) 0)
     (prepareDiskFromSnapshot E name i) \<and>
   calls (\<lambda>ev. ev = RemoveAll (vmDataDir E name)) (removeDisk E name)"
  using calls_prepareDisk calls_prepareDiskFromSnapshot by (auto intro: extends_intros)

text \<open>The programs that check and grow a file system work inside the image file.\<close>

definition fs_tools_in_place :: "env \<Rightarrow> bool" where
  "fs_tools_in_place E \<longleftrightarrow>
     (\<forall>w argv. argv \<noteq> [] \<and> (hd argv = ''e2fsck'' \<or> hd argv = ''resize2fs'') \<longrightarrow>
        snd (snd (command E w argv)) = files w)"

lemma run_or_ok:
  "run_state (run_or E argv what) w = (Inr u, w') \<Longrightarrow>
   files w' = snd (snd (command E w argv))"
  by (auto simp: run_or_def exec_run_def run_simps split: prod.splits option.splits)

lemma run_fsck_ok:
  "run_state (run_fsck E dst) w = (Inr u, w') \<Longrightarrow>
   files w' = snd (snd (command E w [''e2fsck'', ''-fp'', dst]))"
  by (auto simp: run_fsck_def exec_run_def run_simps split: prod.splits option.splits if_splits)

lemma Truncate_size:
  "run_state (os_Truncate E p n) w = (Inr u, w') \<Longrightarrow>
   \<exists>d. fs_lookup (files w') p = Some (File d) \<and> int (length d) = n"
  unfolding os_Truncate_def os_write_ok
  by (auto dest!: fs_truncate_lookup [of _ p n _ p])
    (use fs_lookup_root in \<open>auto simp: fs_truncate_def split: if_splits option.splits node.splits\<close>)

lemma prepareDisk_result:
  "run_state (prepareDisk E name base sz) w = (Inr p, w') \<Longrightarrow> p = rootfs_path E name"
  unfolding prepareDisk_def Let_def path_folds
  by (auto simp: run_simps split: prod.splits sum.splits if_splits)


text \<open>An environment whose \<open>cp\<close> makes a three-byte copy.\<close>

definition copy_env :: env where
  "copy_env = calm_env \<lparr> command := \<lambda>w argv.
     ([], None, if hd argv = ''cp'' then put_node (last argv) (File ''abc'') (files w) else files w) \<rparr>"

lemma copy_env_run:
  "\<exists>w'. run_state (prepareDisk copy_env ''a'' ''/base'' 5) empty_world = (Inr (rootfs_path copy_env ''a''), w')"
proof -
  have "\<not> isl (fst (run_state (prepareDisk copy_env ''a'' ''/base'' 5) empty_world))"
    by code_simp
  from run_not_isl [OF this] show ?thesis using prepareDisk_result by fastforce
qed

lemma copy_env_tools: "fs_tools_in_place copy_env"
  by (simp add: fs_tools_in_place_def copy_env_def)


text \<open>A disk that was removed is gone with everything below its directory, and nothing else
  is touched.\<close>
theorem removed_disk:
  "case run_state (removeDisk E name) w of
     (Inr _, w') \<Rightarrow>
       \<forall>q. fs_lookup (files w') q =
         (if root_path q then Some Dir else if below (vmDataDir E name) q then None
          else fs_lookup (files w) q)
   | (Inl _, w') \<Rightarrow> trace w' = trace w @ [RemoveAll (vmDataDir E name)]"
proof (cases "run_state (removeDisk E name) w")
  case (Pair r w')
  show ?thesis
  proof (cases r)
    case (Inl e)
    moreover have "trace (snd (run_state (removeDisk E name) w)) = trace w @ [RemoveAll (vmDataDir E name)]"
      by (simp add: removeDisk_def os_RemoveAll_def)
    ultimately show ?thesis using Pair by simp
  next
    case (Inr u)
    with Pair have "run_state (os_RemoveAll E (vmDataDir E name)) w = (Inr (), w')"
      by (simp add: removeDisk_def)
    then obtain fs where "fs_remove_all (files w) (vmDataDir E name) = Inr fs" "files w' = fs"
      by (auto simp: os_RemoveAll_def os_write_ok)
    then show ?thesis using Pair Inr fs_remove_all_lookup by simp
  qed
qed

text \<open>The ports saved for a VM are the ports loaded again, for every list of ports Go can hold.\<close>
theorem ports_round_trip:
  assumes "list_all fits_PortMapping ports" and "ports \<noteq> []"
    and "run_state (saveVMPorts E name ports) w = (Inr (), w')"
    and "fault E w' (ReadFile (ports_path E name)) = None"
  shows "fst (run_state (loadVMPorts E name) w') = ports"
proof -
  obtain fs where fs: "fs_write (files w) (ports_path E name)
      (json_Marshal (JArr (map enc_PortMapping ports))) = Inr fs" "files w' = fs"
    using assms(2,3) by (auto simp: saveVMPorts_def path_folds os_WriteFile_def os_write_ok)
  from ports_file.load_saved [OF fs(1) assms(1)] fs(2) assms(4) show ?thesis
    by (simp add: loadVMPorts_def path_folds os_ReadFile_def run_on_error run_os_read run_simps)
qed

text \<open>A world in which the directory of VM \<open>a\<close> exists.\<close>

definition vm_dir_world :: world where
  "vm_dir_world = empty_world \<lparr> files := [(vmDataDir calm_env ''a'', Dir)] \<rparr>"

theorem ports_round_trip_witness:
  "\<exists>w'. run_state (saveVMPorts calm_env ''a'' [\<lparr> Host = 8080, Guest = 80 \<rparr>]) vm_dir_world = (Inr (), w') \<and>
        fst (run_state (loadVMPorts calm_env ''a'') w') = [\<lparr> Host = 8080, Guest = 80 \<rparr>]"
proof -
  have p: "parent_dir (files vm_dir_world) (ports_path calm_env ''a'')"
    "fs_lookup (files vm_dir_world) (ports_path calm_env ''a'') = None"
    by code_simp+
  have "\<exists>w'. run_state (saveVMPorts calm_env ''a'' [\<lparr> Host = 8080, Guest = 80 \<rparr>]) vm_dir_world = (Inr (), w')"
    by (simp add: saveVMPorts_def path_folds os_WriteFile_def os_write_ok fs_write_def p)
  then obtain w' where w': "run_state (saveVMPorts calm_env ''a'' [\<lparr> Host = 8080, Guest = 80 \<rparr>]) vm_dir_world =
      (Inr (), w')" ..
  moreover have "fst (run_state (loadVMPorts calm_env ''a'') w') = [\<lparr> Host = 8080, Guest = 80 \<rparr>]"
    by (rule ports_round_trip [OF _ _ w']) (simp_all add: fits_PortMapping_def int64_range_def)
  ultimately show ?thesis by blast
qed

text \<open>A VM started without ports does not clear what an earlier VM of its name has left: saving
  an empty list makes no call at all, so the old ports are still loaded, and a snapshot records
  them.\<close>
theorem stale_ports:
  "run_state (saveVMPorts E name []) w = (Inr (), w) \<and>
   fst (run_state (loadVMPorts E name) (snd (run_state (saveVMPorts E name []) w))) =
   fst (run_state (loadVMPorts E name) w)"
  by (simp add: saveVMPorts_def run_simps)

end
