(* ===== verification/Netns.thy ===== *)
theory Netns
  imports Network Disk
begin

text \<open>
  The kernel network namespace of a VM in direct mode (\<open>setupBoxNetns\<close>, \<open>teardownBoxNetns\<close> of
  \<open>vm_direct.go\<close>): every command with its arguments, which failures end the setup and which are
  ignored. The commands themselves (\<open>ip\<close>, \<open>nft\<close>, \<open>sysctl\<close>) are the environment's.
\<close>

section \<open>Running commands\<close>

text \<open>\<open>run\<close> of \<open>vm_direct.go\<close>, and a command whose failure is ignored.\<close>

definition run_cmd :: "env \<Rightarrow> string list \<Rightarrow> unit go" where
  "run_cmd E argv = do {
     (out, e) \<leftarrow> exec_run E argv;
     (case e of
        None \<Rightarrow> ok ()
      | Some e \<Rightarrow> err (Wrap (join '' '' argv @ '': '' @ out @ '': '') e))
   }"

definition try_cmd :: "env \<Rightarrow> string list \<Rightarrow> unit prog" where
  "try_cmd E argv = do { exec_run E argv; ret () }"

abbreviation words :: "string \<Rightarrow> string list" where
  "words \<equiv> split_on CHR '' ''"

section \<open>The commands\<close>

definition host_commands :: "ipv4 \<Rightarrow> string \<Rightarrow> string \<Rightarrow> string \<Rightarrow> string list list" where
  "host_commands vhIP vethHost vethGuest netns =
     [[''ip'', ''netns'', ''add'', netns],
      [''ip'', ''link'', ''add'', vethHost, ''type'', ''veth'', ''peer'', ''name'', vethGuest],
      [''ip'', ''link'', ''set'', vethGuest, ''netns'', netns],
      [''ip'', ''addr'', ''add'', ip_string vhIP @ ''/30'', ''dev'', vethHost],
      [''ip'', ''link'', ''set'', vethHost, ''up'']]"

definition netns_commands ::
    "networkConfig \<Rightarrow> ipv4 \<Rightarrow> ipv4 \<Rightarrow> string \<Rightarrow> string \<Rightarrow> string list list" where
  "netns_commands nc vhIP vgIP vethGuest netns =
     [[''ip'', ''-n'', netns, ''link'', ''set'', ''lo'', ''up''],
      [''ip'', ''-n'', netns, ''addr'', ''add'', ip_string vgIP @ ''/30'', ''dev'', vethGuest],
      [''ip'', ''-n'', netns, ''link'', ''set'', vethGuest, ''up''],
      [''ip'', ''-n'', netns, ''route'', ''add'', ''default'', ''via'', ip_string vhIP],
      [''ip'', ''-n'', netns, ''tuntap'', ''add'', ''dev'', TAPDevice nc, ''mode'', ''tap''],
      [''ip'', ''-n'', netns, ''link'', ''set'', ''dev'', TAPDevice nc, ''address'', tapMAC],
      [''ip'', ''-n'', netns, ''addr'', ''add'', ip_string (HostIP nc) @ ''/30'', ''dev'', TAPDevice nc],
      [''ip'', ''-n'', netns, ''link'', ''set'', TAPDevice nc, ''up''],
      [''ip'', ''-n'', netns, ''route'', ''add'', ip_string (GuestIP nc) @ ''/32'', ''dev'', TAPDevice nc],
      [''ip'', ''netns'', ''exec'', netns, ''sysctl'', ''-qw'', ''net.ipv4.ip_forward=1''],
      [''ip'', ''netns'', ''exec'', netns, ''sysctl'', ''-qw'', ''net.ipv4.conf.all.route_localnet=1''],
      [''ip'', ''netns'', ''exec'', netns, ''sysctl'', ''-qw'', ''net.ipv4.conf.lo.route_localnet=1'']]"

definition box_chains :: "string list" where
  "box_chains =
     [''add chain ip knaller_box_nat prerouting { type nat hook prerouting priority -100 ; }'',
      ''add chain ip knaller_box_nat output { type nat hook output priority -100 ; }'',
      ''add chain ip knaller_box_nat postrouting { type nat hook postrouting priority 100 ; }'']"

definition natRules :: "networkConfig \<Rightarrow> string \<Rightarrow> PortMapping list \<Rightarrow> string list" where
  "natRules nc vethGuest ports =
     (let g = ip_string (GuestIP nc) in
      [''add rule ip knaller_box_nat prerouting tcp dport 22 dnat to '' @ g @ '':22'',
       ''add rule ip knaller_box_nat output    tcp dport 22 dnat to '' @ g @ '':22''] @
      concat (map (\<lambda>p. let d = itoa (Guest p) in
        [''add rule ip knaller_box_nat prerouting tcp dport '' @ d @ '' dnat to '' @ g @ '':'' @ d,
         ''add rule ip knaller_box_nat output    tcp dport '' @ d @ '' dnat to '' @ g @ '':'' @ d]) ports) @
      [''add rule ip knaller_box_nat postrouting oifname '' @ [CHR 0x22] @ vethGuest @ [CHR 0x22] @
       '' ct state new masquerade''])"

definition host_chains :: "string list" where
  "host_chains =
     [''add chain ip knaller_host prerouting { type nat hook prerouting priority -100 ; }'',
      ''add chain ip knaller_host output { type nat hook output priority -100 ; }'',
      ''add chain ip knaller_host postrouting { type nat hook postrouting priority 100 ; }'',
      ''add chain ip knaller_host forward { type filter hook forward priority filter ; policy accept ; }'',
      ''add chain ip knaller_host input { type filter hook input priority filter ; policy accept ; }'']"

definition host_prepare :: "string list list" where
  "host_prepare =
     [[''nft'', ''add'', ''table'', ''ip'', ''knaller_host'']] @
     map (\<lambda>c. ''nft'' # words c) host_chains @
     [[''nft'', ''flush'', ''chain'', ''ip'', ''knaller_host'', ''forward''],
      [''nft'', ''flush'', ''chain'', ''ip'', ''knaller_host'', ''input''],
      [''sysctl'', ''-qw'', ''net.ipv4.ip_forward=1''],
      [''sysctl'', ''-qw'', ''net.ipv4.conf.all.route_localnet=1''],
      [''sysctl'', ''-qw'', ''net.ipv4.conf.lo.route_localnet=1'']]"

definition hostRules :: "string list" where
  "hostRules =
     [''add rule ip knaller_host forward ct state established,related accept'',
      ''add rule ip knaller_host forward ip saddr 172.20.0.0/14 ip daddr 169.254.169.253 udp dport 53 accept'',
      ''add rule ip knaller_host forward ip saddr 172.20.0.0/14 ip daddr 169.254.169.253 tcp dport 53 accept'',
      ''add rule ip knaller_host forward ip saddr 172.20.0.0/14 ip daddr 169.254.0.0/16 reject'',
      ''add rule ip knaller_host forward ip saddr 172.20.0.0/14 ip daddr 10.0.0.0/8 reject'',
      ''add rule ip knaller_host forward ip saddr 172.20.0.0/14 ip daddr 192.168.0.0/16 reject'',
      ''add rule ip knaller_host forward ip saddr 172.20.0.0/14 ip daddr 100.64.0.0/10 reject'',
      ''add rule ip knaller_host forward ip saddr 172.20.0.0/14 ip daddr 224.0.0.0/4 reject'',
      ''add rule ip knaller_host forward ip saddr 172.20.0.0/14 ip daddr 172.20.0.0/14 reject'',
      ''add rule ip knaller_host input ct state established,related accept'',
      ''add rule ip knaller_host input ip saddr 172.20.0.0/14 reject'']"

definition perBox :: "networkConfig \<Rightarrow> ipv4 \<Rightarrow> ipv4 \<Rightarrow> string \<Rightarrow> PortMapping list \<Rightarrow> string list" where
  "perBox nc vhIP vgIP vethHost ports =
     (let v = ip_string vgIP in
      [''add rule ip knaller_host prerouting tcp dport '' @ itoa (SSHPort nc) @ '' dnat to '' @ v @ '':22'',
       ''add rule ip knaller_host output    tcp dport '' @ itoa (SSHPort nc) @ '' dnat to '' @ v @ '':22''] @
      concat (map (\<lambda>p.
        [''add rule ip knaller_host prerouting tcp dport '' @ itoa (Host p) @ '' dnat to '' @ v @ '':'' @ itoa (Guest p),
         ''add rule ip knaller_host output    tcp dport '' @ itoa (Host p) @ '' dnat to '' @ v @ '':'' @ itoa (Guest p)])
        ports) @
      [''add rule ip knaller_host postrouting ip saddr '' @ ip_string (ipBase30 vhIP) @ ''/30 oifname != '' @
       [CHR 0x22] @ vethHost @ [CHR 0x22] @ '' masquerade''])"

section \<open>Setup and teardown\<close>

definition netns_nft :: "env \<Rightarrow> string \<Rightarrow> string \<Rightarrow> unit go" where
  "netns_nft E netns r =
     on_error (run_cmd E ([''ip'', ''netns'', ''exec'', netns, ''nft''] @ words r))
       (\<lambda>e. err (Wrap (''netns nft '' @ quote r @ '': '') e)) ok"

definition nft_rule :: "env \<Rightarrow> string \<Rightarrow> string \<Rightarrow> unit go" where
  "nft_rule E what r = do {
     (out, e) \<leftarrow> exec_run E (''nft'' # words r);
     (case e of
        None \<Rightarrow> ok ()
      | Some e \<Rightarrow> err (Wrap (what @ quote r @ '': '' @ out @ '': '') e))
   }"

definition setupBoxNetns ::
    "env \<Rightarrow> networkConfig \<Rightarrow> ipv4 \<Rightarrow> ipv4 \<Rightarrow> string \<Rightarrow> string \<Rightarrow> string \<Rightarrow> PortMapping list \<Rightarrow> unit go" where
  "setupBoxNetns E nc vhIP vgIP vethHost vethGuest netns ports = do {
     try_cmd E [''ip'', ''netns'', ''del'', netns];
     try_cmd E [''ip'', ''link'', ''del'', vethHost];
     on_error (each (run_cmd E) (host_commands vhIP vethHost vethGuest netns)) err (\<lambda>_.
     on_error (each (run_cmd E) (netns_commands nc vhIP vgIP vethGuest netns)) err (\<lambda>_. do {
     try_cmd E [''ip'', ''netns'', ''exec'', netns, ''nft'', ''add'', ''table'', ''ip'', ''knaller_box_nat''];
     each_ignore (\<lambda>ch. try_cmd E ([''ip'', ''netns'', ''exec'', netns, ''nft''] @ words ch)) box_chains;
     on_error (each (netns_nft E netns) (natRules nc vethGuest ports)) err (\<lambda>_. do {
     each_ignore (try_cmd E) host_prepare;
     on_error (each (nft_rule E ''host nft '') hostRules) err (\<lambda>_.
     each (nft_rule E ''per-vm nft '') (perBox nc vhIP vgIP vethHost ports)) }) })) }"

definition teardownBoxNetns :: "env \<Rightarrow> string \<Rightarrow> string \<Rightarrow> unit go" where
  "teardownBoxNetns E netns vethHost = do {
     try_cmd E [''ip'', ''netns'', ''del'', netns];
     try_cmd E [''ip'', ''link'', ''del'', vethHost];
     ok () }"

section \<open>The setup as a plan\<close>

text \<open>
  The abstract view: a list of commands, each of which must succeed or may fail; the first that must
  and does not ends the setup.
\<close>

datatype step = Must "string list" | May "string list"

primrec argv_of :: "step \<Rightarrow> string list" where
  "argv_of (Must a) = a"
| "argv_of (May a) = a"

fun run_plan :: "env \<Rightarrow> step list \<Rightarrow> unit go" where
  "run_plan E [] = ok ()"
| "run_plan E (May a # ps) = do { try_cmd E a; run_plan E ps }"
| "run_plan E (Must a # ps) = on_error (run_cmd E a) err (\<lambda>_. run_plan E ps)"

definition setup_plan ::
    "networkConfig \<Rightarrow> ipv4 \<Rightarrow> ipv4 \<Rightarrow> string \<Rightarrow> string \<Rightarrow> string \<Rightarrow> PortMapping list \<Rightarrow> step list" where
  "setup_plan nc vhIP vgIP vethHost vethGuest netns ports =
     [May [''ip'', ''netns'', ''del'', netns], May [''ip'', ''link'', ''del'', vethHost]] @
     map Must (host_commands vhIP vethHost vethGuest netns) @
     map Must (netns_commands nc vhIP vgIP vethGuest netns) @
     [May [''ip'', ''netns'', ''exec'', netns, ''nft'', ''add'', ''table'', ''ip'', ''knaller_box_nat'']] @
     map (\<lambda>ch. May ([''ip'', ''netns'', ''exec'', netns, ''nft''] @ words ch)) box_chains @
     map (\<lambda>r. Must ([''ip'', ''netns'', ''exec'', netns, ''nft''] @ words r)) (natRules nc vethGuest ports) @
     map May host_prepare @
     map (\<lambda>r. Must (''nft'' # words r)) hostRules @
     map (\<lambda>r. Must (''nft'' # words r)) (perBox nc vhIP vgIP vethHost ports)"

text \<open>Two programs agree when they fail together and leave the same state.\<close>

definition agree :: "'a go \<Rightarrow> 'b go \<Rightarrow> bool" where
  "agree m n \<longleftrightarrow> (\<forall>w. isl (fst (run_state m w)) = isl (fst (run_state n w)) \<and>
                       snd (run_state m w) = snd (run_state n w))"

lemma agree_refl: "agree m m"
  by (simp add: agree_def)

lemma agree_on_error:
  "agree m n \<Longrightarrow> (\<And>a b. agree (k a) (l b)) \<Longrightarrow>
   agree (on_error m (\<lambda>e. err (f e)) k) (on_error n (\<lambda>e. err (g e)) l)"
  unfolding agree_def
proof
  fix w
  assume "\<forall>w. isl (fst (run_state m w)) = isl (fst (run_state n w)) \<and> snd (run_state m w) = snd (run_state n w)"
    and kl: "\<And>a b. \<forall>w. isl (fst (run_state (k a) w)) = isl (fst (run_state (l b) w)) \<and>
                        snd (run_state (k a) w) = snd (run_state (l b) w)"
  then have "isl (fst (run_state m w)) = isl (fst (run_state n w))"
    "snd (run_state m w) = snd (run_state n w)" by auto
  then show "isl (fst (run_state (on_error m (\<lambda>e. err (f e)) k) w)) =
        isl (fst (run_state (on_error n (\<lambda>e. err (g e)) l) w)) \<and>
      snd (run_state (on_error m (\<lambda>e. err (f e)) k) w) = snd (run_state (on_error n (\<lambda>e. err (g e)) l) w)"
    using kl
    by (cases "run_state m w"; cases "run_state n w"; cases "fst (run_state m w)";
        cases "fst (run_state n w)") (simp_all add: run_on_error run_simps)
qed

lemma agree_bind: "(\<And>a. agree (f a) (g a)) \<Longrightarrow> agree (State_Monad.bind m f) (State_Monad.bind m g)"
  unfolding agree_def by (auto simp: run_simps split: prod.splits)

lemma agree_trans: "agree l m \<Longrightarrow> agree m n \<Longrightarrow> agree l n"
  unfolding agree_def by simp

lemma run_plan_append:
  "run_plan E (ps @ qs) = on_error (run_plan E ps) err (\<lambda>_. run_plan E qs)"
proof (induction ps rule: run_plan.induct)
  case (1 E)
  then show ?case by (simp add: on_error_def)
next
  case (2 E a ps)
  show ?case by (rule state_ext) (simp add: 2 run_simps split: prod.splits)
next
  case (3 E a ps)
  show ?case by (rule state_ext) (auto simp: 3 run_simps split: prod.splits sum.splits)
qed

lemma agree_each_must:
  "(\<And>x. agree (f x) (run_cmd E (g x))) \<Longrightarrow> agree (each f xs) (run_plan E (map (\<lambda>x. Must (g x)) xs))"
proof (induction xs)
  case Nil
  show ?case by (simp add: agree_refl)
next
  case (Cons x xs)
  have "agree (each f (x # xs)) (on_error (run_cmd E (g x)) err (\<lambda>_. run_plan E (map (\<lambda>x. Must (g x)) xs)))"
    unfolding each.simps by (rule agree_on_error [where f = "\<lambda>e. e" and g = "\<lambda>e. e"]) (use Cons in auto)
  then show ?case by simp
qed

lemma run_plan_may: "run_plan E (map (\<lambda>x. May (g x)) xs @ qs) =
  do { each_ignore (\<lambda>x. try_cmd E (g x)) xs; run_plan E qs }"
  by (induction xs) simp_all

lemma agree_append:
  "agree m (run_plan E ps) \<Longrightarrow> (\<And>u. agree (k u) (run_plan E qs)) \<Longrightarrow>
   agree (on_error m err k) (run_plan E (ps @ qs))"
  unfolding run_plan_append
  by (rule agree_on_error [where f = "\<lambda>e. e" and g = "\<lambda>e. e"])

lemma agree_nft: "agree (nft_rule E what r) (run_cmd E (''nft'' # words r))"
  "agree (netns_nft E netns r) (run_cmd E ([''ip'', ''netns'', ''exec'', netns, ''nft''] @ words r))"
  unfolding agree_def nft_rule_def netns_nft_def
  by (auto simp: run_cmd_def run_simps split: prod.splits option.splits sum.splits)

lemma setup_refines_plan_lemma:
  "agree (setupBoxNetns E nc vhIP vgIP vethHost vethGuest netns ports)
     (run_plan E (setup_plan nc vhIP vgIP vethHost vethGuest netns ports))"
proof -
  have must: "agree (each (run_cmd E) xs) (run_plan E (map Must xs))" for xs
    using agree_each_must [of "run_cmd E" E "\<lambda>x. x" xs] by (simp add: agree_refl)
  have may: "run_plan E (map May xs @ qs) = do { each_ignore (try_cmd E) xs; run_plan E qs }" for xs qs
    using run_plan_may [of E "\<lambda>x. x" xs qs] by simp
  have last: "agree (each (nft_rule E what) rs) (run_plan E (map (\<lambda>r. Must (''nft'' # words r)) rs))"
    for what rs
    by (rule agree_each_must) (rule agree_nft)
  show ?thesis
    unfolding setupBoxNetns_def setup_plan_def append.simps run_plan.simps run_plan_may may
    apply (intro agree_bind agree_append must last)
    apply (simp only: append.simps append_assoc run_plan.simps run_plan_may may)
    apply (intro agree_bind agree_append last agree_each_must)
     apply (rule agree_nft(2) [unfolded append.simps])
    apply (simp only: append.simps append_assoc run_plan.simps run_plan_may may)
    apply (intro agree_bind agree_append last)
    done
qed

text \<open>Setting up a namespace refines the plan: it runs the commands of the plan, in order, stops
  at the first that must succeed and fails, and fails exactly then.\<close>
theorem setup_refines_plan:
  "agree (setupBoxNetns E nc vhIP vgIP vethHost vethGuest netns ports)
     (run_plan E (setup_plan nc vhIP vgIP vethHost vethGuest netns ports))"
  by (rule setup_refines_plan_lemma)

section \<open>What a setup leaves in the log\<close>

lemma exec_trace: "trace (snd (run_state (run_cmd E a) w)) = trace w @ [Exec a]"
  "trace (snd (run_state (try_cmd E a) w)) = trace w @ [Exec a]"
  by (auto simp: run_cmd_def try_cmd_def exec_run_def run_simps split: prod.splits option.splits)

lemma run_plan_trace:
  "\<exists>k. trace (snd (run_state (run_plan E ps) w)) = trace w @ map Exec (map argv_of (take k ps)) \<and>
     (\<not> isl (fst (run_state (run_plan E ps) w)) \<longrightarrow> k = length ps)"
proof (induction ps arbitrary: w)
  case Nil
  show ?case by (simp add: run_simps)
next
  case (Cons p ps)
  let ?v = "snd (run_state (run_cmd E (argv_of p)) w)"
  have v: "snd (run_state (try_cmd E (argv_of p)) w) = ?v"
    by (auto simp: run_cmd_def try_cmd_def run_simps split: prod.splits option.splits)
  obtain k where k: "trace (snd (run_state (run_plan E ps) ?v)) =
      (trace w @ [Exec (argv_of p)]) @ map Exec (map argv_of (take k ps))"
    "\<not> isl (fst (run_state (run_plan E ps) ?v)) \<longrightarrow> k = length ps"
    using Cons.IH [of ?v] exec_trace(1) by auto
  show ?case
  proof (cases p)
    case (May a)
    then show ?thesis using k v
      by (intro exI [of _ "Suc k"]) (auto simp: run_simps split: prod.splits)
  next
    case (Must a)
    show ?thesis
    proof (cases "isl (fst (run_state (run_cmd E a) w))")
      case True
      then show ?thesis
        using Must exec_trace(1) [of E a w]
        by (intro exI [of _ 1]) (auto simp: run_on_error run_simps split: prod.splits sum.splits)
    next
      case False
      then show ?thesis
        using Must k
        by (intro exI [of _ "Suc k"]) (auto simp: run_on_error split: prod.splits sum.splits)
    qed
  qed
qed

lemma setup_commands_lemma:
  "case run_state (setupBoxNetns E nc vhIP vgIP vethHost vethGuest netns ports) w of
     (r, w') \<Rightarrow> \<exists>k. trace w' = trace w @
         map Exec (take k (map argv_of (setup_plan nc vhIP vgIP vethHost vethGuest netns ports))) \<and>
       (isl r \<or> k = length (setup_plan nc vhIP vgIP vethHost vethGuest netns ports))"
proof -
  let ?m = "setupBoxNetns E nc vhIP vgIP vethHost vethGuest netns ports"
  let ?ps = "setup_plan nc vhIP vgIP vethHost vethGuest netns ports"
  have "isl (fst (run_state ?m w)) = isl (fst (run_state (run_plan E ?ps) w))"
    "snd (run_state ?m w) = snd (run_state (run_plan E ?ps) w)"
    using setup_refines_plan_lemma [of E nc vhIP vgIP vethHost vethGuest netns ports]
    by (auto simp: agree_def)
  with run_plan_trace [of E ?ps w] show ?thesis
    by (auto simp: take_map split_beta)
qed

text \<open>The calls of a setup are a prefix of the commands of its plan, and all of them when it
  succeeds: nothing else is run.\<close>
theorem setup_commands:
  "case run_state (setupBoxNetns E nc vhIP vgIP vethHost vethGuest netns ports) w of
     (r, w') \<Rightarrow> \<exists>k. trace w' = trace w @
         map Exec (take k (map argv_of (setup_plan nc vhIP vgIP vethHost vethGuest netns ports))) \<and>
       (isl r \<or> k = length (setup_plan nc vhIP vgIP vethHost vethGuest netns ports))"
  by (rule setup_commands_lemma)

section \<open>The host's chains\<close>

text \<open>
  The rules of a chain of the host's table, read off the log of the commands that succeeded or were
  tried: \<open>add rule\<close> appends, \<open>flush chain\<close> empties (nft(8)).
\<close>

definition rule_head :: "string \<Rightarrow> string list" where
  "rule_head c = [''nft'', ''add'', ''rule'', ''ip'', ''knaller_host'', c]"

definition flush_cmd :: "string \<Rightarrow> string list" where
  "flush_cmd c = [''nft'', ''flush'', ''chain'', ''ip'', ''knaller_host'', c]"

definition chain_step :: "string \<Rightarrow> string list list \<Rightarrow> string list \<Rightarrow> string list list" where
  "chain_step c rs argv =
     (if argv = flush_cmd c then []
      else if take 6 argv = rule_head c then rs @ [drop 6 argv]
      else rs)"

definition chain_after :: "string \<Rightarrow> string list list \<Rightarrow> string list list \<Rightarrow> string list list" where
  "chain_after c rs argvs = foldl (chain_step c) rs argvs"

fun exec_argv :: "event \<Rightarrow> string list option" where
  "exec_argv (Exec a) = Some a"
| "exec_argv _ = None"

definition host_chain :: "string \<Rightarrow> world \<Rightarrow> string list list" where
  "host_chain c w = chain_after c [] (List.map_filter exec_argv (trace w))"

lemma map_filter_Exec: "List.map_filter exec_argv (map Exec as) = as"
  by (induction as) (simp_all add: map_filter_simps)

lemma host_chain_append:
  "trace w' = trace w @ map Exec as \<Longrightarrow> host_chain c w' = chain_after c (host_chain c w) as"
  by (simp add: host_chain_def chain_after_def List.map_filter_def)
    (simp add: map_filter_Exec [unfolded List.map_filter_def, simplified] comp_def)

definition other_chain :: "string \<Rightarrow> string list \<Rightarrow> bool" where
  "other_chain c argv \<longleftrightarrow> argv \<noteq> flush_cmd c \<and> take 6 argv \<noteq> rule_head c"

lemma chain_after_other: "list_all (other_chain c) as \<Longrightarrow> chain_after c rs as = rs"
  by (induction as) (simp_all add: chain_after_def chain_step_def other_chain_def)

lemma chain_after_append: "chain_after c rs (as @ bs) = chain_after c (chain_after c rs as) bs"
  by (simp add: chain_after_def)

lemma chain_after_map:
  "(\<And>x. x \<in> set xs \<Longrightarrow> take 6 (f x) = rule_head c \<and> f x \<noteq> flush_cmd c) \<Longrightarrow>
   chain_after c rs (map f xs) = rs @ map (\<lambda>x. drop 6 (f x)) xs"
  by (induction xs arbitrary: rs) (simp_all add: chain_after_def chain_step_def)

lemma other_ip [simp]: "other_chain c (''ip'' # as)"
  by (simp add: other_chain_def flush_cmd_def rule_head_def)

abbreviation nft_words :: "string \<Rightarrow> string list" where
  "nft_words r \<equiv> ''nft'' # words r"

definition setup_argvs ::
    "networkConfig \<Rightarrow> ipv4 \<Rightarrow> ipv4 \<Rightarrow> string \<Rightarrow> string \<Rightarrow> string \<Rightarrow> PortMapping list \<Rightarrow> string list list" where
  "setup_argvs nc vhIP vgIP vethHost vethGuest netns ports =
     map argv_of (setup_plan nc vhIP vgIP vethHost vethGuest netns ports)"

lemma setup_argvs_parts:
  "\<exists>as. list_all (\<lambda>a. \<exists>bs. a = ''ip'' # bs) as \<and>
     setup_argvs nc vhIP vgIP vethHost vethGuest netns ports =
       as @ host_prepare @ map nft_words hostRules @ map nft_words (perBox nc vhIP vgIP vethHost ports)"
  by (rule exI [of _ "map argv_of (
     [May [''ip'', ''netns'', ''del'', netns], May [''ip'', ''link'', ''del'', vethHost]] @
     map Must (host_commands vhIP vethHost vethGuest netns) @
     map Must (netns_commands nc vhIP vgIP vethGuest netns) @
     [May [''ip'', ''netns'', ''exec'', netns, ''nft'', ''add'', ''table'', ''ip'', ''knaller_box_nat'']] @
     map (\<lambda>ch. May ([''ip'', ''netns'', ''exec'', netns, ''nft''] @ words ch)) box_chains @
     map (\<lambda>r. Must ([''ip'', ''netns'', ''exec'', netns, ''nft''] @ words r)) (natRules nc vethGuest ports))"])
    (auto simp: setup_argvs_def setup_plan_def host_commands_def netns_commands_def list_all_iff comp_def)

lemma host_prepare_chain:
  "chain_after c rs host_prepare = (if c = ''forward'' \<or> c = ''input'' then [] else rs)"
  by (auto simp: host_prepare_def host_chains_def chain_after_def chain_step_def flush_cmd_def rule_head_def)

lemma list_all_concat: "list_all P (concat xss) = list_all (list_all P) xss"
  by (induction xss) simp_all

lemma list_all_map: "list_all P (map f xs) = list_all (\<lambda>x. P (f x)) xs"
  by (induction xs) simp_all

lemma perBox_words:
  assumes "r \<in> set (perBox nc vhIP vgIP vethHost ports)"
  shows "\<exists>c x. c \<in> {''prerouting'', ''output'', ''postrouting''} \<and> nft_words r = rule_head c @ x"
proof -
  have "list_all (\<lambda>r. take 6 (nft_words r) \<in> rule_head ` {''prerouting'', ''output'', ''postrouting''})
      (perBox nc vhIP vgIP vethHost ports)"
    by (simp add: perBox_def Let_def rule_head_def list_all_concat list_all_map list.pred_True)
  with assms have "take 6 (nft_words r) \<in> rule_head ` {''prerouting'', ''output'', ''postrouting''}"
    by (simp add: list_all_iff)
  then obtain c where c: "c \<in> {''prerouting'', ''output'', ''postrouting''}"
    and t: "take 6 (nft_words r) = rule_head c"
    by (elim imageE)
  have "nft_words r = rule_head c @ drop 6 (nft_words r)"
    using append_take_drop_id [of 6 "nft_words r"] by (simp only: t)
  with c show ?thesis by blast
qed

lemma perBox_other:
  assumes "c = ''forward'' \<or> c = ''input''"
  shows "list_all (other_chain c) (map nft_words (perBox nc vhIP vgIP vethHost ports))"
  using assms perBox_words [of _ nc vhIP vgIP vethHost ports]
  by (fastforce simp: list_all_iff other_chain_def rule_head_def flush_cmd_def)

text \<open>The rules that filter what guests may reach, as they stand after any setup.\<close>

definition filter_rules :: "string \<Rightarrow> string list list" where
  "filter_rules c = chain_after c [] (map nft_words hostRules)"

lemma chain_after_setup:
  "chain_after c rs (setup_argvs nc vhIP vgIP vethHost vethGuest netns ports) =
     (if c = ''forward'' \<or> c = ''input'' then filter_rules c
      else chain_after c (chain_after c rs (map nft_words hostRules))
             (map nft_words (perBox nc vhIP vgIP vethHost ports)))"
proof -
  obtain as where as: "list_all (\<lambda>a. \<exists>bs. a = ''ip'' # bs) as"
    "setup_argvs nc vhIP vgIP vethHost vethGuest netns ports =
       as @ host_prepare @ map nft_words hostRules @ map nft_words (perBox nc vhIP vgIP vethHost ports)"
    using setup_argvs_parts [of nc vhIP vgIP vethHost vethGuest netns ports] by blast
  then have "list_all (other_chain c) as" by (auto simp: list_all_iff)
  then show ?thesis
    using chain_after_other [OF perBox_other [of c nc vhIP vgIP vethHost ports]]
    by (simp add: as(2) chain_after_append chain_after_other host_prepare_chain filter_rules_def)
qed

lemma hostRules_nat:
  "c \<noteq> ''forward'' \<Longrightarrow> c \<noteq> ''input'' \<Longrightarrow> chain_after c rs (map nft_words hostRules) = rs"
  by (rule chain_after_other)
    (simp add: hostRules_def other_chain_def flush_cmd_def rule_head_def)

lemma setup_host_chain:
  assumes "run_state (setupBoxNetns E nc vhIP vgIP vethHost vethGuest netns ports) w = (Inr u, w')"
  shows "host_chain c w' =
    chain_after c (host_chain c w) (setup_argvs nc vhIP vgIP vethHost vethGuest netns ports)"
  using setup_commands_lemma [where E = E and nc = nc and vhIP = vhIP and vgIP = vgIP and vethHost = vethHost
    and vethGuest = vethGuest and netns = netns and ports = ports and w = w] assms
  by (intro host_chain_append) (auto simp: setup_argvs_def)


lemma teardown_keeps_lemma:
  "case run_state (teardownBoxNetns E netns vethHost) w of
     (r, w') \<Rightarrow> r = Inr () \<and>
       trace w' = trace w @ [Exec [''ip'', ''netns'', ''del'', netns], Exec [''ip'', ''link'', ''del'', vethHost]] \<and>
       host_chain c w' = host_chain c w"
proof -
  obtain r w' where r: "run_state (teardownBoxNetns E netns vethHost) w = (r, w')" by fastforce
  then have "r = Inr ()" and t: "trace w' = trace w @ map Exec [[''ip'', ''netns'', ''del'', netns], [''ip'', ''link'', ''del'', vethHost]]"
    using exec_trace(2) by (auto simp: teardownBoxNetns_def run_simps split: prod.splits) (metis append.assoc append_Cons append_Nil snd_conv)
  moreover have "host_chain c w' = host_chain c w"
    using host_chain_append [OF t, of c]
      chain_after_other [of c "[[''ip'', ''netns'', ''del'', netns], [''ip'', ''link'', ''del'', vethHost]]"]
    by simp
  ultimately show ?thesis using r by simp
qed

text \<open>Tearing a namespace down runs two commands, neither of which touches the host's table: the
  rules that forward a port to the removed VM stay in place, in front of those of any later VM
  with the same port.\<close>
theorem teardown_keeps_rules:
  "case run_state (teardownBoxNetns E netns vethHost) w of
     (r, w') \<Rightarrow> r = Inr () \<and>
       trace w' = trace w @ [Exec [''ip'', ''netns'', ''del'', netns], Exec [''ip'', ''link'', ''del'', vethHost]] \<and>
       host_chain c w' = host_chain c w"
  by (rule teardown_keeps_lemma)

end
