(* ===== verification/Egress.thy ===== *)
theory Egress
  imports Netns
begin

text \<open>
  What the filter chains of the host's table decide about a guest's traffic. The packet filter
  itself is not part of the program: its verdict on a chain is a parameter, of which \<open>nft_laws\<close>
  says what nft(8) documents about the rules the program writes.
\<close>

section \<open>Rules and packets\<close>

datatype verdict = Accept | Reject

record packet =
  saddr :: ipv4
  daddr :: ipv4
  proto :: string
  dport :: nat
  tracked :: bool

definition parse_octet :: "string \<Rightarrow> byte option" where
  "parse_octet s =
     (case atoi s of None \<Rightarrow> None | Some i \<Rightarrow> if 0 \<le> i \<and> i < 256 then Some (word_of_int i) else None)"

definition parse_ip :: "string \<Rightarrow> ipv4 option" where
  "parse_ip s =
     (case map parse_octet (split_on CHR ''.'' s) of
        [Some a, Some b, Some c, Some d] \<Rightarrow> Some (IPv4 a b c d)
      | _ \<Rightarrow> None)"

text \<open>An address, or a block with its prefix length.\<close>

definition parse_block :: "string \<Rightarrow> (ipv4 \<times> nat) option" where
  "parse_block s =
     (case split_on CHR ''/'' s of
        [a] \<Rightarrow> map_option (\<lambda>i. (i, 32)) (parse_ip a)
      | [a, n] \<Rightarrow> (case (parse_ip a, atoi n) of (Some i, Some k) \<Rightarrow> Some (i, nat k) | _ \<Rightarrow> None)
      | _ \<Rightarrow> None)"

definition in_block :: "ipv4 \<Rightarrow> string \<Rightarrow> bool" where
  "in_block a s = (case parse_block s of None \<Rightarrow> False | Some (b, n) \<Rightarrow> in_cidr a b n)"

text \<open>
  What a rule says of a packet: a verdict, or that it does not match. Rules of other forms than
  those the program writes for its filter chains are not read.
\<close>

fun rule_verdict :: "string list \<Rightarrow> packet \<Rightarrow> verdict option option" where
  "rule_verdict (a # b # c # ts) p =
     (if a = ''ip'' \<and> b = ''saddr'' then
        if in_block (saddr p) c then rule_verdict ts p else Some None
      else if a = ''ip'' \<and> b = ''daddr'' then
        if in_block (daddr p) c then rule_verdict ts p else Some None
      else if (a = ''tcp'' \<or> a = ''udp'') \<and> b = ''dport'' then
        if proto p = a \<and> atoi c = Some (int (dport p)) then rule_verdict ts p else Some None
      else if a = ''ct'' \<and> b = ''state'' \<and> c = ''established,related'' then
        if tracked p then rule_verdict ts p else Some None
      else None)"
| "rule_verdict [a] p =
     (if a = ''accept'' then Some (Some Accept)
      else if a = ''reject'' then Some (Some Reject)
      else None)"
| "rule_verdict _ p = None"

text \<open>
  nft(8): the first rule that matches and has a verdict ends the evaluation of a base chain; a packet
  that reaches its end meets the policy, here \<open>accept\<close>.
\<close>

definition nft_laws :: "(string list list \<Rightarrow> packet \<Rightarrow> verdict) \<Rightarrow> bool" where
  "nft_laws V \<longleftrightarrow>
     (\<forall>p. V [] p = Accept) \<and>
     (\<forall>r rs p. case rule_verdict r p of
        None \<Rightarrow> True
      | Some None \<Rightarrow> V (r # rs) p = V rs p
      | Some (Some v) \<Rightarrow> V (r # rs) p = v)"

text \<open>A filter that does this, and no more than it.\<close>

fun first_match :: "string list list \<Rightarrow> packet \<Rightarrow> verdict" where
  "first_match [] p = Accept"
| "first_match (r # rs) p =
     (case rule_verdict r p of Some (Some v) \<Rightarrow> v | _ \<Rightarrow> first_match rs p)"

lemma first_match_laws: "nft_laws first_match"
  by (auto simp: nft_laws_def split: option.splits)

lemma nft_first_match:
  assumes "nft_laws V" and "list_all (\<lambda>r. rule_verdict r p \<noteq> None) rs"
  shows "V rs p = first_match rs p"
  using assms(2)
proof (induction rs)
  case (Cons r rs)
  then obtain x where x: "rule_verdict r p = Some x" and IH: "V rs p = first_match rs p" by auto
  have "case rule_verdict r p of None \<Rightarrow> True | Some None \<Rightarrow> V (r # rs) p = V rs p
      | Some (Some v) \<Rightarrow> V (r # rs) p = v"
    using assms(1) unfolding nft_laws_def by blast
  with x IH show ?case by (cases x) simp_all
qed (use assms(1) in \<open>simp add: nft_laws_def\<close>)

section \<open>The filter rules, read\<close>

lemma blocks:
  "in_block a ''172.20.0.0/14'' = in_cidr a (IPv4 172 20 0 0) 14"
  "in_block a ''169.254.169.253'' = in_cidr a (IPv4 169 254 169 253) 32"
  "in_block a ''169.254.0.0/16'' = in_cidr a (IPv4 169 254 0 0) 16"
  "in_block a ''10.0.0.0/8'' = in_cidr a (IPv4 10 0 0 0) 8"
  "in_block a ''192.168.0.0/16'' = in_cidr a (IPv4 192 168 0 0) 16"
  "in_block a ''100.64.0.0/10'' = in_cidr a (IPv4 100 64 0 0) 10"
  "in_block a ''224.0.0.0/4'' = in_cidr a (IPv4 224 0 0 0) 4"
  by (simp_all add: in_block_def parse_block_def parse_ip_def parse_octet_def atoi_def signed_digits_def
      digits_to_nat_def int64_range_def undec_def is_digit_def digit_val_def)

lemma forward_rules:
  "filter_rules ''forward'' =
     [[''ct'', ''state'', ''established,related'', ''accept''],
      [''ip'', ''saddr'', ''172.20.0.0/14'', ''ip'', ''daddr'', ''169.254.169.253'', ''udp'', ''dport'', ''53'', ''accept''],
      [''ip'', ''saddr'', ''172.20.0.0/14'', ''ip'', ''daddr'', ''169.254.169.253'', ''tcp'', ''dport'', ''53'', ''accept'']] @
     map (\<lambda>d. [''ip'', ''saddr'', ''172.20.0.0/14'', ''ip'', ''daddr'', d, ''reject''])
       [''169.254.0.0/16'', ''10.0.0.0/8'', ''192.168.0.0/16'', ''100.64.0.0/10'', ''224.0.0.0/4'', ''172.20.0.0/14'']"
  by (simp add: filter_rules_def hostRules_def chain_after_def chain_step_def flush_cmd_def rule_head_def)

lemma input_rules:
  "filter_rules ''input'' =
     [[''ct'', ''state'', ''established,related'', ''accept''],
      [''ip'', ''saddr'', ''172.20.0.0/14'', ''reject'']]"
  by (simp add: filter_rules_def hostRules_def chain_after_def chain_step_def flush_cmd_def rule_head_def)


lemma forward_verdict:
  assumes "nft_laws V"
  shows "V (filter_rules ''forward'') p =
    (if tracked p then Accept
     else if \<not> in_cidr (saddr p) (IPv4 172 20 0 0) 14 then Accept
     else if in_cidr (daddr p) (IPv4 169 254 169 253) 32 \<and> proto p \<in> {''udp'', ''tcp''} \<and> dport p = 53
       then Accept
     else if in_cidr (daddr p) (IPv4 169 254 0 0) 16 \<or> in_cidr (daddr p) (IPv4 10 0 0 0) 8 \<or>
        in_cidr (daddr p) (IPv4 192 168 0 0) 16 \<or> in_cidr (daddr p) (IPv4 100 64 0 0) 10 \<or>
        in_cidr (daddr p) (IPv4 224 0 0 0) 4 \<or> in_cidr (daddr p) (IPv4 172 20 0 0) 14
       then Reject
     else Accept)" (is "_ = ?rhs")
proof -
  have port: "atoi ''53'' = Some 53"
    by (simp add: atoi_def signed_digits_def digits_to_nat_def int64_range_def undec_def is_digit_def digit_val_def)
  have "list_all (\<lambda>r. rule_verdict r p \<noteq> None) (filter_rules ''forward'')"
    by (simp add: forward_rules)
  moreover have "first_match (filter_rules ''forward'') p = ?rhs"
    by (simp add: forward_rules blocks port)
  ultimately show ?thesis using assms by (simp add: nft_first_match)
qed

lemma input_verdict:
  assumes "nft_laws V"
  shows "V (filter_rules ''input'') p =
    (if tracked p then Accept else if in_cidr (saddr p) (IPv4 172 20 0 0) 14 then Reject else Accept)"
  using nft_first_match [OF assms, of p "filter_rules ''input''"] by (simp add: input_rules blocks)


section \<open>What guests can reach\<close>

definition private_block :: "ipv4 \<Rightarrow> bool" where
  "private_block a \<longleftrightarrow>
     in_cidr a (IPv4 10 0 0 0) 8 \<or> in_cidr a (IPv4 172 16 0 0) 12 \<or> in_cidr a (IPv4 192 168 0 0) 16"

definition guest_packet :: "packet \<Rightarrow> bool" where
  "guest_packet p \<longleftrightarrow> in_cidr (saddr p) (IPv4 172 20 0 0) 14 \<and> \<not> tracked p"

definition dns_packet :: "packet \<Rightarrow> bool" where
  "dns_packet p \<longleftrightarrow>
     daddr p = IPv4 169 254 169 253 \<and> proto p \<in> {''udp'', ''tcp''} \<and> dport p = 53"

lemma in_cidr_32: "in_cidr a b 32 \<longleftrightarrow> a = b"
  by (auto simp: in_cidr_def dest: ip_nat_inject)

lemma in_cidr_8: "in_cidr a (IPv4 x 0 0 0) 8 \<longleftrightarrow> oct1 a = x"
proof -
  have "ip_nat b div 16777216 = unat (oct1 b)" for b
  proof -
    have "ip_nat b div 16777216 = ip_nat b div 65536 div 256" by (simp flip: div_mult2_eq)
    then show ?thesis using oct_bounds [of b] by (simp add: ip_nat_high)
  qed
  then show ?thesis by (simp add: in_cidr_def word_unat_eq_iff)
qed

lemma in_cidr_12:
  "in_cidr a (IPv4 x y 0 0) 12 \<longleftrightarrow> oct1 a = x \<and> unat (oct2 a) div 16 = unat y div 16"
proof -
  have d: "ip_nat b div 1048576 = unat (oct1 b) * 16 + unat (oct2 b) div 16" for b
  proof -
    have "ip_nat b div 1048576 = ip_nat b div 65536 div 16" by (simp flip: div_mult2_eq)
    also have "\<dots> = unat (oct1 b) * 16 + unat (oct2 b) div 16"
      unfolding ip_nat_high by presburger
    finally show ?thesis .
  qed
  have "unat z div 16 < 16" for z :: byte using unat_byte_less [of z] by (simp add: less_mult_imp_div_less)
  then show ?thesis by (simp add: in_cidr_def d digits_256_eq word_unat_eq_iff)
qed

lemma in_cidr_10:
  "in_cidr a (IPv4 x y 0 0) 10 \<longleftrightarrow> oct1 a = x \<and> unat (oct2 a) div 64 = unat y div 64"
proof -
  have d: "ip_nat b div 4194304 = unat (oct1 b) * 4 + unat (oct2 b) div 64" for b
  proof -
    have "ip_nat b div 4194304 = ip_nat b div 65536 div 64" by (simp flip: div_mult2_eq)
    also have "\<dots> = unat (oct1 b) * 4 + unat (oct2 b) div 64"
      unfolding ip_nat_high by presburger
    finally show ?thesis .
  qed
  have "unat z div 64 < 4" for z :: byte using unat_byte_less [of z] by (simp add: less_mult_imp_div_less)
  then show ?thesis by (simp add: in_cidr_def d digits_256_eq word_unat_eq_iff)
qed

lemma in_cidr_4: "in_cidr a (IPv4 x 0 0 0) 4 \<longleftrightarrow> unat (oct1 a) div 16 = unat x div 16"
proof -
  have "ip_nat b div 268435456 = unat (oct1 b) div 16" for b
  proof -
    have "ip_nat b div 268435456 = ip_nat b div 65536 div 4096" by (simp flip: div_mult2_eq)
    then show ?thesis using oct_bounds [of b] by (simp add: ip_nat_high)
  qed
  then show ?thesis by (simp add: in_cidr_def)
qed

lemma filter_after_setup:
  assumes "run_state (setupBoxNetns E nc vhIP vgIP vethHost vethGuest netns ports) w = (Inr u, w')"
  shows "host_chain ''forward'' w' = filter_rules ''forward''"
    and "host_chain ''input'' w' = filter_rules ''input''"
  by (simp_all add: setup_host_chain [OF assms] chain_after_setup)


text \<open>The private addresses a guest can open connections to are exactly those of 172.16.0.0/12
  outside 172.20.0.0/14: the filter covers only the quarter of that RFC 1918 block that holds the
  veth links.\<close>
theorem private_addresses_open:
  assumes "nft_laws V" and "guest_packet p"
    and "run_state (setupBoxNetns E nc vhIP vgIP vethHost vethGuest netns ports) w = (Inr u, w')"
  shows "private_block (daddr p) \<and> V (host_chain ''forward'' w') p = Accept \<longleftrightarrow>
    in_cidr (daddr p) (IPv4 172 16 0 0) 12 \<and> \<not> in_cidr (daddr p) (IPv4 172 20 0 0) 14"
  using assms(2) unfolding filter_after_setup [OF assms(3)]
  by (auto simp: forward_verdict [OF assms(1)] guest_packet_def private_block_def
      in_cidr_32 in_cidr_16 in_cidr_8 in_cidr_12 in_cidr_10 in_cidr_4)

section \<open>An environment where the setup succeeds\<close>

lemma calm_plan: "\<exists>w'. run_state (run_plan calm_env ps) w = (Inr (), w')"
proof (induction ps arbitrary: w)
  case (Cons p ps)
  then show ?case
    by (cases p) (simp_all add: run_cmd_def try_cmd_def exec_run_def run_simps)
qed (simp add: run_simps)

lemma calm_setup:
  obtains w' where
    "run_state (setupBoxNetns calm_env nc vhIP vgIP vethHost vethGuest netns ports) w = (Inr (), w')"
proof -
  obtain r w' where r: "run_state (setupBoxNetns calm_env nc vhIP vgIP vethHost vethGuest netns ports) w = (r, w')"
    by fastforce
  have "isl r = isl (fst (run_state (run_plan calm_env
      (setup_plan nc vhIP vgIP vethHost vethGuest netns ports)) w))"
    using setup_refines_plan_lemma [of calm_env nc vhIP vgIP vethHost vethGuest netns ports] r
    by (auto simp: agree_def dest!: spec [of _ w])
  then have "\<not> isl r" using calm_plan [of "setup_plan nc vhIP vgIP vethHost vethGuest netns ports" w] by auto
  with r that show thesis by (cases r) auto
qed

definition web_packet :: "ipv4 \<Rightarrow> packet" where
  "web_packet d = \<lparr> saddr = IPv4 172 20 3 2, daddr = d, proto = ''tcp'', dport = 80, tracked = False \<rparr>"

lemma web_packet_guest: "guest_packet (web_packet d)"
  by (simp add: guest_packet_def web_packet_def in_cidr_14)


lemma private_addresses_open_witness:
  "\<exists>w'. run_state (setupBoxNetns calm_env (deriveNetwork ''db'') (vethHostIP ''db'') (vethGuestIP ''db'')
      ''vh-2'' ''vg-2'' ''kn-2'' []) empty_world = (Inr (), w') \<and>
     first_match (host_chain ''forward'' w') (web_packet (IPv4 172 17 0 1)) = Accept \<and>
     private_block (IPv4 172 17 0 1)"
proof -
  obtain w' where w': "run_state (setupBoxNetns calm_env (deriveNetwork ''db'') (vethHostIP ''db'')
      (vethGuestIP ''db'') ''vh-2'' ''vg-2'' ''kn-2'' []) empty_world = (Inr (), w')"
    by (rule calm_setup)
  with private_addresses_open [OF first_match_laws web_packet_guest w', of "IPv4 172 17 0 1"]
  show ?thesis
    by (simp add: web_packet_def in_cidr_12 in_cidr_14)
qed

end
