(* ===== verification/Dns.thy ===== *)
theory Dns
  imports Network Logic
begin

text \<open>
  Name servers for the guest (\<open>hostNameservers\<close>, \<open>resolvedUpstreams\<close> of \<open>disk.go\<close>), the kernel
  command line they end up in, and the reader of its \<open>ip=\<close> argument (\<open>parseGuestIP\<close> of \<open>vm.go\<close>).
\<close>

section \<open>Reading lines\<close>

text \<open>
  \<open>bufio.Scanner\<close> over lines: the last line may lack its line feed, a carriage return before it is
  dropped, and a line of 65536 bytes or more ends the scan.
\<close>

definition strip_cr :: "string \<Rightarrow> string" where
  "strip_cr l = trim_suffix l [CHR 0x0D]"

definition scan_lines :: "string \<Rightarrow> string list" where
  "scan_lines s =
     (let ls = split_on (CHR 0x0A) s;
          ls' = (if last ls = [] then butlast ls else ls)
      in map strip_cr (takeWhile (\<lambda>l. length l < 65536) ls'))"

section \<open>Name servers\<close>

definition resolv_conf :: string where
  "resolv_conf = ''/etc/resolv.conf''"

text \<open>\<open>os.Open\<close> and what can be read from it; a directory opens but gives no data.\<close>

definition os_Open :: "env \<Rightarrow> string \<Rightarrow> string go" where
  "os_Open E p = os_read E (ReadFile p) (\<lambda>fs.
     case fs_lookup fs p of
       None \<Rightarrow> Inl (missing fs p)
     | Some Socket \<Rightarrow> Inl ENXIO
     | Some Dir \<Rightarrow> Inr []
     | Some (File d) \<Rightarrow> Inr d)"

definition stub_address :: "string \<Rightarrow> bool" where
  "stub_address a \<longleftrightarrow> a = ''127.0.0.53'' \<or> a = ''127.0.0.1'' \<or> a = ''::1''"

definition nameserver_of :: "string \<Rightarrow> string option" where
  "nameserver_of text =
     (let line = trim_space text in
      if has_prefix line ''nameserver '' then
        (let addr = trim_space (trim_prefix line ''nameserver'') in
         if stub_address addr then None else Some addr)
      else None)"

definition upstreams_of :: "string \<Rightarrow> string list" where
  "upstreams_of line =
     (case index_of line ''):'' of
        None \<Rightarrow> []
      | Some idx \<Rightarrow> filter (\<lambda>addr. \<not> contains addr '':'') (Fields (drop (idx + 2) line)))"

definition resolvedUpstreams :: "env \<Rightarrow> string list prog" where
  "resolvedUpstreams E = do {
     (out, e) \<leftarrow> exec_run E [''resolvectl'', ''dns''];
     ret (if e \<noteq> None then [] else concat (map upstreams_of (split_on (CHR 0x0A) out)))
   }"

definition hostNameservers :: "env \<Rightarrow> string list prog" where
  "hostNameservers E =
     on_error (os_Open E resolv_conf) (\<lambda>_. ret []) (\<lambda>text. do {
       let ns = List.map_filter nameserver_of (scan_lines text);
       ns \<leftarrow> (if ns = [] then resolvedUpstreams E else ret ns);
       ret (if ns = [] then [''1.1.1.1'', ''8.8.8.8''] else ns)
     })"

section \<open>The kernel command line\<close>

definition run_boot_args :: "networkConfig \<Rightarrow> string list \<Rightarrow> string" where
  "run_boot_args nc dns = ''reboot=k panic=1 net.ifnames=0 '' @ bootArgsIP nc dns"

definition direct_boot_args :: "networkConfig \<Rightarrow> string list \<Rightarrow> string" where
  "direct_boot_args nc dns = ''console=ttyS0 reboot=k panic=1 net.ifnames=0 '' @ bootArgsIP nc dns"

fun first_ip :: "string list \<Rightarrow> string" where
  "first_ip [] = []"
| "first_ip (arg # args) =
     (if has_prefix arg ''ip='' then hd (split_n2 (trim_prefix arg ''ip='') ''::'')
      else first_ip args)"

definition parseGuestIP :: "string \<Rightarrow> string" where
  "parseGuestIP bootArgs = first_ip (Fields bootArgs)"

section \<open>Lemmas\<close>

lemma calls_hostNameservers [extends_intros]:
  assumes "P (ReadFile resolv_conf)" "P (Exec [''resolvectl'', ''dns''])"
  shows "calls P (hostNameservers E)"
proof -
  have "calls P (os_Open E p)" if "P (ReadFile p)" for p
    using that by (auto intro: calls_one simp: os_Open_def)
  with assms show ?thesis
    unfolding hostNameservers_def resolvedUpstreams_def Let_def by (intro extends_intros) auto
qed

lemma split_by_prefix:
  "\<forall>c \<in> set a. \<not> P c \<Longrightarrow>
   split_by P (a @ b) = (a @ hd (split_by P b)) # tl (split_by P b)"
  by (induction a) simp_all

lemma ip_string_chars: "c \<in> set (ip_string a) \<Longrightarrow> is_digit c \<or> c = CHR ''.''"
  by (auto simp: ip_string_def dest: dec_digits)

lemma ip_string_no_colon: "CHR '':'' \<notin> set (ip_string a)"
  using ip_string_chars by fastforce

lemma ip_string_no_space: "c \<in> set (ip_string a) \<Longrightarrow> \<not> is_space c"
  by (auto dest!: ip_string_chars simp: not_space_digit) (simp add: is_space_def)

lemma bootArgsIP_shape:
  "\<exists>t. bootArgsIP nc dns =
     (''ip='' @ ip_string (GuestIP nc) @ ''::'' @ ip_string (HostIP nc) @
      '':255.255.255.252::eth0:off'') @ t"
  unfolding bootArgsIP_def Let_def by (auto intro: exI [of _ "[]"])

lemma first_ip_bootArgs: "first_ip (Fields (bootArgsIP nc dns)) = ip_string (GuestIP nc)"
proof -
  let ?g = "ip_string (GuestIP nc)"
  let ?h = "ip_string (HostIP nc) @ '':255.255.255.252::eth0:off''"
  obtain t where t: "bootArgsIP nc dns = (''ip='' @ ?g @ ''::'' @ ?h) @ t"
    using bootArgsIP_shape [of nc dns] by auto
  have "\<forall>c \<in> set (''ip='' @ ?g @ ''::'' @ ?h). \<not> is_space c"
    using ip_string_no_space by (auto simp: is_space_def)
  then have "Fields (bootArgsIP nc dns) =
      (''ip='' @ ?g @ ''::'' @ (?h @ hd (split_by is_space t))) #
      filter (\<lambda>w. w \<noteq> []) (tl (split_by is_space t))"
    unfolding t Fields_def by (subst split_by_prefix) simp_all
  moreover have "cut (?g @ CHR '':'' # '':'' @ u) (CHR '':'' # '':'') = Some (?g, u)" for u
    by (rule cut_append) (rule ip_string_no_colon)
  ultimately show ?thesis
    by (simp add: split_n2_def trim_prefix_def)
qed

lemma Fields_skip:
  "w \<noteq> [] \<Longrightarrow> \<forall>c \<in> set w. \<not> is_space c \<Longrightarrow> Fields (w @ CHR '' '' # b) = w # Fields b"
  by (simp add: Fields_append_space Fields_word)

section \<open>Properties\<close>

text \<open>C37: The guest address is recovered from the command lines both ways of starting a VM build,
  whatever name servers are appended to it.\<close>
theorem guest_ip_round_trip:
  "parseGuestIP (run_boot_args nc dns) = ip_string (GuestIP nc) \<and>
   parseGuestIP (direct_boot_args nc dns) = ip_string (GuestIP nc)"
proof -
  have w: "Fields (''reboot=k panic=1 net.ifnames=0 '' @ b) =
      ''reboot=k'' # ''panic=1'' # ''net.ifnames=0'' # Fields b" for b
    using Fields_skip [of "''reboot=k''" "''panic=1 net.ifnames=0 '' @ b"]
      Fields_skip [of "''panic=1''" "''net.ifnames=0 '' @ b"]
      Fields_skip [of "''net.ifnames=0''" b]
    by (simp add: is_space_def)
  moreover have "Fields (''console=ttyS0 '' @ b) = ''console=ttyS0'' # Fields b" for b
    using Fields_skip [of "''console=ttyS0''" b] by (simp add: is_space_def)
  from this [of "''reboot=k panic=1 net.ifnames=0 '' @ b" for b]
  have "Fields (''console=ttyS0 reboot=k panic=1 net.ifnames=0 '' @ b) =
      ''console=ttyS0'' # ''reboot=k'' # ''panic=1'' # ''net.ifnames=0'' # Fields b" for b
    by (simp add: w [simplified])
  ultimately show ?thesis
    by (simp only: parseGuestIP_def run_boot_args_def direct_boot_args_def)
      (simp add: first_ip_bootArgs)
qed

text \<open>What a read of \<open>/etc/resolv.conf\<close> gives, or \<open>None\<close> when it cannot be opened.\<close>

definition resolv_text :: "env \<Rightarrow> world \<Rightarrow> string option" where
  "resolv_text E w =
     (case fst (run_state (os_Open E resolv_conf) w) of Inl _ \<Rightarrow> None | Inr t \<Rightarrow> Some t)"

lemma nameserver_of_not_stub: "nameserver_of l = Some a \<Longrightarrow> \<not> stub_address a"
  by (auto simp: nameserver_of_def Let_def split: if_splits)

lemma upstreams_no_colon: "a \<in> set (upstreams_of l) \<Longrightarrow> CHR '':'' \<notin> set a"
  by (auto simp: upstreams_of_def contains_one split: option.splits)

lemma set_map_filter: "a \<in> set (List.map_filter f xs) \<longleftrightarrow> (\<exists>x \<in> set xs. f x = Some a)"
  by (induction xs) (auto simp: map_filter_simps split: option.splits)

text \<open>When the resolver configuration can be opened the guest always gets a name server, never
  one of the host's own loopback addresses read from it; \<open>resolvectl\<close> is asked exactly when it
  names no other, and what it answers has no IPv6 address. When the file cannot be opened the guest
  gets none, without the fallback.\<close>
theorem nameservers_found:
  "case run_state (hostNameservers E) w of
     (ns, w') \<Rightarrow>
       (case resolv_text E w of
          None \<Rightarrow> ns = [] \<and> trace w' = trace w @ [ReadFile resolv_conf]
        | Some t \<Rightarrow>
            ns \<noteq> [] \<and>
            (if List.map_filter nameserver_of (scan_lines t) = []
             then trace w' = trace w @ [ReadFile resolv_conf, Exec [''resolvectl'', ''dns'']] \<and>
                  list_all (\<lambda>a. CHR '':'' \<notin> set a) ns
             else trace w' = trace w @ [ReadFile resolv_conf] \<and>
                  list_all (\<lambda>a. \<not> stub_address a) ns))"
proof -
  obtain r v where o: "run_state (os_Open E resolv_conf) w = (r, v)" by fastforce
  have v: "trace v = trace w @ [ReadFile resolv_conf]"
    using arg_cong [OF o, of "\<lambda>x. trace (snd x)"] by (simp add: os_Open_def)
  show ?thesis
  proof (cases r)
    case (Inl e)
    then show ?thesis by (simp add: hostNameservers_def resolv_text_def run_simps o v)
  next
    case (Inr t)
    obtain out e v' where x: "run_state (exec_run E [''resolvectl'', ''dns'']) v = ((out, e), v')"
      by (cases "run_state (exec_run E [''resolvectl'', ''dns'']) v") auto
    have v': "trace v' = trace v @ [Exec [''resolvectl'', ''dns'']]"
      using trace_env(1) [of E "[''resolvectl'', ''dns'']" v] by (simp add: x)
    define up where "up = (if e \<noteq> None then [] else concat (map upstreams_of (split_on (CHR 0x0A) out)))"
    have ups: "list_all (\<lambda>a. CHR '':'' \<notin> set a) (if up = [] then [''1.1.1.1'', ''8.8.8.8''] else up)"
      unfolding up_def list_all_iff using upstreams_no_colon by (auto split: if_splits)
    have res: "run_state (resolvedUpstreams E) v = (up, v')"
      by (simp add: resolvedUpstreams_def run_simps x up_def)
    define ns0 where "ns0 = List.map_filter nameserver_of (scan_lines t)"
    have own: "list_all (\<lambda>a. \<not> stub_address a) ns0"
      by (auto simp: ns0_def list_all_iff set_map_filter nameserver_of_not_stub)
    have t: "resolv_text E w = Some t" by (simp add: resolv_text_def o Inr)
    show ?thesis
    proof (cases "ns0 = []")
      case True
      then show ?thesis
        using ups by (simp add: hostNameservers_def run_simps o Inr t res v v' flip: ns0_def)
    next
      case False
      then show ?thesis
        using own by (simp add: hostNameservers_def run_simps o Inr t v flip: ns0_def)
    qed
  qed
qed

text \<open>
  Two forms a resolver configuration may have are read in unexpected ways: an IPv6 name server is
  kept, although its colons end up in the colon-separated \<open>ip=\<close> argument, and a line that has a
  tabulator after the keyword is not seen.
\<close>

lemma nameserver_forms:
  "nameserver_of ''nameserver fd00::1'' = Some ''fd00::1''"
  "nameserver_of (''nameserver'' @ [CHR 0x09] @ ''10.0.0.1'') = None"
  by (simp_all add: nameserver_of_def trim_space_def trim_prefix_def stub_address_def is_space_def)

end
