(* ===== verification/Forward.thy ===== *)
theory Forward
  imports Egress Dns
begin

text \<open>
  Where the NAT chains of direct mode send a connection: the chains of the host's table, to which
  every setup adds the rules of its VM, and those of the VM's own namespace. As in \<open>Egress\<close> the
  packet filter is a parameter, and \<open>dnat_laws\<close> says what nft(8) documents about these rules.
\<close>

section \<open>Rules\<close>

text \<open>An address with a port.\<close>

definition read_target :: "string \<Rightarrow> (ipv4 \<times> int) option" where
  "read_target s =
     (case split_on CHR '':'' s of
        [a, n] \<Rightarrow> (case (parse_ip a, atoi n) of (Some i, Some k) \<Rightarrow> Some (i, k) | _ \<Rightarrow> None)
      | _ \<Rightarrow> None)"

text \<open>
  What a rule makes of a connection: a new destination, or nothing when it does not match; rules of
  other forms are not read.
\<close>

fun rule_target :: "string list \<Rightarrow> packet \<Rightarrow> (ipv4 \<times> int) option option" where
  "rule_target [t, d, n, v, u, a] p =
     (if t = ''tcp'' \<and> d = ''dport'' \<and> v = ''dnat'' \<and> u = ''to'' then
        if proto p = ''tcp'' \<and> atoi n = Some (int (dport p)) then map_option Some (read_target a)
        else Some None
      else None)"
| "rule_target _ p = None"

text \<open>nft(8): the first rule that matches decides the destination; without one it is kept.\<close>

definition dnat_laws :: "(string list list \<Rightarrow> packet \<Rightarrow> (ipv4 \<times> int) option) \<Rightarrow> bool" where
  "dnat_laws V \<longleftrightarrow>
     (\<forall>p. V [] p = None) \<and>
     (\<forall>r rs p. case rule_target r p of
        None \<Rightarrow> True
      | Some None \<Rightarrow> V (r # rs) p = V rs p
      | Some (Some t) \<Rightarrow> V (r # rs) p = Some t)"

fun first_target :: "string list list \<Rightarrow> packet \<Rightarrow> (ipv4 \<times> int) option" where
  "first_target [] p = None"
| "first_target (r # rs) p =
     (case rule_target r p of Some (Some t) \<Rightarrow> Some t | _ \<Rightarrow> first_target rs p)"

lemma first_target_laws: "dnat_laws first_target"
  by (auto simp: dnat_laws_def split: option.splits)

lemma dnat_laws_Cons:
  "dnat_laws V \<Longrightarrow> rule_target r p = Some None \<Longrightarrow> V (r # rs) p = V rs p"
  "dnat_laws V \<Longrightarrow> rule_target r p = Some (Some t) \<Longrightarrow> V (r # rs) p = Some t"
  unfolding dnat_laws_def by (elim conjE, drule spec [of _ r], drule spec [of _ rs], drule spec [of _ p], simp)+

lemma dnat_laws_Nil: "dnat_laws V \<Longrightarrow> V [] p = None"
  by (simp add: dnat_laws_def)

text \<open>A chain that can be read is decided by its first part, and by the rest if that does not match.\<close>

definition readable :: "string list list \<Rightarrow> bool" where
  "readable rs \<longleftrightarrow> (\<forall>r \<in> set rs. \<forall>p. rule_target r p \<noteq> None)"

lemma chain_append:
  assumes "dnat_laws V" and "readable rs"
  shows "V (rs @ ss) p = (case V rs p of Some t \<Rightarrow> Some t | None \<Rightarrow> V ss p)"
  using assms(2)
proof (induction rs)
  case (Cons r rs)
  obtain x where x: "rule_target r p = Some x" using Cons.prems unfolding readable_def by fastforce
  have IH: "V (rs @ ss) p = (case V rs p of Some t \<Rightarrow> Some t | None \<Rightarrow> V ss p)"
    by (rule Cons.IH) (use Cons.prems in \<open>simp add: readable_def\<close>)
  show ?case
  proof (cases x)
    case None
    then show ?thesis using dnat_laws_Cons(1) [OF assms(1)] x IH by simp
  next
    case (Some t)
    then show ?thesis using dnat_laws_Cons(2) [OF assms(1)] x by simp
  qed
qed (simp add: dnat_laws_Nil [OF assms(1)])

section \<open>Reading addresses\<close>

lemma int64_small: "0 \<le> i \<Longrightarrow> i < 65536 \<Longrightarrow> int64_range i"
  by (simp add: int64_range_def)

lemma parse_octet_dec [simp]: "parse_octet (dec (unat (b :: byte))) = Some b"
proof -
  have u: "0 \<le> uint b" "uint b < 256" using uint_bounded [of b] by simp_all
  have "dec (unat b) = itoa (uint b)" using u(1) by (simp add: itoa_def)
  moreover have "int64_range (uint b)" using u by (intro int64_small) simp_all
  ultimately show ?thesis using u by (simp add: parse_octet_def atoi_itoa)
qed

lemma split_dec:
  "c \<notin> set (dec n) \<Longrightarrow> split_on c (dec n @ c # s) = dec n # split_on c s"
  "c \<notin> set (dec n) \<Longrightarrow> split_on c (dec n) = [dec n]"
  by (rule split_by_append, auto) (rule split_by_no, auto)

lemma parse_ip_string [simp]: "parse_ip (ip_string a) = Some a"
  by (cases a) (simp add: parse_ip_def ip_string_def split_dec)

definition target_text :: "ipv4 \<Rightarrow> int \<Rightarrow> string" where
  "target_text a n = ip_string a @ '':'' @ itoa n"

lemma colon_itoa: "CHR '':'' \<notin> set (itoa n)" "CHR '' '' \<notin> set (itoa n)"
  by (simp_all add: itoa_def)

lemma read_target_text: "int64_range n \<Longrightarrow> read_target (target_text a n) = Some (a, n)"
proof -
  assume n: "int64_range n"
  have "split_on CHR '':'' (ip_string a @ CHR '':'' # itoa n) = ip_string a # split_on CHR '':'' (itoa n)"
    by (rule split_by_append) (auto simp: ip_string_no_colon)
  moreover have "split_on CHR '':'' (itoa n) = [itoa n]"
    by (rule split_by_no) (auto simp: colon_itoa)
  ultimately show ?thesis using n by (simp add: read_target_def target_text_def atoi_itoa)
qed

definition dnat_rule :: "int \<Rightarrow> ipv4 \<Rightarrow> int \<Rightarrow> string list" where
  "dnat_rule h a g = [''tcp'', ''dport'', itoa h, ''dnat'', ''to'', target_text a g]"

lemma rule_target_dnat:
  assumes "int64_range h" and "int64_range g"
  shows "rule_target (dnat_rule h a g) p =
    Some (if proto p = ''tcp'' \<and> h = int (dport p) then Some (a, g) else None)"
  using assms by (auto simp: dnat_rule_def read_target_text atoi_itoa)

section \<open>The chains of the host\<close>

text \<open>nft(8) reads the words of its arguments, so that empty ones have no meaning.\<close>

definition nat_chain :: "string \<Rightarrow> world \<Rightarrow> string list list" where
  "nat_chain c w = map (filter (\<lambda>x. x \<noteq> [])) (host_chain c w)"

definition nat_hook :: "string \<Rightarrow> bool" where
  "nat_hook c \<longleftrightarrow> c = ''prerouting'' \<or> c = ''output''"

text \<open>The ports that lead to a VM: its SSH port and those it was given.\<close>

definition ways_in :: "networkConfig \<Rightarrow> PortMapping list \<Rightarrow> PortMapping list" where
  "ways_in nc ports = \<lparr> Host = SSHPort nc, Guest = 22 \<rparr> # ports"

lemma words_target: "words (target_text a g) = [target_text a g]"
  by (rule split_by_no)
    (auto simp: target_text_def colon_itoa dest: ip_string_no_space simp: is_space_def)

lemma words_rule:
  "words (itoa h @ '' dnat to '' @ target_text a g) = [itoa h, ''dnat'', ''to'', target_text a g]"
proof -
  have "\<forall>c \<in> set (itoa h). c \<noteq> CHR '' ''" using colon_itoa(2) [of h] by blast
  from split_by_append [OF this refl, of "''dnat to '' @ target_text a g"] show ?thesis
    by (simp add: words_target)
qed

lemma itoa_22: "itoa 22 = ''22''"
  by code_simp

lemma not_empty [simp]: "itoa i \<noteq> []" "target_text a g \<noteq> []"
  by (simp_all add: itoa_def target_text_def)

text \<open>What a chain that does not exist yet holds after commands that add rules to it.\<close>

definition clean :: "string list list \<Rightarrow> string list list" where
  "clean rs = map (filter (\<lambda>x. x \<noteq> [])) rs"

lemma clean_append [simp]: "clean (rs @ ss) = clean rs @ clean ss"
  by (simp add: clean_def)

definition box_pair :: "int \<Rightarrow> ipv4 \<Rightarrow> int \<Rightarrow> string list" where
  "box_pair h a g =
     [''add rule ip knaller_host prerouting tcp dport '' @ itoa h @ '' dnat to '' @ target_text a g,
      ''add rule ip knaller_host output    tcp dport '' @ itoa h @ '' dnat to '' @ target_text a g]"

lemma chain_after_pair:
  "nat_hook c \<Longrightarrow> clean (chain_after c rs (map nft_words (box_pair h a g))) = clean rs @ [dnat_rule h a g]"
  using words_rule [of h a g]
  by (auto simp: nat_hook_def box_pair_def clean_def chain_after_def chain_step_def flush_cmd_def rule_head_def dnat_rule_def)

lemma chain_after_pairs:
  "nat_hook c \<Longrightarrow>
   clean (chain_after c rs (map nft_words (concat (map (\<lambda>m. box_pair (Host m) a (Guest m)) ms)))) =
   clean rs @ map (\<lambda>m. dnat_rule (Host m) a (Guest m)) ms"
  by (induction ms arbitrary: rs) (simp add: chain_after_def, simp add: chain_after_append chain_after_pair)

definition box_last :: "ipv4 \<Rightarrow> string \<Rightarrow> string" where
  "box_last vhIP vethHost =
     ''add rule ip knaller_host postrouting ip saddr '' @ ip_string (ipBase30 vhIP) @ ''/30 oifname != '' @
       [CHR 0x22] @ vethHost @ [CHR 0x22] @ '' masquerade''"

lemma perBox_pairs:
  "perBox nc vhIP vgIP vethHost ports =
   concat (map (\<lambda>m. box_pair (Host m) vgIP (Guest m)) (ways_in nc ports)) @ [box_last vhIP vethHost]"
  by (simp add: perBox_def Let_def ways_in_def box_pair_def box_last_def target_text_def itoa_22)

lemma chain_after_last: "nat_hook c \<Longrightarrow> chain_after c rs (map nft_words [box_last vhIP vethHost]) = rs"
  by (auto simp: box_last_def nat_hook_def chain_after_def chain_step_def flush_cmd_def rule_head_def)

lemma nat_chain_setup:
  assumes "nat_hook c"
    and "run_state (setupBoxNetns E nc vhIP vgIP vethHost vethGuest netns ports) w = (Inr u, w')"
  shows "nat_chain c w' = nat_chain c w @ map (\<lambda>m. dnat_rule (Host m) vgIP (Guest m)) (ways_in nc ports)"
proof -
  have c: "c \<noteq> ''forward''" "c \<noteq> ''input''" using assms(1) by (auto simp: nat_hook_def)
  have "host_chain c w' = chain_after c (host_chain c w) (map nft_words (perBox nc vhIP vgIP vethHost ports))"
    using setup_host_chain [OF assms(2), of c] by (simp add: chain_after_setup c hostRules_nat)
  then show ?thesis
    unfolding perBox_pairs map_append chain_after_append chain_after_last [OF assms(1)] nat_chain_def clean_def [symmetric]
    using chain_after_pairs [OF assms(1)] by simp
qed

section \<open>The chains of the VM's namespace\<close>

text \<open>The rules a list of commands adds to a chain of the namespace, which a setup has just made.\<close>

definition chain_part :: "string \<Rightarrow> string list \<Rightarrow> string list list" where
  "chain_part c rs = map (drop 5)
     (filter (\<lambda>ws. take 5 ws = [''add'', ''rule'', ''ip'', ''knaller_box_nat'', c]) (clean (map words rs)))"

definition box_chain :: "string \<Rightarrow> networkConfig \<Rightarrow> string \<Rightarrow> PortMapping list \<Rightarrow> string list list" where
  "box_chain c nc vethGuest ports = chain_part c (natRules nc vethGuest ports)"

definition inner_pair :: "int \<Rightarrow> ipv4 \<Rightarrow> string list" where
  "inner_pair g a =
     [''add rule ip knaller_box_nat prerouting tcp dport '' @ itoa g @ '' dnat to '' @ target_text a g,
      ''add rule ip knaller_box_nat output    tcp dport '' @ itoa g @ '' dnat to '' @ target_text a g]"

definition inner_last :: "string \<Rightarrow> string" where
  "inner_last vethGuest =
     ''add rule ip knaller_box_nat postrouting oifname '' @ [CHR 0x22] @ vethGuest @ [CHR 0x22] @
       '' ct state new masquerade''"

lemma natRules_pairs:
  "natRules nc vethGuest ports =
   concat (map (\<lambda>m. inner_pair (Guest m) (GuestIP nc)) (ways_in nc ports)) @ [inner_last vethGuest]"
  by (simp add: natRules_def Let_def ways_in_def inner_pair_def inner_last_def target_text_def itoa_22)

lemma chain_part_append: "chain_part c (rs @ ss) = chain_part c rs @ chain_part c ss"
  by (simp add: chain_part_def)

lemma chain_part_pair: "nat_hook c \<Longrightarrow> chain_part c (inner_pair g a) = [dnat_rule g a g]"
  using words_rule [of g a g] by (auto simp: nat_hook_def chain_part_def inner_pair_def clean_def dnat_rule_def)

lemma chain_part_pairs:
  "nat_hook c \<Longrightarrow> chain_part c (concat (map (\<lambda>m. inner_pair (Guest m) a) ms)) =
   map (\<lambda>m. dnat_rule (Guest m) a (Guest m)) ms"
  by (induction ms) (simp add: chain_part_def clean_def, simp add: chain_part_append chain_part_pair)

lemma chain_part_last: "nat_hook c \<Longrightarrow> chain_part c [inner_last vethGuest] = []"
  by (auto simp: nat_hook_def chain_part_def inner_last_def clean_def)

lemma box_chain_rules:
  "nat_hook c \<Longrightarrow> box_chain c nc vethGuest ports =
   map (\<lambda>m. dnat_rule (Guest m) (GuestIP nc) (Guest m)) (ways_in nc ports)"
  unfolding box_chain_def natRules_pairs
  by (simp add: chain_part_append chain_part_pairs chain_part_last)

section \<open>Connections\<close>

definition valid_ports :: "PortMapping list \<Rightarrow> bool" where
  "valid_ports ms \<longleftrightarrow>
     (\<forall>m \<in> set ms. 0 < Host m \<and> Host m < 65536 \<and> 0 < Guest m \<and> Guest m < 65536)"

lemma valid_ports_int64:
  "valid_ports ms \<Longrightarrow> m \<in> set ms \<Longrightarrow> int64_range (Host m) \<and> int64_range (Guest m)"
  by (auto simp: valid_ports_def intro!: int64_small)

text \<open>The first rule for a port decides.\<close>

lemma dnat_rules_target:
  assumes "dnat_laws V" and "\<And>m. m \<in> set ms \<Longrightarrow> int64_range (k m) \<and> int64_range (Guest m)"
  shows "V (map (\<lambda>m. dnat_rule (k m) a (Guest m)) ms) p =
    (if proto p = ''tcp'' then map_option (\<lambda>m. (a, Guest m)) (find (\<lambda>m. k m = int (dport p)) ms) else None)"
  using assms(2)
proof (induction ms)
  case (Cons m ms)
  have r: "rule_target (dnat_rule (k m) a (Guest m)) p =
      Some (if proto p = ''tcp'' \<and> k m = int (dport p) then Some (a, Guest m) else None)"
    by (rule rule_target_dnat) (use Cons.prems [of m] in simp_all)
  have IH: "V (map (\<lambda>m. dnat_rule (k m) a (Guest m)) ms) p =
      (if proto p = ''tcp'' then map_option (\<lambda>m. (a, Guest m)) (find (\<lambda>m. k m = int (dport p)) ms) else None)"
    by (rule Cons.IH) (use Cons.prems in simp)
  show ?case
  proof (cases "proto p = ''tcp'' \<and> k m = int (dport p)")
    case True
    then show ?thesis using r dnat_laws_Cons(2) [OF assms(1)] by simp
  next
    case False
    then have "rule_target (dnat_rule (k m) a (Guest m)) p = Some None" using r by simp
    with False IH dnat_laws_Cons(1) [OF assms(1)] show ?thesis by auto
  qed
qed (simp add: dnat_laws_Nil [OF assms(1)])

lemma readable_dnat:
  "(\<And>m. m \<in> set ms \<Longrightarrow> int64_range (k m) \<and> int64_range (Guest m)) \<Longrightarrow>
   readable (map (\<lambda>m. dnat_rule (k m) a (Guest m)) ms)"
  by (auto simp: readable_def rule_target_dnat)

lemma find_guest:
  "map_option (\<lambda>m. (a, Guest m)) (find (\<lambda>m. Guest m = n) ms) =
   (if n \<in> Guest ` set ms then Some (a, n) else None)"
  by (induction ms) auto

lemma box_chain_target:
  assumes "dnat_laws V" and "valid_ports (ways_in nc ports)" and "nat_hook c"
  shows "V (box_chain c nc vethGuest ports) p =
    (if proto p = ''tcp'' \<and> int (dport p) \<in> Guest ` set (ways_in nc ports)
     then Some (GuestIP nc, int (dport p)) else None)"
  using valid_ports_int64 [OF assms(2)]
  by (simp add: box_chain_rules [OF assms(3)] dnat_rules_target [OF assms(1)] find_guest)

text \<open>C6: A new connection to a port of the host that leads to a VM ends at the port of that VM's guest it was
  mapped to: the host's chain, when it has no older rule for the port, sends it to the VM's end of
  its link, and the chains of the VM's namespace send it on to the guest. Other ports are left alone.\<close>
theorem forwarded_connection:
  assumes "dnat_laws V" and "valid_ports (ways_in nc ports)" and "nat_hook c" and "proto p = ''tcp''"
    and "readable (nat_chain c w)" and "V (nat_chain c w) p = None"
    and "run_state (setupBoxNetns E nc vhIP vgIP vethHost vethGuest netns ports) w = (Inr u, w')"
  shows "case find (\<lambda>m. Host m = int (dport p)) (ways_in nc ports) of
      None \<Rightarrow> V (nat_chain c w') p = None
    | Some m \<Rightarrow> V (nat_chain c w') p = Some (vgIP, Guest m) \<and>
        V (box_chain ''prerouting'' nc vethGuest ports) (p\<lparr>daddr := vgIP, dport := nat (Guest m)\<rparr>) =
          Some (GuestIP nc, Guest m)"
proof -
  have host: "V (nat_chain c w') p =
      map_option (\<lambda>m. (vgIP, Guest m)) (find (\<lambda>m. Host m = int (dport p)) (ways_in nc ports))"
    using valid_ports_int64 [OF assms(2)] assms(4,6)
    by (simp add: nat_chain_setup [OF assms(3,7)] chain_append [OF assms(1,5)] dnat_rules_target [OF assms(1)])
  show ?thesis
  proof (cases "find (\<lambda>m. Host m = int (dport p)) (ways_in nc ports)")
    case (Some m)
    then have m: "m \<in> set (ways_in nc ports)" by (auto simp: find_Some_iff)
    then have "0 < Guest m" using assms(2) by (simp add: valid_ports_def)
    with m host Some assms(4) show ?thesis
      by (simp add: box_chain_target [OF assms(1,2)] nat_hook_def)
  qed (simp add: host)
qed

text \<open>C22: The chains of a VM's namespace do not look at where a connection comes from or goes to: each one its
  guest opens to a port it serves itself, port 22 among them, is sent back to the guest, whatever
  host on the network it was meant for.\<close>
theorem guest_connections_captured:
  assumes "dnat_laws V" and "valid_ports (ways_in nc ports)"
  shows "V (box_chain ''prerouting'' nc vethGuest ports) (p\<lparr>saddr := GuestIP nc\<rparr>) =
    (if proto p = ''tcp'' \<and> (dport p = 22 \<or> int (dport p) \<in> Guest ` set ports)
     then Some (GuestIP nc, int (dport p)) else None)"
  using assms by (auto simp: box_chain_target nat_hook_def ways_in_def)

text \<open>C23: Rules are only ever added behind those of VMs that are gone: a port of the host that led to a VM
  still leads to that VM's address after the VM has been torn down and another one has been set up
  with the same port.\<close>
theorem stale_forward:
  assumes "dnat_laws V" and "valid_ports (ways_in nc ports)" and "nat_hook c" and "proto p = ''tcp''"
    and "nat_chain c w = []" and "find (\<lambda>m. Host m = int (dport p)) (ways_in nc ports) = Some m"
    and "run_state (setupBoxNetns E nc vhIP vgIP vethHost vethGuest netns ports) w = (Inr u, w1)"
    and "run_state (setupBoxNetns E nc' vhIP' vgIP' vethHost' vethGuest' netns' ports')
           (snd (run_state (teardownBoxNetns E netns vethHost) w1)) = (Inr u', w')"
  shows "V (nat_chain c w') p = Some (vgIP, Guest m)"
proof -
  have "host_chain c (snd (run_state (teardownBoxNetns E netns vethHost) w1)) = host_chain c w1"
    using teardown_keeps_lemma [where E = E and netns = netns and vethHost = vethHost and w = w1 and c = c] by (simp add: split_beta)
  then have "nat_chain c (snd (run_state (teardownBoxNetns E netns vethHost) w1)) =
      map (\<lambda>m. dnat_rule (Host m) vgIP (Guest m)) (ways_in nc ports)"
    using nat_chain_setup [OF assms(3,7)] assms(5) by (simp add: nat_chain_def)
  then have chain: "nat_chain c w' = map (\<lambda>m. dnat_rule (Host m) vgIP (Guest m)) (ways_in nc ports) @
      map (\<lambda>m. dnat_rule (Host m) vgIP' (Guest m)) (ways_in nc' ports')"
    using nat_chain_setup [OF assms(3,8)] by simp
  have "V (map (\<lambda>m. dnat_rule (Host m) vgIP (Guest m)) (ways_in nc ports)) p = Some (vgIP, Guest m)"
    using valid_ports_int64 [OF assms(2)] assms(4,6) by (simp add: dnat_rules_target [OF assms(1)])
  then show ?thesis
    unfolding chain by (subst chain_append [OF assms(1) readable_dnat])
      (use valid_ports_int64 [OF assms(2)] in auto)
qed

section \<open>Two VMs with one port\<close>

definition web_ports :: "PortMapping list" where
  "web_ports = [\<lparr> Host = 8080, Guest = 80 \<rparr>]"

lemma sshPort_bounds: "10000 \<le> sshPort n" "sshPort n < 65536"
proof -
  have "int (unat (be16_at (name_hash n) 2)) mod 50000 < 50000" by simp
  then show "sshPort n < 65536" by (simp add: sshPort_def)
qed (simp add: sshPort_def)

lemma web_ways: "valid_ports (ways_in (deriveNetwork n) web_ports)"
  using sshPort_bounds [of n] by (simp add: valid_ports_def ways_in_def web_ports_def)

lemma web_way: "find (\<lambda>m. Host m = 8080) (ways_in (deriveNetwork n) web_ports) = Some \<lparr> Host = 8080, Guest = 80 \<rparr>"
  using sshPort_bounds [of n] by (simp add: ways_in_def web_ports_def)

lemma empty_chain: "nat_chain c empty_world = []" "readable []" "nat_hook ''prerouting''"
  by (simp_all add: nat_chain_def host_chain_def chain_after_def readable_def nat_hook_def List.map_filter_def)

definition web_connection :: packet where
  "web_connection = \<lparr> saddr = IPv4 192 0 2 7, daddr = IPv4 198 51 100 1, proto = ''tcp'', dport = 8080, tracked = False \<rparr>"

lemma web_connection_simps [simp]: "proto web_connection = ''tcp''" "dport web_connection = 8080"
  by (simp_all add: web_connection_def)

lemma forwarded_connection_witness:
  "\<exists>w'. run_state (setupBoxNetns calm_env (deriveNetwork ''web'') (vethHostIP ''web'') (vethGuestIP ''web'')
      ''vh-1'' ''vg-1'' ''kn-1'' web_ports) empty_world = (Inr (), w') \<and>
     first_target (nat_chain ''prerouting'' w') web_connection = Some (vethGuestIP ''web'', 80)"
proof -
  obtain w' where w': "run_state (setupBoxNetns calm_env (deriveNetwork ''web'') (vethHostIP ''web'')
      (vethGuestIP ''web'') ''vh-1'' ''vg-1'' ''kn-1'' web_ports) empty_world = (Inr (), w')"
    by (rule calm_setup)
  with forwarded_connection [OF first_target_laws web_ways empty_chain(3), of web_connection empty_world, OF _ _ _ w']
  show ?thesis by (simp add: empty_chain web_way)
qed

lemma guest_connections_captured_witness:
  "first_target (box_chain ''prerouting'' (deriveNetwork ''web'') ''vg-1'' web_ports)
     \<lparr> saddr = GuestIP (deriveNetwork ''web''), daddr = IPv4 140 82 121 3, proto = ''tcp'', dport = 22, tracked = False \<rparr> =
   Some (GuestIP (deriveNetwork ''web''), 22)"
  using guest_connections_captured [OF first_target_laws web_ways, of "''web''" "''vg-1''"
    "\<lparr> saddr = GuestIP (deriveNetwork ''web''), daddr = IPv4 140 82 121 3, proto = ''tcp'', dport = 22, tracked = False \<rparr>"]
  by simp

lemma stale_forward_witness:
  "\<exists>w1 w'. run_state (setupBoxNetns calm_env (deriveNetwork ''web'') (vethHostIP ''web'') (vethGuestIP ''web'')
      ''vh-1'' ''vg-1'' ''kn-1'' web_ports) empty_world = (Inr (), w1) \<and>
     run_state (setupBoxNetns calm_env (deriveNetwork ''db'') (vethHostIP ''db'') (vethGuestIP ''db'')
      ''vh-2'' ''vg-2'' ''kn-2'' web_ports) (snd (run_state (teardownBoxNetns calm_env ''kn-1'' ''vh-1'') w1)) = (Inr (), w') \<and>
     first_target (nat_chain ''prerouting'' w') web_connection = Some (vethGuestIP ''web'', 80)"
proof -
  obtain w1 where w1: "run_state (setupBoxNetns calm_env (deriveNetwork ''web'') (vethHostIP ''web'')
      (vethGuestIP ''web'') ''vh-1'' ''vg-1'' ''kn-1'' web_ports) empty_world = (Inr (), w1)"
    by (rule calm_setup)
  obtain w' where w': "run_state (setupBoxNetns calm_env (deriveNetwork ''db'') (vethHostIP ''db'')
      (vethGuestIP ''db'') ''vh-2'' ''vg-2'' ''kn-2'' web_ports)
      (snd (run_state (teardownBoxNetns calm_env ''kn-1'' ''vh-1'') w1)) = (Inr (), w')"
    by (rule calm_setup)
  from stale_forward [OF first_target_laws web_ways empty_chain(3) web_connection_simps(1) empty_chain(1) _ w1 w']
  have "first_target (nat_chain ''prerouting'' w') web_connection = Some (vethGuestIP ''web'', 80)"
    by (simp add: web_way)
  with w1 w' show ?thesis by blast
qed

end
