(* ===== verification/Models.thy ===== *)
theory Models
  imports Json
begin

text \<open>
  The request and response types of the Firecracker API (\<open>firecracker/models.go\<close>), their JSON
  forms by the struct tags, and the round trip of each through \<open>encoding/json\<close>.
\<close>

section \<open>The types\<close>

record BootSource =
  KernelImagePath :: string
  BootArgs :: string
  InitrdPath :: string

record TokenBucket =
  Size :: int
  OneTimeBurst :: int
  RefillTimeMs :: int

record RateLimiter =
  Bandwidth :: "TokenBucket option"
  Ops :: "TokenBucket option"

record Drive =
  DriveID :: string
  PathOnHost :: string
  IsRootDevice :: bool
  IsReadOnly :: bool
  RateLimit :: "RateLimiter option"

record MachineConfig =
  VcpuCount :: int
  MemSizeMib :: int
  Smt :: bool

record NetworkInterface =
  IfaceID :: string
  HostDevName :: string
  NicMAC :: string
  RxRateLimiter :: "RateLimiter option"
  TxRateLimiter :: "RateLimiter option"

record SnapshotCreate =
  SnapshotType :: string
  SnapshotPath :: string
  MemFilePath :: string

record Action =
  ActionType :: string

record InstanceInfo =
  AppName :: string
  InstanceID :: string
  InstanceState :: string
  VmmVersion :: string

record ErrorResponse =
  FaultMessage :: string

record VMConfig =
  vc_BootSource :: "BootSource option"
  vc_Drives :: "Drive list"
  vc_MachineConfig :: "MachineConfig option"
  vc_NetworkInterfaces :: "NetworkInterface list"

section \<open>JSON forms\<close>

text \<open>The option \<open>omitempty\<close> of a struct tag.\<close>

definition omit_str :: "string \<Rightarrow> string \<Rightarrow> (string \<times> json) list" where
  "omit_str k s = (if s = [] then [] else [(k, JStr s)])"

definition omit_int :: "string \<Rightarrow> int \<Rightarrow> (string \<times> json) list" where
  "omit_int k i = (if i = 0 then [] else [(k, JInt i)])"

definition omit_ptr :: "string \<Rightarrow> ('a \<Rightarrow> json) \<Rightarrow> 'a option \<Rightarrow> (string \<times> json) list" where
  "omit_ptr k e x = (case x of None \<Rightarrow> [] | Some a \<Rightarrow> [(k, e a)])"

definition omit_list :: "string \<Rightarrow> ('a \<Rightarrow> json) \<Rightarrow> 'a list \<Rightarrow> (string \<times> json) list" where
  "omit_list k e xs = (if xs = [] then [] else [(k, JArr (map e xs))])"

definition enc_BootSource :: "BootSource \<Rightarrow> json" where
  "enc_BootSource b =
     JObj ([(''kernel_image_path'', JStr (KernelImagePath b))] @
           omit_str ''boot_args'' (BootArgs b) @ omit_str ''initrd_path'' (InitrdPath b))"

definition enc_TokenBucket :: "TokenBucket \<Rightarrow> json" where
  "enc_TokenBucket t =
     JObj ([(''size'', JInt (Size t))] @ omit_int ''one_time_burst'' (OneTimeBurst t) @
           [(''refill_time'', JInt (RefillTimeMs t))])"

definition enc_RateLimiter :: "RateLimiter \<Rightarrow> json" where
  "enc_RateLimiter r =
     JObj (omit_ptr ''bandwidth'' enc_TokenBucket (Bandwidth r) @
           omit_ptr ''ops'' enc_TokenBucket (Ops r))"

definition enc_Drive :: "Drive \<Rightarrow> json" where
  "enc_Drive d =
     JObj ([(''drive_id'', JStr (DriveID d)), (''path_on_host'', JStr (PathOnHost d)),
            (''is_root_device'', JBool (IsRootDevice d)), (''is_read_only'', JBool (IsReadOnly d))] @
           omit_ptr ''rate_limiter'' enc_RateLimiter (RateLimit d))"

definition enc_MachineConfig :: "MachineConfig \<Rightarrow> json" where
  "enc_MachineConfig m =
     JObj [(''vcpu_count'', JInt (VcpuCount m)), (''mem_size_mib'', JInt (MemSizeMib m)),
           (''smt'', JBool (Smt m))]"

definition enc_NetworkInterface :: "NetworkInterface \<Rightarrow> json" where
  "enc_NetworkInterface n =
     JObj ([(''iface_id'', JStr (IfaceID n)), (''host_dev_name'', JStr (HostDevName n))] @
           omit_str ''guest_mac'' (NicMAC n) @
           omit_ptr ''rx_rate_limiter'' enc_RateLimiter (RxRateLimiter n) @
           omit_ptr ''tx_rate_limiter'' enc_RateLimiter (TxRateLimiter n))"

definition enc_SnapshotCreate :: "SnapshotCreate \<Rightarrow> json" where
  "enc_SnapshotCreate s =
     JObj [(''snapshot_type'', JStr (SnapshotType s)), (''snapshot_path'', JStr (SnapshotPath s)),
           (''mem_file_path'', JStr (MemFilePath s))]"

definition enc_Action :: "Action \<Rightarrow> json" where
  "enc_Action a = JObj [(''action_type'', JStr (ActionType a))]"

definition enc_InstanceInfo :: "InstanceInfo \<Rightarrow> json" where
  "enc_InstanceInfo i =
     JObj [(''app_name'', JStr (AppName i)), (''id'', JStr (InstanceID i)),
           (''state'', JStr (InstanceState i)), (''vmm_version'', JStr (VmmVersion i))]"

definition enc_ErrorResponse :: "ErrorResponse \<Rightarrow> json" where
  "enc_ErrorResponse e = JObj [(''fault_message'', JStr (FaultMessage e))]"

definition enc_VMConfig :: "VMConfig \<Rightarrow> json" where
  "enc_VMConfig v =
     JObj (omit_ptr ''boot-source'' enc_BootSource (vc_BootSource v) @
           omit_list ''drives'' enc_Drive (vc_Drives v) @
           omit_ptr ''machine-config'' enc_MachineConfig (vc_MachineConfig v) @
           omit_list ''network-interfaces'' enc_NetworkInterface (vc_NetworkInterfaces v))"

section \<open>Zero values and decoders\<close>

definition zero_BootSource :: BootSource where
  "zero_BootSource = \<lparr> KernelImagePath = [], BootArgs = [], InitrdPath = [] \<rparr>"

definition zero_TokenBucket :: TokenBucket where
  "zero_TokenBucket = \<lparr> Size = 0, OneTimeBurst = 0, RefillTimeMs = 0 \<rparr>"

definition zero_RateLimiter :: RateLimiter where
  "zero_RateLimiter = \<lparr> Bandwidth = None, Ops = None \<rparr>"

definition zero_Drive :: Drive where
  "zero_Drive = \<lparr> DriveID = [], PathOnHost = [], IsRootDevice = False, IsReadOnly = False,
                 RateLimit = None \<rparr>"

definition zero_MachineConfig :: MachineConfig where
  "zero_MachineConfig = \<lparr> VcpuCount = 0, MemSizeMib = 0, Smt = False \<rparr>"

definition zero_NetworkInterface :: NetworkInterface where
  "zero_NetworkInterface = \<lparr> IfaceID = [], HostDevName = [], NicMAC = [],
                            RxRateLimiter = None, TxRateLimiter = None \<rparr>"

definition zero_InstanceInfo :: InstanceInfo where
  "zero_InstanceInfo = \<lparr> AppName = [], InstanceID = [], InstanceState = [], VmmVersion = [] \<rparr>"

definition zero_ErrorResponse :: ErrorResponse where
  "zero_ErrorResponse = \<lparr> FaultMessage = [] \<rparr>"

definition zero_VMConfig :: VMConfig where
  "zero_VMConfig = \<lparr> vc_BootSource = None, vc_Drives = [], vc_MachineConfig = None,
                    vc_NetworkInterfaces = [] \<rparr>"

definition dec_BootSource :: "BootSource decoder" where
  "dec_BootSource = dec_struct
     [(''kernel_image_path'', dec_field KernelImagePath KernelImagePath_update dec_string),
      (''boot_args'', dec_field BootArgs BootArgs_update dec_string),
      (''initrd_path'', dec_field InitrdPath InitrdPath_update dec_string)]"

definition dec_TokenBucket :: "TokenBucket decoder" where
  "dec_TokenBucket = dec_struct
     [(''size'', dec_field Size Size_update dec_int),
      (''one_time_burst'', dec_field OneTimeBurst OneTimeBurst_update dec_int),
      (''refill_time'', dec_field RefillTimeMs RefillTimeMs_update dec_int)]"

definition dec_RateLimiter :: "RateLimiter decoder" where
  "dec_RateLimiter = dec_struct
     [(''bandwidth'',
       dec_field Bandwidth Bandwidth_update (dec_ptr zero_TokenBucket dec_TokenBucket)),
      (''ops'', dec_field Ops Ops_update (dec_ptr zero_TokenBucket dec_TokenBucket))]"

definition dec_Drive :: "Drive decoder" where
  "dec_Drive = dec_struct
     [(''drive_id'', dec_field DriveID DriveID_update dec_string),
      (''path_on_host'', dec_field PathOnHost PathOnHost_update dec_string),
      (''is_root_device'', dec_field IsRootDevice IsRootDevice_update dec_bool),
      (''is_read_only'', dec_field IsReadOnly IsReadOnly_update dec_bool),
      (''rate_limiter'',
       dec_field RateLimit RateLimit_update (dec_ptr zero_RateLimiter dec_RateLimiter))]"

definition dec_MachineConfig :: "MachineConfig decoder" where
  "dec_MachineConfig = dec_struct
     [(''vcpu_count'', dec_field VcpuCount VcpuCount_update dec_int),
      (''mem_size_mib'', dec_field MemSizeMib MemSizeMib_update dec_int),
      (''smt'', dec_field Smt Smt_update dec_bool)]"

definition dec_NetworkInterface :: "NetworkInterface decoder" where
  "dec_NetworkInterface = dec_struct
     [(''iface_id'', dec_field IfaceID IfaceID_update dec_string),
      (''host_dev_name'', dec_field HostDevName HostDevName_update dec_string),
      (''guest_mac'', dec_field NicMAC NicMAC_update dec_string),
      (''rx_rate_limiter'',
       dec_field RxRateLimiter RxRateLimiter_update (dec_ptr zero_RateLimiter dec_RateLimiter)),
      (''tx_rate_limiter'',
       dec_field TxRateLimiter TxRateLimiter_update (dec_ptr zero_RateLimiter dec_RateLimiter))]"

definition dec_InstanceInfo :: "InstanceInfo decoder" where
  "dec_InstanceInfo = dec_struct
     [(''app_name'', dec_field AppName AppName_update dec_string),
      (''id'', dec_field InstanceID InstanceID_update dec_string),
      (''state'', dec_field InstanceState InstanceState_update dec_string),
      (''vmm_version'', dec_field VmmVersion VmmVersion_update dec_string)]"

definition dec_ErrorResponse :: "ErrorResponse decoder" where
  "dec_ErrorResponse = dec_struct
     [(''fault_message'', dec_field FaultMessage FaultMessage_update dec_string)]"

definition dec_VMConfig :: "VMConfig decoder" where
  "dec_VMConfig = dec_struct
     [(''boot-source'',
       dec_field vc_BootSource vc_BootSource_update (dec_ptr zero_BootSource dec_BootSource)),
      (''drives'', dec_field vc_Drives vc_Drives_update (dec_list zero_Drive dec_Drive)),
      (''machine-config'',
       dec_field vc_MachineConfig vc_MachineConfig_update
         (dec_ptr zero_MachineConfig dec_MachineConfig)),
      (''network-interfaces'',
       dec_field vc_NetworkInterfaces vc_NetworkInterfaces_update
         (dec_list zero_NetworkInterface dec_NetworkInterface))]"

section \<open>Round trips\<close>

named_theorems codec_simps "definitions that evaluate the coding of a struct"

lemmas dec_leafs [codec_simps] =
  dec_struct_def dec_field_def field_of_def dec_string_def dec_int_def dec_bool_def
  omit_str_def omit_int_def omit_ptr_def omit_list_def

definition fits_TokenBucket :: "TokenBucket \<Rightarrow> bool" where
  "fits_TokenBucket t \<longleftrightarrow>
     int64_range (Size t) \<and> int64_range (OneTimeBurst t) \<and> int64_range (RefillTimeMs t)"

definition fits_RateLimiter :: "RateLimiter \<Rightarrow> bool" where
  "fits_RateLimiter r \<longleftrightarrow>
     pred_option fits_TokenBucket (Bandwidth r) \<and> pred_option fits_TokenBucket (Ops r)"

definition fits_Drive :: "Drive \<Rightarrow> bool" where
  "fits_Drive d \<longleftrightarrow> pred_option fits_RateLimiter (RateLimit d)"

definition fits_MachineConfig :: "MachineConfig \<Rightarrow> bool" where
  "fits_MachineConfig m \<longleftrightarrow> int64_range (VcpuCount m) \<and> int64_range (MemSizeMib m)"

definition fits_NetworkInterface :: "NetworkInterface \<Rightarrow> bool" where
  "fits_NetworkInterface n \<longleftrightarrow>
     pred_option fits_RateLimiter (RxRateLimiter n) \<and> pred_option fits_RateLimiter (TxRateLimiter n)"

definition fits_VMConfig :: "VMConfig \<Rightarrow> bool" where
  "fits_VMConfig v \<longleftrightarrow>
     list_all fits_Drive (vc_Drives v) \<and>
     pred_option fits_MachineConfig (vc_MachineConfig v) \<and>
     list_all fits_NetworkInterface (vc_NetworkInterfaces v)"

interpretation boot_source: object_codec enc_BootSource dec_BootSource zero_BootSource "\<lambda>_. True"
  by unfold_locales
    (auto simp: enc_BootSource_def dec_BootSource_def zero_BootSource_def codec_simps)

interpretation token_bucket:
  object_codec enc_TokenBucket dec_TokenBucket zero_TokenBucket fits_TokenBucket
  by unfold_locales
    (auto simp: enc_TokenBucket_def dec_TokenBucket_def zero_TokenBucket_def fits_TokenBucket_def
      codec_simps)

interpretation rate_limiter:
  object_codec enc_RateLimiter dec_RateLimiter zero_RateLimiter fits_RateLimiter
  by unfold_locales
    (auto simp: enc_RateLimiter_def dec_RateLimiter_def zero_RateLimiter_def fits_RateLimiter_def
      codec_simps token_bucket.enc_exact token_bucket.ptr_enc split: option.splits)

interpretation drive: object_codec enc_Drive dec_Drive zero_Drive fits_Drive
  by unfold_locales
    (auto simp: enc_Drive_def dec_Drive_def zero_Drive_def fits_Drive_def
      codec_simps rate_limiter.enc_exact rate_limiter.ptr_enc split: option.splits)

interpretation machine_config:
  object_codec enc_MachineConfig dec_MachineConfig zero_MachineConfig fits_MachineConfig
  by unfold_locales
    (auto simp: enc_MachineConfig_def dec_MachineConfig_def zero_MachineConfig_def
      fits_MachineConfig_def codec_simps)

interpretation network_interface:
  object_codec enc_NetworkInterface dec_NetworkInterface zero_NetworkInterface fits_NetworkInterface
  by unfold_locales
    (auto simp: enc_NetworkInterface_def dec_NetworkInterface_def zero_NetworkInterface_def
      fits_NetworkInterface_def codec_simps rate_limiter.enc_exact rate_limiter.ptr_enc
      split: option.splits)

interpretation instance_info:
  object_codec enc_InstanceInfo dec_InstanceInfo zero_InstanceInfo "\<lambda>_. True"
  by unfold_locales
    (auto simp: enc_InstanceInfo_def dec_InstanceInfo_def zero_InstanceInfo_def codec_simps)

interpretation error_response:
  object_codec enc_ErrorResponse dec_ErrorResponse zero_ErrorResponse "\<lambda>_. True"
  by unfold_locales
    (auto simp: enc_ErrorResponse_def dec_ErrorResponse_def zero_ErrorResponse_def codec_simps)

interpretation vm_config: object_codec enc_VMConfig dec_VMConfig zero_VMConfig fits_VMConfig
proof
  fix v :: VMConfig
  show "exact (enc_VMConfig v)"
    by (auto simp: enc_VMConfig_def omit_ptr_def omit_list_def list_all_iff
        boot_source.enc_exact drive.enc_exact machine_config.enc_exact network_interface.enc_exact
        split: option.splits)
  show "\<exists>kvs. enc_VMConfig v = JObj kvs" by (simp add: enc_VMConfig_def)
  show "dec_VMConfig (enc_VMConfig v) zero_VMConfig = (v, True)" if "fits_VMConfig v"
    using that
    by (cases v)
      (auto simp: enc_VMConfig_def dec_VMConfig_def zero_VMConfig_def fits_VMConfig_def codec_simps
        boot_source.ptr_enc machine_config.ptr_enc drive.list_codec(2)
        network_interface.list_codec(2) split: option.splits)
qed

end
