(* ===== verification/Client.thy ===== *)
theory Client
  imports Models Logic
begin

text \<open>
  The Firecracker API client (\<open>firecracker/client.go\<close>): one HTTP request per operation over the
  VM's Unix socket. The server's answer is the environment's; what the client sends, and what it
  makes of every status and body, is modelled here.
\<close>

record Client =
  socketPath :: string

definition NewClient :: "string \<Rightarrow> Client" where
  "NewClient p = \<lparr> socketPath = p \<rparr>"

text \<open>
  \<open>http.NewRequestWithContext\<close> on \<^verbatim>\<open>"http://localhost" + path\<close> rejects a path with a control
  character or with a percent sign that two hexadecimal digits do not follow.
\<close>

fun bad_escape :: "string \<Rightarrow> bool" where
  "bad_escape [] = False"
| "bad_escape (c # cs) =
     (if c = CHR ''%'' then
        (case cs of
           a # b # _ \<Rightarrow> hex_val a = None \<or> hex_val b = None \<or> bad_escape cs
         | _ \<Rightarrow> True)
      else bad_escape cs)"

definition bad_url :: "string \<Rightarrow> bool" where
  "bad_url path \<longleftrightarrow> list_ex (\<lambda>c. code c < 32 \<or> code c = 127) path \<or> bad_escape path"

definition url_error :: "string \<Rightarrow> err" where
  "url_error path = ErrMsg (''parse http://localhost'' @ path @ '': invalid URL'')"

text \<open>The error made of a response whose status is not the expected one.\<close>

definition response_error :: "nat \<Rightarrow> string \<Rightarrow> err" where
  "response_error status body =
     (case json_Unmarshal dec_ErrorResponse body zero_ErrorResponse of
        (e, good) \<Rightarrow>
          if good \<and> FaultMessage e \<noteq> [] then ErrMsg (''firecracker: '' @ FaultMessage e)
          else ErrMsg (''firecracker: unexpected status '' @ dec status @ '': '' @ body))"

definition put :: "env \<Rightarrow> Client \<Rightarrow> string \<Rightarrow> json \<Rightarrow> unit go" where
  "put E c path body =
     (let data = json_Marshal body in
      if bad_url path then err (url_error path)
      else
        on_error (http_do E (socketPath c) ''PUT'' path data) err (\<lambda>(status, resp).
        if status = 204 then ok ()
        else err (response_error status resp)))"

definition patch :: "env \<Rightarrow> Client \<Rightarrow> string \<Rightarrow> json \<Rightarrow> unit go" where
  "patch E c path body =
     (let data = json_Marshal body in
      if bad_url path then err (url_error path)
      else
        on_error (http_do E (socketPath c) ''PATCH'' path data) err (\<lambda>(status, resp).
        if status = 204 then ok ()
        else err (response_error status resp)))"

definition get :: "env \<Rightarrow> Client \<Rightarrow> string \<Rightarrow> 'a decoder \<Rightarrow> 'a \<Rightarrow> 'a go" where
  "get E c path d zero =
     (if bad_url path then err (url_error path)
      else
        on_error (http_do E (socketPath c) ''GET'' path []) err (\<lambda>(status, resp).
        if status \<noteq> 200 then err (response_error status resp)
        else
          (case json_Decode d resp zero of
             (x, good) \<Rightarrow> if good then ok x else err (ErrMsg ''json: cannot decode response''))))"

section \<open>The operations\<close>

definition SetBootSource :: "env \<Rightarrow> Client \<Rightarrow> BootSource \<Rightarrow> unit go" where
  "SetBootSource E c bs = put E c ''/boot-source'' (enc_BootSource bs)"

definition SetDrive :: "env \<Rightarrow> Client \<Rightarrow> Drive \<Rightarrow> unit go" where
  "SetDrive E c d = put E c (''/drives/'' @ DriveID d) (enc_Drive d)"

definition SetMachineConfig :: "env \<Rightarrow> Client \<Rightarrow> MachineConfig \<Rightarrow> unit go" where
  "SetMachineConfig E c mc = put E c ''/machine-config'' (enc_MachineConfig mc)"

definition SetNetworkInterface :: "env \<Rightarrow> Client \<Rightarrow> NetworkInterface \<Rightarrow> unit go" where
  "SetNetworkInterface E c ni =
     put E c (''/network-interfaces/'' @ IfaceID ni) (enc_NetworkInterface ni)"

definition StartInstance :: "env \<Rightarrow> Client \<Rightarrow> unit go" where
  "StartInstance E c = put E c ''/actions'' (enc_Action \<lparr> ActionType = ''InstanceStart'' \<rparr>)"

definition StopInstance :: "env \<Rightarrow> Client \<Rightarrow> unit go" where
  "StopInstance E c = put E c ''/actions'' (enc_Action \<lparr> ActionType = ''SendCtrlAltDel'' \<rparr>)"

definition GetInfo :: "env \<Rightarrow> Client \<Rightarrow> InstanceInfo go" where
  "GetInfo E c = get E c ''/'' dec_InstanceInfo zero_InstanceInfo"

definition GetMachineConfig :: "env \<Rightarrow> Client \<Rightarrow> MachineConfig go" where
  "GetMachineConfig E c = get E c ''/machine-config'' dec_MachineConfig zero_MachineConfig"

definition GetVMConfig :: "env \<Rightarrow> Client \<Rightarrow> VMConfig go" where
  "GetVMConfig E c = get E c ''/vm/config'' dec_VMConfig zero_VMConfig"

definition client_PauseVM :: "env \<Rightarrow> Client \<Rightarrow> unit go" where
  "client_PauseVM E c = patch E c ''/vm'' (JObj [(''state'', JStr ''Paused'')])"

definition client_ResumeVM :: "env \<Rightarrow> Client \<Rightarrow> unit go" where
  "client_ResumeVM E c = patch E c ''/vm'' (JObj [(''state'', JStr ''Resumed'')])"

definition client_CreateSnapshot :: "env \<Rightarrow> Client \<Rightarrow> SnapshotCreate \<Rightarrow> unit go" where
  "client_CreateSnapshot E c sc = put E c ''/snapshot/create'' (enc_SnapshotCreate sc)"

text \<open>The two bodies built as maps are written with their keys in order.\<close>

definition LoadSnapshot :: "env \<Rightarrow> Client \<Rightarrow> string \<Rightarrow> string \<Rightarrow> unit go" where
  "LoadSnapshot E c statePath memPath =
     put E c ''/snapshot/load''
       (JObj [(''mem_backend'',
               JObj [(''backend_path'', JStr memPath), (''backend_type'', JStr ''File'')]),
              (''resume_vm'', JBool False),
              (''snapshot_path'', JStr statePath)])"

definition PatchDrive :: "env \<Rightarrow> Client \<Rightarrow> string \<Rightarrow> string \<Rightarrow> unit go" where
  "PatchDrive E c driveID pathOnHost =
     patch E c (''/drives/'' @ driveID)
       (JObj [(''drive_id'', JStr driveID), (''path_on_host'', JStr pathOnHost)])"

lemmas client_ops =
  SetBootSource_def SetDrive_def SetMachineConfig_def SetNetworkInterface_def StartInstance_def
  StopInstance_def GetInfo_def GetMachineConfig_def GetVMConfig_def client_PauseVM_def
  client_ResumeVM_def client_CreateSnapshot_def LoadSnapshot_def PatchDrive_def

section \<open>What an operation does\<close>

lemma bad_url_simps [simp]:
  "\<not> bad_url ''/''" "\<not> bad_url ''/vm''" "\<not> bad_url ''/actions''" "\<not> bad_url ''/boot-source''"
  "\<not> bad_url ''/machine-config''" "\<not> bad_url ''/vm/config''" "\<not> bad_url ''/snapshot/create''"
  "\<not> bad_url ''/snapshot/load''" "\<not> bad_url ''/drives/rootfs''"
  "\<not> bad_url ''/network-interfaces/eth0''"
  by (simp_all add: bad_url_def code_def)

text \<open>The answer to a request: the result of \<open>http.Client.Do\<close> and the state after it.\<close>

definition answer ::
    "env \<Rightarrow> world \<Rightarrow> string \<Rightarrow> string \<Rightarrow> string \<Rightarrow> string \<Rightarrow> (err + nat \<times> string) \<times> world" where
  "answer E w sock meth path body = run_state (http_do E sock meth path body) w"

lemma run_put:
  "\<not> bad_url path \<Longrightarrow> run_state (put E c path body) w =
     (case answer E w (socketPath c) ''PUT'' path (json_Marshal body) of
        (Inl e, w') \<Rightarrow> (Inl e, w')
      | (Inr (status, resp), w') \<Rightarrow>
          (if status = 204 then Inr () else Inl (response_error status resp), w'))"
  by (auto simp: put_def answer_def Let_def run_simps split: prod.splits sum.splits)

lemma run_patch:
  "\<not> bad_url path \<Longrightarrow> run_state (patch E c path body) w =
     (case answer E w (socketPath c) ''PATCH'' path (json_Marshal body) of
        (Inl e, w') \<Rightarrow> (Inl e, w')
      | (Inr (status, resp), w') \<Rightarrow>
          (if status = 204 then Inr () else Inl (response_error status resp), w'))"
  by (auto simp: patch_def answer_def Let_def run_simps split: prod.splits sum.splits)

lemma run_get:
  "\<not> bad_url path \<Longrightarrow> run_state (get E c path d zero) w =
     (case answer E w (socketPath c) ''GET'' path [] of
        (Inl e, w') \<Rightarrow> (Inl e, w')
      | (Inr (status, resp), w') \<Rightarrow>
          (if status \<noteq> 200 then Inl (response_error status resp)
           else
             (case json_Decode d resp zero of
                (x, good) \<Rightarrow>
                  if good then Inr x else Inl (ErrMsg ''json: cannot decode response'')), w'))"
  by (auto simp: get_def answer_def run_simps split: prod.splits sum.splits)

lemma calls_put [extends_intros]:
  "P (Http (socketPath c) ''PUT'' path (json_Marshal body)) \<Longrightarrow> calls P (put E c path body)"
  unfolding put_def Let_def by (intro extends_intros)

lemma calls_patch [extends_intros]:
  "P (Http (socketPath c) ''PATCH'' path (json_Marshal body)) \<Longrightarrow> calls P (patch E c path body)"
  unfolding patch_def Let_def by (intro extends_intros)

lemma calls_get [extends_intros]:
  "P (Http (socketPath c) ''GET'' path []) \<Longrightarrow> calls P (get E c path d zero)"
  unfolding get_def by (intro extends_intros)

text \<open>What a request adds to the log.\<close>

lemma requests_http:
  "requests (snd (run_state (http_do E sock meth path body) w)) =
     requests w @ [(sock, meth, path, body)]"
  by (simp add: requests_def List.map_filter_def)

lemma put_requests:
  "\<not> bad_url path \<Longrightarrow>
   ensures (\<lambda>w. requests w = xs) (put E c path body)
     (\<lambda>_ w. requests w = xs @ [(socketPath c, ''PUT'', path, json_Marshal body)])"
  using requests_http [of E "socketPath c" "''PUT''" path "json_Marshal body"]
  by (auto simp: ensures_def run_put answer_def split: prod.splits sum.splits)
    (metis snd_conv)+

lemma patch_requests:
  "\<not> bad_url path \<Longrightarrow>
   ensures (\<lambda>w. requests w = xs) (patch E c path body)
     (\<lambda>_ w. requests w = xs @ [(socketPath c, ''PATCH'', path, json_Marshal body)])"
  using requests_http [of E "socketPath c" "''PATCH''" path "json_Marshal body"]
  by (auto simp: ensures_def run_patch answer_def split: prod.splits sum.splits)
    (metis snd_conv)+

lemma get_requests:
  "\<not> bad_url path \<Longrightarrow>
   ensures (\<lambda>w. requests w = xs) (get E c path d zero)
     (\<lambda>_ w. requests w = xs @ [(socketPath c, ''GET'', path, [])])"
  using requests_http [of E "socketPath c" "''GET''" path "[]"]
  by (auto simp: ensures_def run_get answer_def split: prod.splits sum.splits)
    (metis snd_conv)+

section \<open>Properties\<close>

text \<open>A write succeeds exactly when a request could be made of its path, a server answered on
  the client's socket, and the status was 204; a read needs status 200 and a body that decodes.\<close>
theorem api_success:
  "((\<exists>w'. run_state (put E c path body) w = (Inr (), w')) \<longleftrightarrow>
      \<not> bad_url path \<and>
      (\<exists>resp w'. answer E w (socketPath c) ''PUT'' path (json_Marshal body) = (Inr (204, resp), w'))) \<and>
   ((\<exists>w'. run_state (patch E c path body) w = (Inr (), w')) \<longleftrightarrow>
      \<not> bad_url path \<and>
      (\<exists>resp w'. answer E w (socketPath c) ''PATCH'' path (json_Marshal body) = (Inr (204, resp), w'))) \<and>
   ((\<exists>x w'. run_state (get E c path d zero) w = (Inr x, w')) \<longleftrightarrow>
      \<not> bad_url path \<and>
      (\<exists>resp w'. answer E w (socketPath c) ''GET'' path [] = (Inr (200, resp), w') \<and>
                snd (json_Decode d resp zero)))"
proof (cases "bad_url path")
  case True
  then show ?thesis by (simp add: put_def patch_def get_def run_simps)
next
  case False
  then show ?thesis
    by (auto simp: run_put run_patch run_get split: prod.splits sum.splits if_splits)
qed

text \<open>The message of an error response is what the caller sees, for every status: the body
  Firecracker writes is decoded back to it, and only an empty message falls back to the status
  and the raw body.\<close>
theorem fault_reported:
  "response_error status (json_Marshal (enc_ErrorResponse e)) =
     (if FaultMessage e \<noteq> [] then ErrMsg (''firecracker: '' @ FaultMessage e)
      else ErrMsg (''firecracker: unexpected status '' @ dec status @ '': '' @
                   json_Marshal (enc_ErrorResponse e)))"
  by (simp add: response_error_def error_response.unmarshal_marshal)


definition sample_config :: VMConfig where
  "sample_config =
     \<lparr> vc_BootSource = Some \<lparr> KernelImagePath = ''/vmlinux'', BootArgs = ''panic=1'', InitrdPath = [] \<rparr>,
       vc_Drives =
         [\<lparr> DriveID = ''rootfs'', PathOnHost = ''/d'', IsRootDevice = True, IsReadOnly = False,
            RateLimit = Some \<lparr> Bandwidth = Some \<lparr> Size = 1000000, OneTimeBurst = 0, RefillTimeMs = 1000 \<rparr>,
                               Ops = None \<rparr> \<rparr>],
       vc_MachineConfig = Some \<lparr> VcpuCount = 2, MemSizeMib = 512, Smt = False \<rparr>,
       vc_NetworkInterfaces = [] \<rparr>"

definition config_env :: env where
  "config_env = calm_env \<lparr> serve := \<lambda>w _ _ _ _. (Inr (200, json_Marshal (enc_VMConfig sample_config)), files w) \<rparr>"


end
