(* ===== verification/GoTime.thy ===== *)
theory GoTime
  imports GoText
begin

text \<open>
  Instants of Go's package \<open>time\<close> and their JSON text (RFC 3339 with nanoseconds). An instant is a
  number of nanoseconds since the start of the year 0 in UTC, in the proleptic Gregorian calendar;
  the text shows it in a zone whose offset is given in minutes.
\<close>

section \<open>The calendar\<close>

definition leap :: "nat \<Rightarrow> bool" where
  "leap y \<longleftrightarrow> 4 dvd y \<and> (\<not> 100 dvd y \<or> 400 dvd y)"

definition year_days :: "nat \<Rightarrow> nat" where
  "year_days y = (if leap y then 366 else 365)"

definition month_days :: "nat \<Rightarrow> nat list" where
  "month_days y = [31, if leap y then 29 else 28, 31, 30, 31, 30, 31, 31, 30, 31, 30, 31]"

lemma year_days_pos [simp]: "0 < year_days y"
  by (simp add: year_days_def)

function year_of :: "nat \<Rightarrow> nat \<Rightarrow> nat \<times> nat" where
  "year_of y n = (if n < year_days y then (y, n) else year_of (Suc y) (n - year_days y))"
  by pat_completeness auto
termination
proof (relation "measure snd", goal_cases)
  case (2 y n)
  then show ?case using year_days_pos [of y] by (simp only: in_measure snd_conv)
qed simp

declare year_of.simps [simp del]

fun month_of :: "nat \<Rightarrow> nat list \<Rightarrow> nat \<Rightarrow> nat \<times> nat" where
  "month_of m [] n = (m, n)"
| "month_of m (l # ls) n = (if n < l then (m, n) else month_of (Suc m) ls (n - l))"

definition days_before :: "nat \<Rightarrow> nat" where
  "days_before y = sum_list (map year_days [0..<y])"

definition civil :: "nat \<Rightarrow> nat \<times> nat \<times> nat" where
  "civil n =
     (case year_of 0 n of
        (y, d) \<Rightarrow> (case month_of 1 (month_days y) d of (m, d') \<Rightarrow> (y, m, Suc d')))"

definition day_number :: "nat \<Rightarrow> nat \<Rightarrow> nat \<Rightarrow> nat" where
  "day_number y m d = days_before y + sum_list (take (m - 1) (month_days y)) + (d - 1)"

definition valid_date :: "nat \<Rightarrow> nat \<Rightarrow> nat \<Rightarrow> bool" where
  "valid_date y m d \<longleftrightarrow> 1 \<le> m \<and> m \<le> 12 \<and> 1 \<le> d \<and> d \<le> month_days y ! (m - 1)"

lemma year_of_result:
  "year_of y n = (y', d) \<Longrightarrow> days_before y + n = days_before y' + d \<and> d < year_days y'"
proof (induction y n rule: year_of.induct)
  case (1 y n)
  show ?case
  proof (cases "n < year_days y")
    case True
    with 1 show ?thesis by (simp add: year_of.simps [of y])
  next
    case False
    with 1 have "days_before (Suc y) + (n - year_days y) = days_before y' + d \<and> d < year_days y'"
      by (simp add: year_of.simps [of y])
    with False show ?thesis by (simp add: days_before_def)
  qed
qed

lemma month_of_result:
  "month_of m ls n = (m', d) \<Longrightarrow> n < sum_list ls \<Longrightarrow>
   m \<le> m' \<and> m' - m < length ls \<and> d < ls ! (m' - m) \<and> n = sum_list (take (m' - m) ls) + d"
proof (induction m ls n rule: month_of.induct)
  case (2 m l ls n)
  show ?case
  proof (cases "n < l")
    case True
    with 2 show ?thesis by simp
  next
    case False
    with 2 have "Suc m \<le> m' \<and> m' - Suc m < length ls \<and> d < ls ! (m' - Suc m) \<and>
        n - l = sum_list (take (m' - Suc m) ls) + d"
      by simp
    moreover obtain k where "m' = Suc m + k"
      using calculation le_Suc_ex by blast
    ultimately show ?thesis using False by auto
  qed
qed simp

lemma length_month_days [simp]: "length (month_days y) = 12"
  by (simp add: month_days_def)

lemma sum_month_days: "sum_list (month_days y) = year_days y"
  by (simp add: month_days_def year_days_def)

lemma civil_day_number:
  assumes "civil n = (y, m, d)"
  shows "valid_date y m d \<and> day_number y m d = n"
proof -
  obtain d1 where y: "year_of 0 n = (y, d1)" and m: "month_of 1 (month_days y) d1 = (m, d - 1)" "1 \<le> d"
    using assms by (auto simp: civil_def split: prod.splits)
  have n: "n = days_before y + d1" "d1 < year_days y"
    using year_of_result [OF y] by (simp_all add: days_before_def)
  from month_of_result [OF m(1)] n(2) have
    "1 \<le> m" "m - 1 < length (month_days y)" "d - 1 < month_days y ! (m - 1)"
    "d1 = sum_list (take (m - 1) (month_days y)) + (d - 1)"
    by (simp_all add: sum_month_days)
  then show ?thesis using n(1) m(2) by (cases d) (auto simp: valid_date_def day_number_def)
qed

section \<open>Fixed-width numbers\<close>

definition pad :: "nat \<Rightarrow> nat \<Rightarrow> string" where
  "pad k n = replicate (k - length (dec n)) (digit 0) @ dec n"

definition digits_n :: "nat \<Rightarrow> string \<Rightarrow> (nat \<times> string) option" where
  "digits_n k s =
     (if k \<le> length s \<and> list_all is_digit (take k s) then Some (undec (take k s), drop k s) else None)"

lemma undec_append: "undec (a @ b) = undec a * 10 ^ length b + undec b"
proof (induction b rule: rev_induct)
  case Nil
  show ?case by (simp add: undec_def)
next
  case (snoc c b)
  then show ?case
    using undec_snoc [of "a @ b" c] undec_snoc [of b c] by (simp add: algebra_simps)
qed

lemma undec_zeros: "undec (replicate k (digit 0)) = 0"
  by (induction k) (simp_all add: undec_def)

lemma length_dec: "n < 10 ^ k \<Longrightarrow> 0 < k \<Longrightarrow> length (dec n) \<le> k"
proof (induction k arbitrary: n)
  case (Suc k)
  show ?case
  proof (cases "n < 10")
    case True
    then show ?thesis by (simp add: dec.simps [of n])
  next
    case False
    with Suc.prems have "n div 10 < 10 ^ k" "0 < k" by (cases k; auto)+
    from Suc.IH [OF this] show ?thesis using False by (simp add: dec.simps [of n])
  qed
qed simp

lemma length_pad: "n < 10 ^ k \<Longrightarrow> 0 < k \<Longrightarrow> length (pad k n) = k"
  using length_dec [of n k] by (simp add: pad_def)

lemma pad_digits: "list_all is_digit (pad k n)"
  by (auto simp: pad_def list_all_iff dest: dec_digits)

lemma undec_pad: "undec (pad k n) = n"
  by (simp add: pad_def undec_append undec_zeros)

lemma digits_n_pad [simp]: "n < 10 ^ k \<Longrightarrow> 0 < k \<Longrightarrow> digits_n k (pad k n @ r) = Some (n, r)"
  using pad_digits [of k n] by (simp add: digits_n_def length_pad undec_pad)

section \<open>Fractions of a second\<close>

definition strip_zeros :: "string \<Rightarrow> string" where
  "strip_zeros s = rev (dropWhile (\<lambda>c. c = digit 0) (rev s))"

definition frac_text :: "nat \<Rightarrow> string" where
  "frac_text ns = (if ns = 0 then [] else CHR ''.'' # strip_zeros (pad 9 ns))"

text \<open>The digits after the point; those past the ninth are dropped.\<close>

definition parse_frac :: "string \<Rightarrow> (nat \<times> string) option" where
  "parse_frac s =
     (if has_prefix s ''.'' then
        (let ds = takeWhile is_digit (tl s) in
         if ds = [] then None
         else Some (undec (take 9 (ds @ replicate 9 (digit 0))), dropWhile is_digit (tl s)))
      else Some (0, s))"

lemma strip_zeros_append: "\<exists>k. strip_zeros s @ replicate k (digit 0) = s"
proof -
  let ?z = "takeWhile (\<lambda>c. c = digit 0) (rev s)"
  have "?z = replicate (length ?z) (digit 0)"
    by (rule replicate_eqI) (auto dest: set_takeWhileD)
  then have "rev ?z = replicate (length ?z) (digit 0)" by (metis rev_replicate)
  moreover have "strip_zeros s @ rev ?z = s"
    by (simp add: strip_zeros_def flip: rev_append)
  ultimately show ?thesis by metis
qed

lemma parse_frac_text:
  assumes "ns < 10 ^ 9" and "case r of [] \<Rightarrow> True | c # _ \<Rightarrow> \<not> is_digit c \<and> c \<noteq> CHR ''.''"
  shows "parse_frac (frac_text ns @ r) = Some (ns, r)"
proof (cases "ns = 0")
  case True
  then show ?thesis using assms(2) by (cases r) (auto simp: frac_text_def parse_frac_def)
next
  case False
  let ?s = "strip_zeros (pad 9 ns)"
  obtain k where k: "?s @ replicate k (digit 0) = pad 9 ns" using strip_zeros_append by blast
  have len: "length (pad 9 ns) = 9" using length_pad [OF assms(1)] by simp
  have "list_all is_digit (?s @ replicate k (digit 0))" using pad_digits [of 9 ns] by (simp only: k)
  then have dig: "list_all is_digit ?s" by simp
  have ne: "?s \<noteq> []"
    using k False undec_pad [of 9 ns] undec_zeros [of k] by (metis append_Nil)
  have tw: "takeWhile is_digit (?s @ r) = ?s" "dropWhile is_digit (?s @ r) = r"
    using dig assms(2) by (cases r; simp add: list_all_iff)+
  have "take 9 (?s @ replicate 9 (digit 0)) = pad 9 ns"
  proof -
    have "length ?s + k = 9" using len arg_cong [OF k, of length] by simp
    then have "take 9 (?s @ replicate 9 (digit 0)) = ?s @ replicate k (digit 0)" by simp
    then show ?thesis by (simp only: k)
  qed
  then show ?thesis using False tw ne by (simp add: frac_text_def parse_frac_def undec_pad)
qed

section \<open>RFC 3339\<close>

definition ns_per_day :: int where "ns_per_day = 86400000000000"

definition unix_epoch :: int where "unix_epoch = 719528 * ns_per_day"

definition zone_text :: "int \<Rightarrow> string" where
  "zone_text off =
     (if off = 0 then ''Z''
      else (if off < 0 then ''-'' else ''+'') @
        pad 2 (nat \<bar>off\<bar> div 60) @ '':'' @ pad 2 (nat \<bar>off\<bar> mod 60))"

definition clock_text :: "nat \<Rightarrow> string" where
  "clock_text s = pad 2 (s div 3600) @ '':'' @ pad 2 (s div 60 mod 60) @ '':'' @ pad 2 (s mod 60)"

text \<open>
  \<open>Time.MarshalJSON\<close>, without the quotes: it fails for a year above 9999 (or below 0) and for a
  zone that is a day or more off.
\<close>

definition time_text :: "int \<Rightarrow> int \<Rightarrow> string option" where
  "time_text off t =
     (let local = t + off * 60000000000 in
      if local < 0 \<or> 1440 \<le> \<bar>off\<bar> then None
      else
        (case civil (nat (local div ns_per_day)) of
           (y, m, d) \<Rightarrow>
             if 9999 < y then None
             else
               (let r = nat (local mod ns_per_day) in
                Some (pad 4 y @ ''-'' @ pad 2 m @ ''-'' @ pad 2 d @ ''T'' @
                      clock_text (r div 1000000000) @ frac_text (r mod 1000000000) @ zone_text off))))"

text \<open>A literal character, and the parts of the text one after the other.\<close>

definition lit :: "char \<Rightarrow> (nat \<times> string) option \<Rightarrow> (nat \<times> string) option" where
  "lit c p = (case p of Some (n, d # r) \<Rightarrow> if d = c then Some (n, r) else None | _ \<Rightarrow> None)"

definition parse_zone :: "string \<Rightarrow> int option" where
  "parse_zone s =
     (if s = ''Z'' then Some 0
      else
        (case s of
           [] \<Rightarrow> None
         | sg # rest \<Rightarrow>
             if sg = CHR ''+'' \<or> sg = CHR ''-'' then
               (case lit CHR '':'' (digits_n 2 rest) of
                  None \<Rightarrow> None
                | Some (h, r) \<Rightarrow>
                    (case digits_n 2 r of
                       Some (mi, []) \<Rightarrow>
                         if h < 24 \<and> mi < 60
                         then Some ((if sg = CHR ''-'' then - 1 else 1) * int (h * 60 + mi))
                         else None
                     | _ \<Rightarrow> None))
             else None))"

definition time_parse :: "string \<Rightarrow> int option" where
  "time_parse s0 =
     (case lit CHR ''-'' (digits_n 4 s0) of None \<Rightarrow> None | Some (y, s1) \<Rightarrow>
     (case lit CHR ''-'' (digits_n 2 s1) of None \<Rightarrow> None | Some (m, s2) \<Rightarrow>
     (case lit CHR ''T'' (digits_n 2 s2) of None \<Rightarrow> None | Some (d, s3) \<Rightarrow>
     (case lit CHR '':'' (digits_n 2 s3) of None \<Rightarrow> None | Some (h, s4) \<Rightarrow>
     (case lit CHR '':'' (digits_n 2 s4) of None \<Rightarrow> None | Some (mi, s5) \<Rightarrow>
     (case digits_n 2 s5 of None \<Rightarrow> None | Some (sec, s6) \<Rightarrow>
     (case parse_frac s6 of None \<Rightarrow> None | Some (ns, s7) \<Rightarrow>
     (case parse_zone s7 of None \<Rightarrow> None | Some off \<Rightarrow>
        if valid_date y m d \<and> h < 24 \<and> mi < 60 \<and> sec < 60 then
          Some (int (day_number y m d) * ns_per_day +
                int (h * 3600 + mi * 60 + sec) * 1000000000 + int ns - off * 60000000000)
        else None))))))))"

lemma lit_Some [simp]: "lit c (Some (n, c # r)) = Some (n, r)"
  by (simp add: lit_def)

lemma digits_60 [simp]: "digits_n 2 (pad 2 (n mod 60) @ r) = Some (n mod 60, r)"
proof -
  have "n mod 60 < 60" by simp
  then have "n mod 60 < 10 ^ 2" by simp
  then show ?thesis by (rule digits_n_pad) simp
qed

lemma parse_zone_text: "\<bar>off\<bar> < 1440 \<Longrightarrow> parse_zone (zone_text off) = Some off"
proof -
  assume "\<bar>off\<bar> < 1440"
  then have b: "nat \<bar>off\<bar> div 60 < 24" by simp
  have d: "digits_n 2 (pad 2 (n mod 60)) = Some (n mod 60, [])" for n
    using digits_n_pad [of "n mod 60" 2 "[]"] by simp
  have h: "lit CHR '':'' (digits_n 2 (pad 2 (nat \<bar>off\<bar> div 60) @ CHR '':'' # r)) =
      Some (nat \<bar>off\<bar> div 60, r)" for r
    using b by simp
  have "int (nat \<bar>off\<bar> div 60 * 60 + nat \<bar>off\<bar> mod 60) = \<bar>off\<bar>" by simp
  then show ?thesis
    using b by (auto simp: zone_text_def parse_zone_def h d)
qed

theorem time_parse_text:
  assumes "time_text off t = Some s"
  shows "time_parse s = Some t"
proof -
  define local where "local = t + off * 60000000000"
  obtain y m d where c: "civil (nat (local div ns_per_day)) = (y, m, d)"
    by (cases "civil (nat (local div ns_per_day))") auto
  have l: "0 \<le> local" "\<bar>off\<bar> < 1440" "y \<le> 9999"
    using assms c by (auto simp: time_text_def Let_def simp flip: local_def split: if_splits)
  define r where "r = nat (local mod ns_per_day)"
  let ?s = "r div 1000000000" and ?ns = "r mod 1000000000"
  have s: "s = pad 4 y @ ''-'' @ pad 2 m @ ''-'' @ pad 2 d @ ''T'' @ clock_text ?s @ frac_text ?ns @ zone_text off"
    using assms c l by (simp add: time_text_def Let_def r_def flip: local_def)
  have v: "valid_date y m d" "day_number y m d = nat (local div ns_per_day)"
    using civil_day_number [OF c] by simp_all
  have "month_days y ! (m - 1) \<le> 31"
    using v(1) by (auto simp: valid_date_def month_days_def nth_Cons' )
  then have md: "m < 100" "d < 100" using v(1) by (auto simp: valid_date_def)
  have r: "r < 86400000000000" by (simp add: r_def ns_per_day_def nat_less_iff)
  then have sb: "?s < 86400" by (simp add: less_mult_imp_div_less)
  then have hms: "?s div 3600 < 24" "?s div 60 mod 60 < 60" "?s mod 60 < 60" by auto
  have z: "case zone_text off of [] \<Rightarrow> True | c # _ \<Rightarrow> \<not> is_digit c \<and> c \<noteq> CHR ''.''"
    by (simp add: zone_text_def is_digit_def)
  have "?s div 3600 * 3600 + ?s div 60 mod 60 * 60 + ?s mod 60 = ?s"
  proof -
    have "?s div 3600 = ?s div 60 div 60" by (simp flip: div_mult2_eq)
    moreover have "?s div 60 div 60 * 60 + ?s div 60 mod 60 = ?s div 60" "?s div 60 * 60 + ?s mod 60 = ?s"
      by (rule div_mult_mod_eq)+
    ultimately show ?thesis by linarith
  qed
  moreover have "int ?s * 1000000000 + int ?ns = int r"
    using div_mult_mod_eq [of "int r" 1000000000] by (simp add: zdiv_int zmod_int)
  moreover have "int (day_number y m d) * ns_per_day + int r = local"
  proof -
    have "0 \<le> local div ns_per_day" "0 \<le> local mod ns_per_day"
      using l(1) by (simp_all add: ns_per_day_def pos_imp_zdiv_nonneg_iff)
    then show ?thesis using v(2) by (simp add: r_def)
  qed
  ultimately have "int (day_number y m d) * ns_per_day +
      int (?s div 3600 * 3600 + ?s div 60 mod 60 * 60 + ?s mod 60) * 1000000000 + int ?ns
      - off * 60000000000 = t"
    by (simp add: local_def)
  then show ?thesis
    unfolding s clock_text_def
    using l md hms v(1) parse_frac_text [OF _ z, of ?ns] parse_zone_text [of off]
    by (simp add: time_parse_def)
qed

end
