(* ===== verification/Snapshot.thy ===== *)
theory Snapshot
  imports Disk Client GoTime
begin

text \<open>
  Snapshots (\<open>snapshot.go\<close>): the metadata kept beside the files Firecracker writes, taking a snapshot
  of a paused VM (\<open>CreateSnapshot\<close>, \<open>CreateSnapshotRaw\<close>), and deleting, reading and listing them.
  Progress messages are left out.
\<close>

section \<open>Metadata\<close>

record Snapshot =
  ID :: string
  VMName :: string
  CreatedAt :: int
  VCPUs :: int
  SnapMemory :: int
  SnapPorts :: "PortMapping list"

definition instant :: "nat \<Rightarrow> int" where
  "instant n = unix_epoch + int n"

text \<open>Go's zero time is the first of January of the year 1.\<close>

definition zero_time :: int where
  "zero_time = 366 * ns_per_day"

definition zero_Snapshot :: Snapshot where
  "zero_Snapshot = \<lparr> ID = [], VMName = [], CreatedAt = zero_time, VCPUs = 0, SnapMemory = 0,
                    SnapPorts = [] \<rparr>"

definition enc_Snapshot :: "int \<Rightarrow> Snapshot \<Rightarrow> json" where
  "enc_Snapshot off s =
     JObj ([(''id'', JStr (ID s)), (''vm_name'', JStr (VMName s)),
            (''created_at'', JStr (case time_text off (CreatedAt s) of None \<Rightarrow> [] | Some t \<Rightarrow> t)),
            (''vcpus'', JInt (VCPUs s)), (''mem_size_mib'', JInt (SnapMemory s))] @
           omit_list ''ports'' enc_PortMapping (SnapPorts s))"

text \<open>\<open>json.MarshalIndent\<close> of the metadata fails when the time has no text.\<close>

definition marshal_Snapshot :: "env \<Rightarrow> Snapshot \<Rightarrow> err + string" where
  "marshal_Snapshot E s =
     (if time_text (zone E) (CreatedAt s) = None
      then Inl (ErrMsg ''json: error calling MarshalJSON for type time.Time'')
      else Inr (json_MarshalIndent (enc_Snapshot (zone E) s)))"

definition dec_time :: "int decoder" where
  "dec_time j old =
     (case j of
        JStr s \<Rightarrow> (case time_parse s of None \<Rightarrow> (old, False) | Some t \<Rightarrow> (t, True))
      | JNull \<Rightarrow> (old, True)
      | _ \<Rightarrow> (old, False))"

definition dec_Snapshot :: "Snapshot decoder" where
  "dec_Snapshot = dec_struct
     [(''id'', dec_field ID ID_update dec_string),
      (''vm_name'', dec_field VMName VMName_update dec_string),
      (''created_at'', dec_field CreatedAt CreatedAt_update dec_time),
      (''vcpus'', dec_field VCPUs VCPUs_update dec_int),
      (''mem_size_mib'', dec_field SnapMemory SnapMemory_update dec_int),
      (''ports'', dec_field SnapPorts SnapPorts_update (dec_list zero_PortMapping dec_PortMapping))]"

definition fits_Snapshot :: "int \<Rightarrow> Snapshot \<Rightarrow> bool" where
  "fits_Snapshot off s \<longleftrightarrow>
     time_text off (CreatedAt s) \<noteq> None \<and> int64_range (VCPUs s) \<and> int64_range (SnapMemory s) \<and>
     list_all fits_PortMapping (SnapPorts s)"

section \<open>Operations\<close>

definition snapshotID :: "env \<Rightarrow> string prog" where
  "snapshotID E = do { b \<leftarrow> rand_Read E 4; ret (''snap_'' @ hex_encode b) }"

definition not_found :: "string \<Rightarrow> string \<Rightarrow> err" where
  "not_found vmName sock =
     ErrMsg (''VM '' @ quote vmName @ '' not found (no socket at '' @ sock @ '')'')"

text \<open>The end of both ways of taking a snapshot: the metadata is made up and written.\<close>

definition write_metadata :: "env \<Rightarrow> string \<Rightarrow> Snapshot \<Rightarrow> unit go" where
  "write_metadata E dir meta =
     (case marshal_Snapshot E meta of
        Inl e \<Rightarrow> do { os_RemoveAll E dir; err (Wrap ''marshal metadata: '' e) }
      | Inr data \<Rightarrow>
          on_error (os_WriteFile E (Join [dir, ''metadata.json'']) data)
            (\<lambda>e. do { os_RemoveAll E dir; err (Wrap ''write metadata: '' e) }) ok)"

definition make_metadata :: "env \<Rightarrow> string \<Rightarrow> string \<Rightarrow> VMConfig \<Rightarrow> Snapshot prog" where
  "make_metadata E i vmName vmCfg = do {
     now \<leftarrow> time_Now E;
     ports \<leftarrow> loadVMPorts E vmName;
     ret \<lparr> ID = i, VMName = vmName, CreatedAt = instant now,
           VCPUs = (case vc_MachineConfig vmCfg of None \<Rightarrow> 0 | Some m \<Rightarrow> VcpuCount m),
           SnapMemory = (case vc_MachineConfig vmCfg of None \<Rightarrow> 0 | Some m \<Rightarrow> MemSizeMib m),
           SnapPorts = ports \<rparr>
   }"

definition full_snapshot :: "string \<Rightarrow> SnapshotCreate" where
  "full_snapshot dir =
     \<lparr> SnapshotType = ''Full'', SnapshotPath = Join [dir, ''state''], MemFilePath = Join [dir, ''memory''] \<rparr>"

text \<open>\<open>CreateSnapshot\<close> from the point where its deferred function is set up.\<close>

definition snapshot_paused ::
    "env \<Rightarrow> Client \<Rightarrow> string \<Rightarrow> string \<Rightarrow> string \<Rightarrow> VMConfig \<Rightarrow> string go" where
  "snapshot_paused E c i dir vmName vmCfg =
     on_error (PatchDrive E c ''rootfs'' (Join [dir, ''rootfs.ext4'']))
       (\<lambda>e. do { os_RemoveAll E dir; err (Wrap ''patch drive for snapshot: '' e) }) (\<lambda>_.
     on_error (client_CreateSnapshot E c (full_snapshot dir))
       (\<lambda>e. do { os_RemoveAll E dir; err (Wrap ''create snapshot: '' e) }) (\<lambda>_. do {
     meta \<leftarrow> make_metadata E i vmName vmCfg;
     on_error (write_metadata E dir meta) err (\<lambda>_. ok i) }))"

text \<open>
  The deferred function runs whatever the body returns. It assigns the error of a failed resume to
  a local variable, after the results have been set: they are not changed.
\<close>

definition CreateSnapshot :: "env \<Rightarrow> string \<Rightarrow> string go" where
  "CreateSnapshot E vmName =
     (let sock = socket_path E vmName; c = NewClient sock in
      on_error (os_Stat E sock) (\<lambda>_. err (not_found vmName sock)) (\<lambda>_.
      on_error (GetVMConfig E c) (\<lambda>e. err (Wrap ''get vm config: '' e)) (\<lambda>vmCfg. do {
      i \<leftarrow> snapshotID E;
      let dir = snapshotDir E i;
      let srcRootfs = Join [vmDataDir E vmName, ''rootfs.ext4''];
      let dstRootfs = Join [dir, ''rootfs.ext4''];
      on_error (os_MkdirAll E dir) (\<lambda>e. err (Wrap ''create snapshot dir: '' e)) (\<lambda>_. do {
      (out, e) \<leftarrow> exec_run E [''cp'', ''--reflink=auto'', srcRootfs, dstRootfs];
      (case e of
         Some e \<Rightarrow> do { os_RemoveAll E dir; err (Wrap (''copy rootfs: '' @ out @ '': '') e) }
       | None \<Rightarrow>
           on_error (client_PauseVM E c)
             (\<lambda>e. do { os_RemoveAll E dir; err (Wrap ''pause vm: '' e) }) (\<lambda>_. do {
           r \<leftarrow> snapshot_paused E c i dir vmName vmCfg;
           PatchDrive E c ''rootfs'' srcRootfs;
           client_ResumeVM E c;
           ret r }))
      }) })))"

record SnapshotRawResult =
  raw_ID :: string
  PausedAt :: int
  ResumedAt :: int

definition zero_raw :: SnapshotRawResult where
  "zero_raw = \<lparr> raw_ID = [], PausedAt = zero_time, ResumedAt = zero_time \<rparr>"

definition raw_paused ::
    "env \<Rightarrow> Client \<Rightarrow> string \<Rightarrow> string \<Rightarrow> string \<Rightarrow> VMConfig \<Rightarrow> (string \<Rightarrow> unit go) option \<Rightarrow> unit go" where
  "raw_paused E c i dir vmName vmCfg whilePaused =
     on_error (client_CreateSnapshot E c (full_snapshot dir))
       (\<lambda>e. do { os_RemoveAll E dir; err (Wrap ''create snapshot: '' e) }) (\<lambda>_.
     on_error (case whilePaused of None \<Rightarrow> ok () | Some hook \<Rightarrow> hook dir)
       (\<lambda>e. do { os_RemoveAll E dir; err (Wrap ''while-paused hook: '' e) }) (\<lambda>_. do {
     meta \<leftarrow> make_metadata E i vmName vmCfg;
     write_metadata E dir meta }))"

text \<open>Here the results are named, so the deferred function changes what is returned.\<close>

definition resume_error :: "err option \<Rightarrow> err + unit \<Rightarrow> err option" where
  "resume_error e r =
     (case r of
        Inr _ \<Rightarrow> e
      | Inl rerr \<Rightarrow>
          Some (case e of Some e \<Rightarrow> Also e rerr | None \<Rightarrow> Wrap ''resume vm: '' rerr))"

definition CreateSnapshotRaw ::
    "env \<Rightarrow> string \<Rightarrow> (string \<Rightarrow> unit go) option \<Rightarrow> (SnapshotRawResult \<times> err option) prog" where
  "CreateSnapshotRaw E vmName whilePaused =
     (let sock = socket_path E vmName; c = NewClient sock in
      on_error (os_Stat E sock) (\<lambda>_. ret (zero_raw, Some (not_found vmName sock))) (\<lambda>_.
      on_error (GetVMConfig E c) (\<lambda>e. ret (zero_raw, Some (Wrap ''get vm config: '' e))) (\<lambda>vmCfg. do {
      i \<leftarrow> snapshotID E;
      let dir = snapshotDir E i;
      on_error (os_MkdirAll E dir) (\<lambda>e. ret (zero_raw, Some (Wrap ''create snapshot dir: '' e))) (\<lambda>_. do {
      paused \<leftarrow> time_Now E;
      on_error (client_PauseVM E c)
        (\<lambda>e. do { os_RemoveAll E dir; ret (zero_raw, Some (Wrap ''pause vm: '' e)) }) (\<lambda>_. do {
      r \<leftarrow> raw_paused E c i dir vmName vmCfg whilePaused;
      rr \<leftarrow> client_ResumeVM E c;
      resumed \<leftarrow> time_Now E;
      ret (\<lparr> raw_ID = i, PausedAt = instant paused, ResumedAt = instant resumed \<rparr>,
           resume_error (case r of Inl e \<Rightarrow> Some e | Inr _ \<Rightarrow> None) rr)
      }) }) })))"

definition DeleteSnapshot :: "env \<Rightarrow> string \<Rightarrow> unit go" where
  "DeleteSnapshot E i =
     (let dir = snapshotDir E i in
      on_error (os_Stat E dir) (\<lambda>_. err (ErrMsg (''snapshot '' @ quote i @ '' not found''))) (\<lambda>_.
      os_RemoveAll E dir))"

definition GetSnapshot :: "env \<Rightarrow> string \<Rightarrow> Snapshot go" where
  "GetSnapshot E i =
     on_error (os_ReadFile E (Join [snapshotDir E i, ''metadata.json'']))
       (\<lambda>_. err (ErrMsg (''snapshot '' @ quote i @ '' not found''))) (\<lambda>data.
     case json_Unmarshal dec_Snapshot data zero_Snapshot of
       (s, good) \<Rightarrow>
         if good then ok s else err (Wrap ''corrupt snapshot metadata: '' (ErrMsg ''json'')))"

fun scan_snapshots :: "env \<Rightarrow> string \<Rightarrow> (string \<times> bool) list \<Rightarrow> Snapshot list prog" where
  "scan_snapshots E dir [] = ret []"
| "scan_snapshots E dir ((n, is_dir) # es) =
     (if \<not> is_dir \<or> \<not> has_prefix n ''snap_'' then scan_snapshots E dir es
      else
        on_error (os_ReadFile E (Join [dir, n, ''metadata.json''])) (\<lambda>_. scan_snapshots E dir es) (\<lambda>data.
        case json_Unmarshal dec_Snapshot data zero_Snapshot of
          (s, good) \<Rightarrow>
            if good then do { ss \<leftarrow> scan_snapshots E dir es; ret (s # ss) }
            else scan_snapshots E dir es))"

definition ListSnapshots :: "env \<Rightarrow> Snapshot list go" where
  "ListSnapshots E =
     (let dir = snapshotBaseDir E in
      on_error (os_ReadDir E dir) (\<lambda>e. if e = ENOENT then ok [] else err e) (\<lambda>entries. do {
      ss \<leftarrow> scan_snapshots E dir entries;
      ok ss }))"

section \<open>Lemmas\<close>

interpretation snap: object_codec "enc_Snapshot off" dec_Snapshot zero_Snapshot "fits_Snapshot off"
  for off :: int
proof
  fix s
  show "exact (enc_Snapshot off s)"
    by (auto simp: enc_Snapshot_def omit_list_def list_all_iff port.enc_exact)
  show "\<exists>kvs. enc_Snapshot off s = JObj kvs" by (simp add: enc_Snapshot_def)
  assume f: "fits_Snapshot off s"
  then obtain t where t: "time_text off (CreatedAt s) = Some t" by (auto simp: fits_Snapshot_def)
  show "dec_Snapshot (enc_Snapshot off s) zero_Snapshot = (s, True)"
    using f t time_parse_text [OF t] port.list_codec(2)
    by (cases s)
      (auto simp: enc_Snapshot_def dec_Snapshot_def zero_Snapshot_def fits_Snapshot_def codec_simps
        dec_time_def)
qed

interpretation snapshot_file: record_file fs_read fs_write same_path
  "enc_Snapshot off" dec_Snapshot zero_Snapshot "fits_Snapshot off" for off :: int
  by unfold_locales

lemma calls_snapshotID [extends_intros]: "P (Rand 4) \<Longrightarrow> calls P (snapshotID E)"
  unfolding snapshotID_def by (intro extends_intros)

lemma calls_make_metadata [extends_intros]:
  "P Now \<Longrightarrow> P (ReadFile (ports_path E n)) \<Longrightarrow> calls P (make_metadata E i n v)"
  unfolding make_metadata_def by (intro extends_intros)

lemma calls_write_metadata [extends_intros]:
  "P (RemoveAll dir) \<Longrightarrow> (\<And>d. P (WriteFile (Join [dir, ''metadata.json'']) d)) \<Longrightarrow>
   calls P (write_metadata E dir s)"
  unfolding write_metadata_def by (intro extends_intros)

text \<open>The requests that pause and resume a VM.\<close>

definition state_request :: "Client \<Rightarrow> string \<Rightarrow> string \<times> string \<times> string \<times> string" where
  "state_request c st = (socketPath c, ''PATCH'', ''/vm'', json_Marshal (JObj [(''state'', JStr st)]))"

lemma request_state:
  "ensures (\<lambda>w. requests w = xs) (client_PauseVM E c) (\<lambda>_ w. requests w = xs @ [state_request c ''Paused''])"
  "ensures (\<lambda>w. requests w = xs) (client_ResumeVM E c) (\<lambda>_ w. requests w = xs @ [state_request c ''Resumed''])"
  unfolding client_PauseVM_def client_ResumeVM_def state_request_def
  by (rule put_requests patch_requests; simp)+

lemma request_config:
  "ensures (\<lambda>w. requests w = xs) (GetVMConfig E c)
     (\<lambda>_ w. requests w = xs @ [(socketPath c, ''GET'', ''/vm/config'', [])])"
  unfolding GetVMConfig_def by (rule get_requests) simp

lemma state_requests_differ: "state_request c ''Paused'' \<noteq> (s, ''GET'', p, b)"
  by (simp add: state_request_def)

text \<open>A program that only adds to the log only adds requests.\<close>

lemma ensures_more_requests:
  "calls P m \<Longrightarrow> ensures (\<lambda>w. \<exists>rs. requests w = xs @ rs) m (\<lambda>_ w. \<exists>rs. requests w = xs @ rs)"
  by (rule ensuresI) (auto elim!: callsE simp: requests_append)

lemma ensures_resumed:
  "ensures (\<lambda>w. \<exists>rs. requests w = xs @ rs) (client_ResumeVM E c)
     (\<lambda>_ w. \<exists>rs. requests w = xs @ rs @ [state_request c ''Resumed''])"
  by (rule ensuresI) (use ensuresD [OF request_state(2)] in fastforce)

lemma calls_snapshot_paused: "calls (\<lambda>_. True) (snapshot_paused E c i dir n v)"
  unfolding snapshot_paused_def client_ops by (intro extends_intros TrueI)

section \<open>Properties\<close>

text \<open>
  What must hold of the requests \<open>rs\<close> of a call that took a snapshot with error \<open>e\<close>: if the VM was
  asked to pause, the last thing it was asked is to resume, unless pausing itself has failed.
\<close>

definition resumed_after ::
    "Client \<Rightarrow> err option \<Rightarrow> (string \<times> string \<times> string \<times> string) list \<Rightarrow> bool" where
  "resumed_after c e rs \<longleftrightarrow>
     state_request c ''Paused'' \<notin> set rs \<or> last rs = state_request c ''Resumed'' \<or>
     (\<exists>e'. e = Some (Wrap ''pause vm: '' e'))"

definition error_of :: "err + 'a \<Rightarrow> err option" where
  "error_of r = (case r of Inl e \<Rightarrow> Some e | Inr _ \<Rightarrow> None)"

lemma resumed_after_intros:
  "resumed_after c e []"
  "resumed_after c e [(s, ''GET'', p, b)]"
  "resumed_after c (Some (Wrap ''pause vm: '' e')) rs"
  "resumed_after c e (rs @ [state_request c ''Resumed''])"
  by (simp_all add: resumed_after_def state_requests_differ)

text \<open>Cases in which nothing more is asked of the VM.\<close>

lemma ensures_done:
  "calls no_request m \<Longrightarrow> (\<And>r. resumed_after c (f r) rs) \<Longrightarrow>
   ensures (\<lambda>w. requests w = xs @ rs) m (\<lambda>r w. \<exists>rs. requests w = xs @ rs \<and> resumed_after c (f r) rs)"
  by (rule ensures_weaken [OF ensures_same_requests [of m "\<lambda>q. q = xs @ rs"]]) auto

lemma create_snapshot_resumes:
  "ensures (\<lambda>w. requests w = xs) (CreateSnapshot E vmName)
     (\<lambda>r w. \<exists>rs. requests w = xs @ rs \<and>
        resumed_after (NewClient (socket_path E vmName)) (error_of r) rs)"
proof -
  define c where "c = NewClient (socket_path E vmName)"
  let ?Q = "\<lambda>r w. \<exists>rs. requests w = xs @ rs \<and> resumed_after c (error_of r) rs"
  let ?g = "(socketPath c, ''GET'', ''/vm/config'', [])"
  have tail: "ensures (\<lambda>w. requests w = (xs @ [?g]) @ [state_request c ''Paused''])
      (do { r \<leftarrow> snapshot_paused E c i dir vmName vmCfg; PatchDrive E c ''rootfs'' src; client_ResumeVM E c; ret r })
      ?Q" for i dir vmCfg src
  proof (rule ensures_bind [where R = "\<lambda>_ w. \<exists>rs. requests w = xs @ rs"])
    show "ensures (\<lambda>w. requests w = (xs @ [?g]) @ [state_request c ''Paused''])
        (snapshot_paused E c i dir vmName vmCfg) (\<lambda>_ w. \<exists>rs. requests w = xs @ rs)"
      by (rule ensures_pre [OF ensures_more_requests [OF calls_snapshot_paused]]) auto
    fix r
    show "ensures (\<lambda>w. \<exists>rs. requests w = xs @ rs) (do { PatchDrive E c ''rootfs'' src; client_ResumeVM E c; ret r }) ?Q"
    proof (rule ensures_bind)
      show "ensures (\<lambda>w. \<exists>rs. requests w = xs @ rs) (PatchDrive E c ''rootfs'' src) (\<lambda>_ w. \<exists>rs. requests w = xs @ rs)"
        by (rule ensures_more_requests [where P = "\<lambda>_. True"])
          (unfold PatchDrive_def, intro extends_intros TrueI)
      show "ensures (\<lambda>w. \<exists>rs. requests w = xs @ rs) (do { client_ResumeVM E c; ret r }) ?Q"
        by (rule ensures_bind [OF ensures_resumed], rule ensures_return)
          (use resumed_after_intros(4) in blast)
    qed
  qed
  have paused: "ensures (\<lambda>w. requests w = xs @ [?g])
      (on_error (client_PauseVM E c) (\<lambda>e. do { os_RemoveAll E dir; err (Wrap ''pause vm: '' e) }) k) ?Q"
    if "\<And>u. ensures (\<lambda>w. requests w = (xs @ [?g]) @ [state_request c ''Paused'']) (k u) ?Q" for dir k
    by (rule ensures_on_error [OF request_state(1)], rule same_bind, intro extends_intros no_request_simps)
      (rule ensures_return, use resumed_after_intros(3) in \<open>simp add: error_of_def\<close>, rule that)
  have stop: "ensures (\<lambda>w. requests w = xs @ [?g]) m ?Q" if "calls no_request m" for m :: "string go"
    using that by (rule ensures_done) (rule resumed_after_intros)
  have copied: "ensures (\<lambda>w. requests w = xs @ [?g]) (case p of (out, e) \<Rightarrow> case e of
        Some e \<Rightarrow> do { os_RemoveAll E dir; err (Wrap (''copy rootfs: '' @ out @ '': '') e) }
      | None \<Rightarrow> on_error (client_PauseVM E c) (\<lambda>e. do { os_RemoveAll E dir; err (Wrap ''pause vm: '' e) })
          (\<lambda>_. do { r \<leftarrow> snapshot_paused E c i dir vmName vmCfg; PatchDrive E c ''rootfs'' src;
                    client_ResumeVM E c; ret r })) ?Q" for p i dir vmCfg src
    by (intro ensures_prod ensures_option paused tail stop extends_intros no_request_simps)
  show ?thesis
    unfolding CreateSnapshot_def Let_def c_def [symmetric]
    apply (rule same_on_error, intro extends_intros no_request_simps)
     apply (rule ensures_return, simp add: resumed_after_intros)
    apply (rule ensures_on_error [OF request_config], rule stop, intro extends_intros no_request_simps)
    apply (rule same_bind, intro extends_intros no_request_simps)
    apply (rule same_on_error, intro extends_intros no_request_simps)
     apply (rule stop, intro extends_intros)
    apply (rule same_bind, intro extends_intros no_request_simps)
    apply (rule copied)
    done
qed

text \<open>C11: Taking a snapshot never leaves the VM paused: whenever the VM was asked to pause, the last
  request \<open>CreateSnapshot\<close> makes asks it to resume, whichever step between them failed.\<close>
theorem snapshot_resumes:
  "case run_state (CreateSnapshot E vmName) w of
     (r, w') \<Rightarrow> \<exists>rs. requests w' = requests w @ rs \<and>
       resumed_after (NewClient (socket_path E vmName)) (error_of r) rs"
  using create_snapshot_resumes [of "requests w" E vmName]
  by (auto simp: ensures_def split: prod.splits)

lemma calls_raw_paused:
  assumes "\<And>h d. hook = Some h \<Longrightarrow> calls (\<lambda>_. True) (h d)"
  shows "calls (\<lambda>_. True) (raw_paused E c i dir n v hook)"
  unfolding raw_paused_def client_ops by (intro extends_intros TrueI assms)

lemma raw_snapshot_resumes_aux:
  assumes hook: "\<And>h d. hook = Some h \<Longrightarrow> calls (\<lambda>_. True) (h d)"
  shows "ensures (\<lambda>w. requests w = xs) (CreateSnapshotRaw E vmName hook)
     (\<lambda>r w. \<exists>rs. requests w = xs @ rs \<and>
        resumed_after (NewClient (socket_path E vmName)) (snd r) rs)"
proof -
  define c where "c = NewClient (socket_path E vmName)"
  let ?Q = "\<lambda>r w. \<exists>rs. requests w = xs @ rs \<and> resumed_after c (snd r) rs"
  let ?g = "(socketPath c, ''GET'', ''/vm/config'', [])"
  have tail: "ensures (\<lambda>w. requests w = (xs @ [?g]) @ [state_request c ''Paused''])
      (do { r \<leftarrow> raw_paused E c i dir vmName vmCfg hook; rr \<leftarrow> client_ResumeVM E c;
            now \<leftarrow> time_Now E; ret (f r rr now) }) ?Q" for i dir vmCfg f
  proof (rule ensures_bind [where R = "\<lambda>_ w. \<exists>rs. requests w = xs @ rs"])
    show "ensures (\<lambda>w. requests w = (xs @ [?g]) @ [state_request c ''Paused''])
        (raw_paused E c i dir vmName vmCfg hook) (\<lambda>_ w. \<exists>rs. requests w = xs @ rs)"
      by (rule ensures_pre [OF ensures_more_requests [OF calls_raw_paused]]) (auto intro: hook)
    show "ensures (\<lambda>w. \<exists>rs. requests w = xs @ rs)
        (do { rr \<leftarrow> client_ResumeVM E c; now \<leftarrow> time_Now E; ret (f r rr now) }) ?Q" for r
    proof (rule ensures_bind [OF ensures_resumed])
      fix rr
      have "ensures (\<lambda>w. \<exists>rs. requests w = xs @ rs @ [state_request c ''Resumed'']) (time_Now E)
          (\<lambda>_ w. \<exists>rs. requests w = xs @ rs @ [state_request c ''Resumed''])"
        by (rule ensures_same_requests, intro extends_intros no_request_simps)
      then show "ensures (\<lambda>w. \<exists>rs. requests w = xs @ rs @ [state_request c ''Resumed''])
          (do { now \<leftarrow> time_Now E; ret (f r rr now) }) ?Q"
        by (rule ensures_bind, intro ensures_return) (use resumed_after_intros(4) in blast)
    qed
  qed
  have stop: "ensures (\<lambda>w. requests w = xs @ [?g]) m ?Q"
    if "calls no_request m" for m :: "(SnapshotRawResult \<times> err option) prog"
    using that by (rule ensures_done) (rule resumed_after_intros)
  show ?thesis
    unfolding CreateSnapshotRaw_def Let_def c_def [symmetric]
    apply (rule same_on_error, intro extends_intros no_request_simps)
     apply (rule ensures_return, simp add: resumed_after_intros)
    apply (rule ensures_on_error [OF request_config], rule stop, intro extends_intros no_request_simps)
    apply (rule same_bind, intro extends_intros no_request_simps)
    apply (rule same_on_error, intro extends_intros no_request_simps)
     apply (rule stop, intro extends_intros)
    apply (rule same_bind, intro extends_intros no_request_simps)
    apply (rule ensures_on_error [OF request_state(1)])
     apply (rule same_bind, intro extends_intros no_request_simps)
     apply (rule ensures_return, use resumed_after_intros(3) in simp)
    apply (rule tail)
    done
qed

text \<open>C12: The same holds of \<open>CreateSnapshotRaw\<close> with any hook that, like every call, only adds to
  the log.\<close>
theorem raw_snapshot_resumes:
  assumes "\<forall>h d. hook = Some h \<longrightarrow> calls (\<lambda>_. True) (h d)"
  shows "case run_state (CreateSnapshotRaw E vmName hook) w of
     ((res, e), w') \<Rightarrow> \<exists>rs. requests w' = requests w @ rs \<and>
       resumed_after (NewClient (socket_path E vmName)) e rs"
  using raw_snapshot_resumes_aux [of hook "requests w" E vmName] assms
  by (auto simp: ensures_def split: prod.splits)

theorem raw_snapshot_resumes_witness:
  "case run_state (CreateSnapshotRaw calm_env ''a'' (Some (\<lambda>d. os_CreateTrunc calm_env d))) empty_world of
     ((res, e), w') \<Rightarrow> \<exists>rs. requests w' = [] @ rs \<and>
       resumed_after (NewClient (socket_path calm_env ''a'')) e rs"
proof -
  have "\<forall>h d. Some (\<lambda>d. os_CreateTrunc calm_env d) = Some h \<longrightarrow> calls (\<lambda>_. True) (h d)"
    by (auto intro: extends_intros)
  from raw_snapshot_resumes [OF this, where E = calm_env and vmName = "''a''" and w = empty_world] show ?thesis
    by (simp add: requests_def List.map_filter_def)
qed

section \<open>Errors of a failed resume\<close>

definition resume_failure :: "err \<Rightarrow> bool" where
  "resume_failure e \<longleftrightarrow> (\<exists>e'. e = Wrap ''resume vm: '' e') \<or> (\<exists>d e'. e = Also d e')"

lemma resume_failure_simps [simp]:
  "resume_failure (Wrap s e) \<longleftrightarrow> s = ''resume vm: ''" "resume_failure (Also d e)"
  "\<not> resume_failure (ErrMsg s)"
  by (auto simp: resume_failure_def)

lemma fails_write_metadata: "fails (\<lambda>e _. \<not> resume_failure e) (write_metadata E dir s)"
  unfolding write_metadata_def by (intro fails_intros) simp_all

lemma fails_snapshot_paused: "fails (\<lambda>e _. \<not> resume_failure e) (snapshot_paused E c i dir n v)"
  unfolding snapshot_paused_def
  by (rule fails_on_error, intro fails_intros, simp, rule fails_on_error, intro fails_intros, simp,
      intro fails_bind fails_pass fails_write_metadata fails_ok)

text \<open>\<open>CreateSnapshot\<close> never reports that the VM could not be resumed: whatever the server
  answers, its error is not the one its deferred function makes of a failed resume, so a VM that
  stays paused goes unnoticed, even with a snapshot ID returned.\<close>
theorem resume_failure_swallowed:
  "case fst (run_state (CreateSnapshot E vmName) w) of Inl e \<Rightarrow> \<not> resume_failure e | Inr _ \<Rightarrow> True"
proof -
  have "fails (\<lambda>e _. \<not> resume_failure e) (CreateSnapshot E vmName)"
    unfolding CreateSnapshot_def Let_def
    apply (rule fails_on_error, rule fails_err, simp add: not_found_def)
    apply (rule fails_on_error, rule fails_err, simp)
    apply (rule fails_bind, rule fails_on_error, rule fails_err, simp)
    apply (rule fails_bind, intro fails_prod fails_option)
     apply (rule fails_on_error, rule fails_bind, rule fails_err, simp)
     apply (rule fails_keep [OF fails_snapshot_paused], simp add: run_simps split: prod.splits)
    apply (rule fails_bind, rule fails_err, simp)
    done
  then show ?thesis by (auto split: sum.splits dest!: failsD simp: prod_eq_iff)
qed

text \<open>A server that never lets the VM behind a socket resume.\<close>

definition never_resumes :: "env \<Rightarrow> string \<Rightarrow> bool" where
  "never_resumes E sock \<longleftrightarrow>
     (\<forall>w resp fs. serve E w sock ''PATCH'' ''/vm'' (json_Marshal (JObj [(''state'', JStr ''Resumed'')])) \<noteq>
        (Inr (204, resp), fs))"

lemma resume_fails:
  "never_resumes E (socketPath c) \<Longrightarrow> \<exists>e w'. run_state (client_ResumeVM E c) w = (Inl e, w')"
  by (auto simp: client_ResumeVM_def run_patch answer_def http_do_def never_resumes_def
      split: prod.splits sum.splits option.splits node.splits)

lemma ensures_bind_any:
  "(\<And>a. ensures (\<lambda>_. True) (f a) Q) \<Longrightarrow> ensures (\<lambda>_. True) (State_Monad.bind m f) Q"
  by (rule ensures_bind [OF ensures_triv])

lemma ensures_on_error_any:
  "(\<And>e. ensures (\<lambda>_. True) (h e) Q) \<Longrightarrow> (\<And>a. ensures (\<lambda>_. True) (k a) Q) \<Longrightarrow>
   ensures (\<lambda>_. True) (on_error m h k) Q"
  by (rule ensures_on_error [OF ensures_triv])

text \<open>\<open>CreateSnapshotRaw\<close> does report it: on a socket whose server never resumes the VM every call
  ends with an error.\<close>
theorem raw_resume_reported:
  assumes "never_resumes E (socket_path E vmName)"
  shows "snd (fst (run_state (CreateSnapshotRaw E vmName hook) w)) \<noteq> None"
proof -
  have resume: "ensures (\<lambda>_. True) (do { rr \<leftarrow> client_ResumeVM E (NewClient (socket_path E vmName));
      now \<leftarrow> time_Now E; ret (f now, resume_error e rr) }) (\<lambda>x _. snd x \<noteq> None)" for f e
  proof (rule ensures_bind [where R = "\<lambda>rr _. isl rr"])
    show "ensures (\<lambda>_. True) (client_ResumeVM E (NewClient (socket_path E vmName))) (\<lambda>rr _. isl rr)"
      using resume_fails [of E "NewClient (socket_path E vmName)"] assms
      by (auto simp: ensures_def NewClient_def split: prod.splits) (metis Pair_inject sum.disc(1))
    show "ensures (\<lambda>_. isl rr) (do { now \<leftarrow> time_Now E; ret (f now, resume_error e rr) })
        (\<lambda>x _. snd x \<noteq> None)" for rr
      by (auto simp: ensures_def run_simps resume_error_def split: prod.splits sum.splits)
  qed
  have "ensures (\<lambda>_. True) (CreateSnapshotRaw E vmName hook) (\<lambda>x _. snd x \<noteq> None)"
    unfolding CreateSnapshotRaw_def Let_def
    by (intro ensures_on_error_any ensures_bind_any resume ensures_return) simp_all
  then show ?thesis by (auto simp: ensures_def split_beta)
qed

definition stuck_env :: env where
  "stuck_env = calm_env \<lparr> serve := \<lambda>w sock meth path body.
     (if meth = ''PATCH'' then Inr (400, ''{}'') else if meth = ''GET'' then Inr (200, ''{}'')
      else Inr (204, []), files w) \<rparr>"

theorem raw_resume_reported_witness:
  "never_resumes stuck_env (socket_path stuck_env ''a'') \<and>
   snd (fst (run_state (CreateSnapshotRaw stuck_env ''a'' None) empty_world)) \<noteq> None"
proof -
  have "never_resumes stuck_env (socket_path stuck_env ''a'')"
    by (simp add: never_resumes_def stuck_env_def)
  from this raw_resume_reported [OF this] show ?thesis by blast
qed

section \<open>Reading, listing and deleting\<close>

lemma metadata_write_ok:
  assumes "run_state (write_metadata E dir s) w = (Inr (), w')"
  shows "time_text (zone E) (CreatedAt s) \<noteq> None \<and>
    fs_write (files w) (Join [dir, ''metadata.json'']) (json_MarshalIndent (enc_Snapshot (zone E) s)) =
      Inr (files w')"
proof (cases "marshal_Snapshot E s")
  case (Inl e)
  then show ?thesis using assms by (simp add: write_metadata_def run_simps split: prod.splits)
next
  case (Inr data)
  then show ?thesis
    using assms
    by (auto simp: write_metadata_def marshal_Snapshot_def run_simps os_WriteFile_def os_write_ok
        split: if_splits prod.splits sum.splits)
qed

text \<open>The metadata written for a snapshot is what \<open>GetSnapshot\<close> reads: every field, the ports and
  the time to the nanosecond, in whatever zone the program runs.\<close>
theorem metadata_round_trip:
  assumes "run_state (write_metadata E (snapshotDir E i) s) w = (Inr (), w')"
    and "int64_range (VCPUs s)" and "int64_range (SnapMemory s)"
    and "list_all fits_PortMapping (SnapPorts s)"
    and "fault E w' (ReadFile (Join [snapshotDir E i, ''metadata.json''])) = None"
  shows "fst (run_state (GetSnapshot E i) w') = Inr s"
proof -
  from metadata_write_ok [OF assms(1)]
  have t: "time_text (zone E) (CreatedAt s) \<noteq> None"
    and w: "fs_write (files w) (Join [snapshotDir E i, ''metadata.json''])
      (json_MarshalIndent (enc_Snapshot (zone E) s)) = Inr (files w')" by simp_all
  have "fits_Snapshot (zone E) s" using t assms(2-4) by (simp add: fits_Snapshot_def)
  from snapshot_file.load_saved_indent [OF w this] assms(5) show ?thesis
    by (simp add: GetSnapshot_def run_on_error os_ReadFile_def run_os_read run_simps)
qed

definition sample_snapshot :: Snapshot where
  "sample_snapshot = \<lparr> ID = ''snap_1'', VMName = ''a'', CreatedAt = 1234567, VCPUs = 2, SnapMemory = 512,
                       SnapPorts = [\<lparr> Host = 8080, Guest = 80 \<rparr>] \<rparr>"

definition snapshot_world :: world where
  "snapshot_world = empty_world \<lparr> files := [(snapshotDir calm_env ''snap_1'', Dir)] \<rparr>"

lemma sample_time: "time_text 0 (CreatedAt sample_snapshot) \<noteq> None"
  by (simp add: sample_snapshot_def time_text_def civil_def year_of.simps [of 0 0] ns_per_day_def
      year_days_def leap_def month_days_def)

lemma snapshot_world_write:
  "\<exists>w'. run_state (write_metadata calm_env (snapshotDir calm_env ''snap_1'') sample_snapshot) snapshot_world =
     (Inr (), w')"
proof -
  have p: "parent_dir (files snapshot_world) (Join [snapshotDir calm_env ''snap_1'', ''metadata.json''])"
    "fs_lookup (files snapshot_world) (Join [snapshotDir calm_env ''snap_1'', ''metadata.json'']) = None"
    by code_simp+
  then show ?thesis
    using sample_time
    by (auto simp: write_metadata_def marshal_Snapshot_def run_on_error run_simps os_WriteFile_def
        os_write_def fs_write_def)
qed

theorem metadata_round_trip_witness:
  "\<exists>w'. run_state (write_metadata calm_env (snapshotDir calm_env ''snap_1'') sample_snapshot) snapshot_world =
       (Inr (), w') \<and>
     fst (run_state (GetSnapshot calm_env ''snap_1'') w') = Inr sample_snapshot"
proof -
  obtain w' where w': "run_state (write_metadata calm_env (snapshotDir calm_env ''snap_1'') sample_snapshot)
      snapshot_world = (Inr (), w')"
    using snapshot_world_write by blast
  have "fst (run_state (GetSnapshot calm_env ''snap_1'') w') = Inr sample_snapshot"
    by (rule metadata_round_trip [OF w'])
      (simp_all add: sample_snapshot_def int64_range_def fits_PortMapping_def)
  with w' show ?thesis by blast
qed

text \<open>Deleting a snapshot that is there removes its directory with everything below it and
  nothing else; one that is not there is reported as not found, and nothing is removed.\<close>
theorem deleted_snapshot:
  "case run_state (DeleteSnapshot E i) w of
     (Inr _, w') \<Rightarrow>
       \<forall>q. fs_lookup (files w') q =
         (if root_path q then Some Dir else if below (snapshotDir E i) q then None
          else fs_lookup (files w) q)
   | (Inl e, w') \<Rightarrow>
       if stat_ok E w (snapshotDir E i)
       then trace w' = trace w @ [Stat (snapshotDir E i), RemoveAll (snapshotDir E i)]
       else e = ErrMsg (''snapshot '' @ quote i @ '' not found'') \<and> files w' = files w"
proof -
  let ?d = "snapshotDir E i"
  have ne: "?d \<noteq> []"
    using Clean_not_Nil by (simp add: snapshotDir_def snapshotBaseDir_def Join_def split: list.splits)
  obtain r v where st: "run_state (os_Stat E ?d) w = (r, v)" by fastforce
  then have v: "v = logged E (Stat ?d) w" using snd_os_Stat [of E ?d w] by simp
  obtain r' v' where rm: "run_state (os_RemoveAll E ?d) v = (r', v')" by fastforce
  have tr: "trace v' = trace v @ [RemoveAll ?d]"
    using arg_cong [OF rm, of "\<lambda>x. trace (snd x)"] by (simp add: os_RemoveAll_def)
  show ?thesis
  proof (cases r)
    case (Inl e)
    then have "\<not> stat_ok E w ?d" using st stat_result [of E ?d w] by simp
    then show ?thesis using st v Inl by (simp add: DeleteSnapshot_def Let_def run_on_error run_simps)
  next
    case (Inr n)
    then have "stat_ok E w ?d" using st stat_result [of E ?d w] by simp
    moreover have "fs_lookup (files v') q =
        (if root_path q then Some Dir else if below ?d q then None else fs_lookup (files w) q)"
      if "r' = Inr u" for u q
      using rm that v fs_remove_all_lookup [OF _ ne, of "files w"]
      by (auto simp: os_RemoveAll_def os_write_ok)
    ultimately show ?thesis
      using st v Inr rm tr by (cases r') (simp_all add: DeleteSnapshot_def Let_def run_on_error)
  qed
qed

text \<open>What a listing keeps of one directory entry, when no call fails.\<close>

definition listed :: "env \<Rightarrow> files \<Rightarrow> string \<times> bool \<Rightarrow> Snapshot option" where
  "listed E fs entry =
     (case entry of (n, is_dir) \<Rightarrow>
        if is_dir \<and> has_prefix n ''snap_'' then
          (case fs_read fs (Join [snapshotBaseDir E, n, ''metadata.json'']) of
             Inl _ \<Rightarrow> None
           | Inr data \<Rightarrow>
               (case json_Unmarshal dec_Snapshot data zero_Snapshot of
                  (s, good) \<Rightarrow> if good then Some s else None))
        else None)"

lemma run_scan:
  assumes "\<And>w p. fault E w (ReadFile p) = None"
  shows "fst (run_state (scan_snapshots E (snapshotBaseDir E) es) w) =
      List.map_filter (listed E (files w)) es \<and>
    files (snd (run_state (scan_snapshots E (snapshotBaseDir E) es) w)) = files w"
proof (induction es arbitrary: w)
  case Nil
  show ?case by (simp add: run_simps List.map_filter_def)
next
  case (Cons x es)
  obtain n b where x: "x = (n, b)" by (cases x)
  show ?case
    using Cons.IH [of "logged E (ReadFile (Join [snapshotBaseDir E, n, ''metadata.json''])) w"] Cons.IH [of w]
    by (auto simp: x run_on_error run_simps os_ReadFile_def run_os_read assms listed_def map_filter_simps
        split: sum.splits prod.splits)
qed



end
