(* ===== verification/Poll.thy ===== *)
theory Poll
  imports Disk GoTime
begin

text \<open>
  The two loops that wait for a VM to come up: \<open>waitForSocket\<close> looks for a file, \<open>WaitForSSH\<close> dials a
  port, each until a deadline. Both are loops of one shape, whose laws are the locale \<open>polling\<close>.
\<close>

section \<open>Durations\<close>

text \<open>\<open>Duration.String\<close>, in nanoseconds.\<close>

definition frac_digits :: "nat \<Rightarrow> nat \<Rightarrow> string" where
  "frac_digits k n = (if n = 0 then [] else CHR ''.'' # strip_zeros (pad k n))"

definition dur_text :: "int \<Rightarrow> string" where
  "dur_text d =
     (let u = nat \<bar>d\<bar>; s = u div 1000000000 in
      (if d < 0 then ''-'' else []) @
      (if u = 0 then ''0s''
       else if u < 1000 then dec u @ ''ns''
       else if u < 1000000 then dec (u div 1000) @ frac_digits 3 (u mod 1000) @ [CHR 0xC2, CHR 0xB5] @ ''s''
       else if u < 1000000000 then dec (u div 1000000) @ frac_digits 6 (u mod 1000000) @ ''ms''
       else (if 3600 \<le> s then dec (s div 3600) @ ''h'' else []) @
            (if 60 \<le> s then dec (s div 60 mod 60) @ ''m'' else []) @
            dec (s mod 60) @ frac_digits 9 (u mod 1000000000) @ ''s''))"

section \<open>The loops\<close>

function socket_appears :: "env \<Rightarrow> string \<Rightarrow> int \<Rightarrow> world \<Rightarrow> bool \<times> world" where
  "socket_appears E path deadline w =
     (case run_state (time_Now E) w of (now, w) \<Rightarrow>
      if int now < deadline then
        (case run_state (os_Stat E path) w of
           (Inr _, w) \<Rightarrow> (True, w)
         | (Inl _, w) \<Rightarrow>
             (case run_state (time_Sleep E 100000000) w of
                (_, w) \<Rightarrow> socket_appears E path deadline w))
      else (False, w))"
  by pat_completeness auto
termination
  by (relation "measure (\<lambda>(E, path, deadline, w). nat (deadline - int (clock w)))")
    (auto simp: time_Now_def time_Sleep_def os_Stat_def os_read_def logged_def split: option.splits)

definition waitForSocket :: "env \<Rightarrow> string \<Rightarrow> int \<Rightarrow> unit go" where
  "waitForSocket E path timeout = do {
     now \<leftarrow> time_Now E;
     found \<leftarrow> State (socket_appears E path (int now + timeout));
     (if found then ok ()
      else err (ErrMsg (''socket '' @ path @ '' did not appear within '' @ dur_text timeout)))
   }"

function port_answers :: "env \<Rightarrow> string \<Rightarrow> int \<Rightarrow> world \<Rightarrow> bool \<times> world" where
  "port_answers E addr deadline w =
     (case run_state (time_Now E) w of (now, w) \<Rightarrow>
      if int now < deadline then
        (case run_state (net_Dial E addr) w of
           (Inr _, w) \<Rightarrow> (True, w)
         | (Inl _, w) \<Rightarrow>
             (case run_state (time_Sleep E 500000000) w of
                (_, w) \<Rightarrow> port_answers E addr deadline w))
      else (False, w))"
  by pat_completeness auto
termination
  by (relation "measure (\<lambda>(E, addr, deadline, w). nat (deadline - int (clock w)))")
    (auto simp: time_Now_def time_Sleep_def net_Dial_def logged_def split: option.splits)

declare socket_appears.simps [simp del] port_answers.simps [simp del]

definition wait_for_port :: "env \<Rightarrow> int \<Rightarrow> int \<Rightarrow> unit go" where
  "wait_for_port E port timeout = do {
     now \<leftarrow> time_Now E;
     found \<leftarrow> State (port_answers E (''localhost:'' @ itoa port) (int now + timeout));
     (if found then ok ()
      else err (ErrMsg (''SSH port '' @ itoa port @ '' not ready within '' @ dur_text timeout)))
   }"

section \<open>What such a loop does\<close>

fun is_sleep :: "event \<Rightarrow> bool" where
  "is_sleep (Sleep _) = True"
| "is_sleep _ = False"

abbreviation slept :: "env \<Rightarrow> nat \<Rightarrow> world \<Rightarrow> world" where
  "slept E p w \<equiv> snd (run_state (time_Sleep E p) w)"

lemma slept_simps [simp]:
  "clock (slept E p w) = clock w + p + took E w (Sleep p)"
  "trace (slept E p w) = trace w @ [Sleep p]" "files (slept E p w) = meanwhile E w p"
  by (simp_all add: time_Sleep_def)

locale polling =
  fixes E :: env
    and probe :: "world \<Rightarrow> bool \<times> world"
    and pause :: nat
    and loop :: "int \<Rightarrow> world \<Rightarrow> bool \<times> world"
  assumes loop_unfold: "loop d w =
      (if int (clock w) < d then
         (case probe (logged E Now w) of
            (found, w') \<Rightarrow> if found then (True, w') else loop d (slept E pause w'))
       else (False, logged E Now w))"
    and probe_clock: "clock w \<le> clock (snd (probe w))"
    and probe_log: "\<exists>ev. trace (snd (probe w)) = trace w @ [ev] \<and> \<not> is_sleep ev"
    and pause_pos: "0 < pause"
begin

text \<open>The state after a round that has found nothing.\<close>

definition round_end :: "world \<Rightarrow> world" where
  "round_end w = slept E pause (snd (probe (logged E Now w)))"

lemma round_clock: "clock w + pause \<le> clock (round_end w)"
  using probe_clock [of "logged E Now w"] by (simp add: round_end_def)

lemma loop_cases:
  "loop d w =
     (if int (clock w) < d then
        if fst (probe (logged E Now w)) then (True, snd (probe (logged E Now w))) else loop d (round_end w)
      else (False, logged E Now w))"
  by (subst loop_unfold) (auto simp: round_end_def split: prod.splits)

lemma rounds_induct [case_names round]:
  assumes "\<And>w. (int (clock w) < d \<Longrightarrow> P (round_end w)) \<Longrightarrow> P w"
  shows "P w"
proof (induction "nat (d - int (clock w))" arbitrary: w rule: less_induct)
  case less
  show ?case
  proof (rule assms, rule less.hyps)
    assume "int (clock w) < d"
    then show "nat (d - int (clock (round_end w))) < nat (d - int (clock w))"
      using round_clock [of w] pause_pos by simp
  qed
qed

lemma gives_up_late: "loop d w = (False, w') \<Longrightarrow> d \<le> int (clock w')"
proof (induction w rule: rounds_induct [where d = d])
  case (round w)
  then show ?case
    by (subst (asm) (2) loop_cases) (auto split: if_splits)
qed

lemma found_by_probe:
  "loop d w = (True, w') \<Longrightarrow> \<exists>v. int (clock v) < d \<and> probe (logged E Now v) = (True, w')"
proof (induction w rule: rounds_induct [where d = d])
  case (round w)
  then show ?case
    by (subst (asm) (2) loop_cases) (auto split: if_splits intro!: exI [of _ w] prod_eqI)
qed

text \<open>The number of rounds is bounded by the time given.\<close>

lemma few_sleeps:
  "\<exists>es. trace (snd (loop d w)) = trace w @ es \<and>
     int (length (filter is_sleep es)) * int pause \<le> max 0 (d - int (clock w) + int pause - 1)"
proof (induction w rule: rounds_induct [where d = d])
  case (round w)
  let ?p = "probe (logged E Now w)"
  obtain ev where ev: "trace (snd ?p) = trace w @ [Now, ev]" "\<not> is_sleep ev"
    using probe_log [of "logged E Now w"] by auto
  show ?case
  proof (cases "int (clock w) < d")
    case False
    then show ?thesis by (subst loop_cases) (auto intro: exI [of _ "[Now]"])
  next
    case True
    show ?thesis
    proof (cases "fst ?p")
      case found: True
      with True ev show ?thesis by (subst loop_cases) (auto intro: exI [of _ "[Now, ev]"])
    next
      case False
      obtain es where es: "trace (snd (loop d (round_end w))) = trace (round_end w) @ es"
        "int (length (filter is_sleep es)) * int pause \<le> max 0 (d - int (clock (round_end w)) + int pause - 1)"
        using round [OF True] by auto
      have "trace (snd (loop d w)) = trace w @ [Now, ev, Sleep pause] @ es"
        using True False es(1) ev(1) by (subst loop_cases) (simp add: round_end_def)
      moreover have "int (length (filter is_sleep ([Now, ev, Sleep pause] @ es))) * int pause
          \<le> max 0 (d - int (clock w) + int pause - 1)"
        using es(2) ev(2) True round_clock [of w] by (simp add: algebra_simps)
      ultimately show ?thesis by blast
    qed
  qed
qed

text \<open>What is logged: the probes, the pauses and the looks at the clock.\<close>

lemma only_rounds:
  assumes "P Now" "P (Sleep pause)"
    and "\<And>w. \<exists>ev. trace (snd (probe w)) = trace w @ [ev] \<and> P ev"
  shows "\<exists>es. trace (snd (loop d w)) = trace w @ es \<and> list_all P es"
proof (induction w rule: rounds_induct [where d = d])
  case (round w)
  let ?p = "probe (logged E Now w)"
  obtain ev where ev: "trace (snd ?p) = trace w @ [Now, ev]" "P ev"
    using assms(3) [of "logged E Now w"] by auto
  consider "\<not> int (clock w) < d" | "int (clock w) < d" "fst ?p" | "int (clock w) < d" "\<not> fst ?p" by blast
  then show ?case
  proof cases
    case 3
    obtain es where es: "trace (snd (loop d (round_end w))) = trace (round_end w) @ es" "list_all P es"
      using round [OF 3(1)] by auto
    have "trace (snd (loop d w)) = trace w @ [Now, ev, Sleep pause] @ es"
      using 3 es(1) ev(1) by (subst loop_cases) (simp add: round_end_def)
    then show ?thesis using es(2) ev(2) assms by (intro exI [of _ "[Now, ev, Sleep pause] @ es"]) simp
  qed (subst loop_cases, use ev assms in \<open>auto intro: exI [of _ "[Now]"] exI [of _ "[Now, ev]"]\<close>)+
qed

text \<open>What turns up one round before the deadline is found.\<close>

lemma found_in_time:
  assumes "\<And>v. t \<le> int (clock (round_end v)) \<Longrightarrow> fst (probe (logged E Now (round_end v)))"
    and "\<And>v. clock (round_end v) \<le> clock v + period"
    and "int (clock w) < t" and "t + int period \<le> d"
  shows "fst (loop d w)"
  using assms(3)
proof (induction w rule: rounds_induct [where d = d])
  case (round w)
  have d: "int (clock w) < d" "int (clock (round_end w)) < d"
    using round.prems assms(2) [of w] assms(4) by linarith+
  show ?case
  proof (cases "t \<le> int (clock (round_end w))")
    case True
    then have "fst (loop d (round_end w))"
      using assms(1) [of w] d(2) by (subst loop_cases) simp
    then show ?thesis using d(1) by (subst loop_cases) simp
  next
    case False
    then show ?thesis using round.IH [OF d(1)] d(1) by (subst loop_cases) simp
  qed
qed

end

section \<open>The two loops are polling loops\<close>

definition stat_probe :: "env \<Rightarrow> string \<Rightarrow> world \<Rightarrow> bool \<times> world" where
  "stat_probe E path w = (case run_state (os_Stat E path) w of (r, w') \<Rightarrow> (\<not> isl r, w'))"

definition dial_probe :: "env \<Rightarrow> string \<Rightarrow> world \<Rightarrow> bool \<times> world" where
  "dial_probe E addr w = (case run_state (net_Dial E addr) w of (r, w') \<Rightarrow> (\<not> isl r, w'))"

lemma run_Now: "run_state (time_Now E) w = (clock w, logged E Now w)"
  by (simp add: time_Now_def)

lemma snd_stat_probe: "snd (stat_probe E path w) = logged E (Stat path) w"
  by (simp add: stat_probe_def os_Stat_def os_read_def split: prod.splits)

lemma fst_stat_probe:
  "fst (stat_probe E path w) \<longleftrightarrow>
     fault E w (Stat path) = None \<and> fs_lookup (files w) path \<noteq> None"
  by (auto simp: stat_probe_def os_Stat_def os_read_def fs_stat_def split: option.splits)

lemma snd_dial_probe: "snd (dial_probe E addr w) = logged E (Dial addr) w"
  by (simp add: dial_probe_def net_Dial_def split: prod.splits)

lemma fst_dial_probe: "fst (dial_probe E addr w) \<longleftrightarrow> dialled E w addr = None"
  by (auto simp: dial_probe_def net_Dial_def split: option.splits)

interpretation socket_wait: polling E "stat_probe E path" 100000000 "socket_appears E path"
  for E :: env and path :: string
proof
  fix d w
  show "socket_appears E path d w =
    (if int (clock w) < d then
       (case stat_probe E path (logged E Now w) of
          (found, w') \<Rightarrow> if found then (True, w') else socket_appears E path d (slept E 100000000 w'))
     else (False, logged E Now w))"
    by (subst socket_appears.simps)
      (auto simp: run_Now stat_probe_def time_Sleep_def split: prod.splits sum.splits)
qed (auto simp: snd_stat_probe)

interpretation ssh_wait: polling E "dial_probe E addr" 500000000 "port_answers E addr"
  for E :: env and addr :: string
proof
  fix d w
  show "port_answers E addr d w =
    (if int (clock w) < d then
       (case dial_probe E addr (logged E Now w) of
          (found, w') \<Rightarrow> if found then (True, w') else port_answers E addr d (slept E 500000000 w'))
     else (False, logged E Now w))"
    by (subst port_answers.simps)
      (auto simp: run_Now dial_probe_def time_Sleep_def split: prod.splits sum.splits)
qed (auto simp: snd_dial_probe)

lemma run_waitForSocket:
  "run_state (waitForSocket E path timeout) w =
     (case socket_appears E path (int (clock w) + timeout) (logged E Now w) of
        (found, w') \<Rightarrow>
          (if found then Inr ()
           else Inl (ErrMsg (''socket '' @ path @ '' did not appear within '' @ dur_text timeout)), w'))"
  by (simp add: waitForSocket_def run_simps run_Now split: prod.splits)

lemma run_wait_for_port:
  "run_state (wait_for_port E port timeout) w =
     (case port_answers E (''localhost:'' @ itoa port) (int (clock w) + timeout) (logged E Now w) of
        (found, w') \<Rightarrow>
          (if found then Inr ()
           else Inl (ErrMsg (''SSH port '' @ itoa port @ '' not ready within '' @ dur_text timeout)), w'))"
  by (simp add: wait_for_port_def run_simps run_Now split: prod.splits)

lemma calls_waitForSocket [extends_intros]:
  assumes "P Now" "P (Stat path)" "P (Sleep 100000000)"
  shows "calls P (waitForSocket E path timeout)"
proof -
  have "calls P (State (socket_appears E path d))" for d
    unfolding calls_def using assms by (auto intro!: socket_wait.only_rounds simp: snd_stat_probe)
  then show ?thesis unfolding waitForSocket_def by (intro extends_intros assms)
qed

lemma calls_wait_for_port [extends_intros]:
  assumes "P Now" "P (Dial (''localhost:'' @ itoa port))" "P (Sleep 500000000)"
  shows "calls P (wait_for_port E port timeout)"
proof -
  have "calls P (State (port_answers E (''localhost:'' @ itoa port) d))" for d
    unfolding calls_def using assms by (auto intro!: ssh_wait.only_rounds simp: snd_dial_probe)
  then show ?thesis unfolding wait_for_port_def by (intro extends_intros assms)
qed

lemma sleeps_bounded:
  assumes "trace (snd x) = trace (logged E Now w) @ es"
    and "int (length (filter is_sleep es)) * p \<le> max 0 (int (clock w) + timeout - int (clock (logged E Now w)) + p - 1)"
  shows "\<exists>es. trace (snd x) = trace w @ es \<and> int (length (filter is_sleep es)) * p \<le> max 0 (timeout + p - 1)"
  using assms by (intro exI [of _ "Now # es"]) auto

text \<open>C29: Waiting for the API socket always comes to an end: after at most one pause of 100 ms more than
  the timeout has room for, either the socket is there, or the whole timeout has passed.\<close>
theorem wait_for_socket:
  "case run_state (waitForSocket E path timeout) w of
     (r, w') \<Rightarrow>
       (case r of Inr _ \<Rightarrow> fs_lookup (files w') path \<noteq> None
        | Inl _ \<Rightarrow> int (clock w) + timeout \<le> int (clock w')) \<and>
       (\<exists>es. trace w' = trace w @ es \<and>
          int (length (filter is_sleep es)) * 100000000 \<le> max 0 (timeout + 99999999))"
proof -
  let ?x = "socket_appears E path (int (clock w) + timeout) (logged E Now w)"
  have sleeps: "\<exists>es. trace (snd ?x) = trace w @ es \<and>
      int (length (filter is_sleep es)) * 100000000 \<le> max 0 (timeout + 99999999)"
    using sleeps_bounded [where p = 100000000]
      socket_wait.few_sleeps [of E path "int (clock w) + timeout" "logged E Now w"] by fastforce
  obtain found w' where x: "?x = (found, w')" by fastforce
  have "fs_lookup (files w') path \<noteq> None" if f: found
  proof -
    obtain v where v: "stat_probe E path (logged E Now v) = (True, w')"
      using socket_wait.found_by_probe [of E path _ _ w'] x f by auto
    then show ?thesis
      using fst_stat_probe [of E path "logged E Now v"] snd_stat_probe [of E path "logged E Now v"] by auto
  qed
  moreover have "int (clock w) + timeout \<le> int (clock w')" if "\<not> found"
    using socket_wait.gives_up_late x that by auto
  ultimately show ?thesis using sleeps x by (auto simp: run_waitForSocket)
qed

text \<open>C39: A socket that is there from some time on is found, when that time is at least a round before
  the deadline: a round is 100 ms and the time of the three calls in it.\<close>
theorem socket_found_in_time:
  assumes "\<forall>v. fault E v (Stat path) = None" and "\<forall>v ev. took E v ev \<le> lag"
    and "\<forall>v. t \<le> int (clock (slept E 100000000 v)) \<longrightarrow>
           fs_lookup (files (slept E 100000000 v)) path \<noteq> None"
    and "int (clock w) + int lag < t" and "t + 3 * int lag + 100000000 \<le> int (clock w) + timeout"
  shows "fst (run_state (waitForSocket E path timeout) w) = Inr ()"
proof -
  have r: "socket_wait.round_end E path v = slept E 100000000 (logged E (Stat path) (logged E Now v))" for v
    by (simp add: socket_wait.round_end_def snd_stat_probe)
  have lag: "took E v ev \<le> lag" for v ev using assms(2) by blast
  have "clock (socket_wait.round_end E path v) \<le> clock v + (3 * lag + 100000000)" for v
    using lag [of v Now] lag [of "logged E Now v" "Stat path"]
      lag [of "logged E (Stat path) (logged E Now v)" "Sleep 100000000"]
    by (simp add: r)
  moreover have "fst (stat_probe E path (logged E Now (socket_wait.round_end E path v)))"
    if "t \<le> int (clock (socket_wait.round_end E path v))" for v
    using that assms(1,3) unfolding r fst_stat_probe by simp
  moreover have "int (clock (logged E Now w)) < t"
    using lag [of w Now] assms(4) by simp
  ultimately have "fst (socket_appears E path (int (clock w) + timeout) (logged E Now w))"
    using assms(5) by (intro socket_wait.found_in_time [where t = t and period = "3 * lag + 100000000"]) auto
  then show ?thesis by (auto simp: run_waitForSocket split: prod.splits)
qed


definition late_socket :: env where
  "late_socket = calm_env\<lparr> meanwhile :=
     \<lambda>v d. if 300000000 \<le> clock v + d then [(''/run/a.socket'', Socket)] else files v \<rparr>"

lemma socket_found_in_time_witness:
  "fst (run_state (waitForSocket late_socket ''/run/a.socket'' 5000000000) empty_world) = Inr ()"
proof (rule socket_found_in_time [where t = 300000000 and lag = 0])
  have "fs_lookup [(''/run/a.socket'', Socket)] ''/run/a.socket'' = Some Socket"
    by (simp add: fs_lookup_def Clean_def path_comps_def Let_def is_rooted_def)
  then show "\<forall>v. 300000000 \<le> int (clock (slept late_socket 100000000 v)) \<longrightarrow>
      fs_lookup (files (slept late_socket 100000000 v)) ''/run/a.socket'' \<noteq> None"
    by (simp add: late_socket_def calm_env_def)
qed (simp_all add: late_socket_def calm_env_def)

end
