(* ===== verification/Vm.thy ===== *)
theory Vm
  imports Snapshot Dns Poll
begin

text \<open>
  Starting a VM under pasta (\<open>Run\<close> of \<open>vm.go\<close>): the namespace script, the command line with its CPU
  quota, the rate limits, and the sequence of API calls with the cleanup after each that can fail.
  The writers of the process's output are left out; a cancelled context shows as calls that fail.
\<close>

section \<open>The VM\<close>

text \<open>
  \<open>vm_cmd\<close> is the process id of a child of this program (\<open>cmd\<close>), absent for an adopted or listed VM,
  and \<open>vm_client\<close> is nil for a stopped one.
\<close>

record VM =
  vm_Name :: string
  vm_PID :: int
  vm_SocketPath :: string
  vm_StartedAt :: int
  vm_Status :: string
  vm_CPUs :: float64
  vm_Memory :: int
  vm_Port :: int
  vm_cmd :: "nat option"
  vm_client :: "Client option"
  vm_diskPath :: string

section \<open>The command\<close>

definition namespaceSetupScript :: "networkConfig \<Rightarrow> PortMapping list \<Rightarrow> string \<Rightarrow> string \<Rightarrow> string" where
  "namespaceSetupScript nc ports fcBin sock =
     (let subnetBase = IPv4 172 16 (oct3 (HostIP nc)) (oct4 (HostIP nc) AND 0xFC);
          tap = TAPDevice nc; g = ip_string (GuestIP nc) in
      ''ip tuntap add dev '' @ tap @ '' mode tap'' @
      '' && ip addr add '' @ ip_string (HostIP nc) @ ''/30 dev '' @ tap @
      '' && ip link set dev '' @ tap @ '' address '' @ tapMAC @
      '' && ip link set '' @ tap @ '' up'' @
      '' && sysctl -qw net.ipv4.ip_forward=1'' @
      '' && nft '' @ [CHR 0x27] @ ''add table ip nat; '' @
      ''add chain ip nat prerouting { type nat hook prerouting priority -100 ; }; '' @
      ''add chain ip nat output { type nat hook output priority -100 ; }; '' @
      ''add chain ip nat postrouting { type nat hook postrouting priority 100 ; }; '' @
      ''add rule ip nat prerouting tcp dport 22 dnat to '' @ g @
      ''; add rule ip nat output tcp dport 22 dnat to '' @ g @
      concat (map (\<lambda>p.
        ''; add rule ip nat prerouting tcp dport '' @ itoa (Guest p) @ '' dnat to '' @ g @
        ''; add rule ip nat output tcp dport '' @ itoa (Guest p) @ '' dnat to '' @ g) ports) @
      ''; add rule ip nat postrouting ip saddr '' @ ip_string subnetBase @ ''/30 oifname != '' @
      [CHR 0x22] @ tap @ [CHR 0x22] @ '' masquerade'' @ [CHR 0x27] @
      '' && exec '' @ fcBin @ '' --api-sock '' @ sock @ '' --enable-pci'')"

definition pastaArgs :: "networkConfig \<Rightarrow> PortMapping list \<Rightarrow> string \<Rightarrow> string list" where
  "pastaArgs nc ports script =
     [''--config-net'', ''-t'', itoa (SSHPort nc) @ '':22''] @
     concat (map (\<lambda>p. [''-t'', itoa (Host p) @ '':'' @ itoa (Guest p)]) ports) @
     [''-4'', ''-f'', ''--'', ''sh'', ''-c'', script]"

definition vcpus_of :: "env \<Rightarrow> float64 \<Rightarrow> int" where
  "vcpus_of E cpus = (let v = f_to_int (wide_int E) (f_ceil cpus) in if v < 1 then 1 else v)"

definition needsQuota :: "env \<Rightarrow> float64 \<Rightarrow> bool" where
  "needsQuota E cpus \<longleftrightarrow> \<not> f_eq cpus (f_of_int (vcpus_of E cpus))"

definition cpu_quota :: "env \<Rightarrow> float64 \<Rightarrow> int" where
  "cpu_quota E cpus = f_to_int (wide_int E) (f_ceil (f_mul cpus (f_of_int 100)))"

definition pasta_command :: "env \<Rightarrow> float64 \<Rightarrow> string \<Rightarrow> string list \<Rightarrow> string list" where
  "pasta_command E cpus pastaBin args =
     (if needsQuota E cpus then
        [''systemd-run'', ''--user'', ''--scope'', ''-q'',
         ''-p'', ''CPUQuota='' @ itoa (cpu_quota E cpus) @ ''%'', ''--'', pastaBin] @ args
      else pastaBin # args)"

section \<open>Devices\<close>

text \<open>Multiplication of two \<open>int64\<close>.\<close>

definition mul64 :: "int \<Rightarrow> int \<Rightarrow> int" where
  "mul64 a b = (a * b + 2 ^ 63) mod 2 ^ 64 - 2 ^ 63"

definition bucket :: "int \<Rightarrow> TokenBucket" where
  "bucket n = \<lparr> Size = n, OneTimeBurst = 0, RefillTimeMs = 1000 \<rparr>"

definition drive_of :: "Config \<Rightarrow> string \<Rightarrow> Drive" where
  "drive_of cfg diskPath =
     \<lparr> DriveID = ''rootfs'', PathOnHost = diskPath, IsRootDevice = True, IsReadOnly = False,
       RateLimit =
         (if DiskMBps cfg > 0 \<or> DiskIOPS cfg > 0 then
            Some \<lparr> Bandwidth = (if DiskMBps cfg > 0 then Some (bucket (mul64 (DiskMBps cfg) 1000000)) else None),
                   Ops = (if DiskIOPS cfg > 0 then Some (bucket (DiskIOPS cfg)) else None) \<rparr>
          else None) \<rparr>"

definition nic_of :: "env \<Rightarrow> Config \<Rightarrow> networkConfig \<Rightarrow> NetworkInterface" where
  "nic_of E cfg nc =
     (let limiter =
        (if f_less (Fin 0 0) (NetworkMbps cfg) then
           Some \<lparr> Bandwidth = Some (bucket
                    (f_to_int (wide_int E) (f_div8 (f_mul (NetworkMbps cfg) (f_of_int 1000000))))),
                  Ops = None \<rparr>
         else None)
      in \<lparr> IfaceID = ''eth0'', HostDevName = TAPDevice nc, NicMAC = GuestMAC nc,
           RxRateLimiter = limiter, TxRateLimiter = limiter \<rparr>)"

section \<open>Booting and restoring\<close>

text \<open>
  \<^verbatim>\<open>if err := m(); err != nil { cleanup(); return nil, fmt.Errorf("what: %w", err) }\<close>
\<close>

definition guarded ::
    "unit prog \<Rightarrow> string \<Rightarrow> 'a go \<Rightarrow> ('a \<Rightarrow> 'b go) \<Rightarrow> 'b go" where
  "guarded cleanup what m k = on_error m (\<lambda>e. do { cleanup; err (Wrap (what @ '': '') e) }) k"

definition boot_calls ::
    "env \<Rightarrow> unit prog \<Rightarrow> Client \<Rightarrow> string \<Rightarrow> string \<Rightarrow> Drive \<Rightarrow> NetworkInterface \<Rightarrow> MachineConfig \<Rightarrow>
     unit go" where
  "boot_calls E cleanup client vmlinux bootArgs drive nic mc =
     guarded cleanup ''set boot source'' (SetBootSource E client
       \<lparr> KernelImagePath = vmlinux, BootArgs = bootArgs, InitrdPath = [] \<rparr>) (\<lambda>_.
     guarded cleanup ''set drive'' (SetDrive E client drive) (\<lambda>_.
     guarded cleanup ''set network'' (SetNetworkInterface E client nic) (\<lambda>_.
     guarded cleanup ''set machine config'' (SetMachineConfig E client mc) (\<lambda>_.
     guarded cleanup ''start instance'' (StartInstance E client) (\<lambda>_. ok ())))))"

definition restore_calls :: "env \<Rightarrow> unit prog \<Rightarrow> Client \<Rightarrow> string \<Rightarrow> string \<Rightarrow> unit go" where
  "restore_calls E cleanup client snapDir diskPath =
     guarded cleanup ''load snapshot''
       (LoadSnapshot E client (Join [snapDir, ''state'']) (Join [snapDir, ''memory''])) (\<lambda>_.
     guarded cleanup ''patch drive'' (PatchDrive E client ''rootfs'' diskPath) (\<lambda>_.
     guarded cleanup ''resume vm'' (client_ResumeVM E client) (\<lambda>_. ok ())))"

text \<open>The VM that is returned, once the ports have been saved; a failure to save them is ignored.\<close>

definition started_vm ::
    "env \<Rightarrow> Config \<Rightarrow> string \<Rightarrow> nat \<Rightarrow> float64 \<Rightarrow> int \<Rightarrow> int \<Rightarrow> Client \<Rightarrow> string \<Rightarrow> VM go" where
  "started_vm E cfg sock pid cpus memory port client diskPath = do {
     saveVMPorts E (Name cfg) (Ports cfg);
     now \<leftarrow> time_Now E;
     ok \<lparr> vm_Name = Name cfg, vm_PID = int pid, vm_SocketPath = sock, vm_StartedAt = instant now,
          vm_Status = ''Running'', vm_CPUs = cpus, vm_Memory = memory, vm_Port = port,
          vm_cmd = Some pid, vm_client = Some client, vm_diskPath = diskPath \<rparr>
   }"

definition snapshot_memory :: "Config \<Rightarrow> Snapshot \<Rightarrow> int" where
  "snapshot_memory cfg s = (if SnapMemory s = 0 then Memory cfg else SnapMemory s)"

definition load_snapshot :: "env \<Rightarrow> Config \<Rightarrow> Snapshot option go" where
  "load_snapshot E cfg =
     (if SnapshotID cfg \<noteq> [] then
        on_error (GetSnapshot E (SnapshotID cfg)) err (\<lambda>s. ok (Some s))
      else ok None)"

definition with_snapshot_ports :: "Config \<Rightarrow> Snapshot option \<Rightarrow> Config" where
  "with_snapshot_ports cfg snap =
     (case snap of
        None \<Rightarrow> cfg
      | Some s \<Rightarrow> cfg\<lparr>Ports := mergeUniquePorts (SnapPorts s) (Ports cfg)\<rparr>)"

definition vm_network :: "string \<Rightarrow> Snapshot option \<Rightarrow> networkConfig" where
  "vm_network name snap =
     (let nc = deriveNetwork name in
      case snap of
        None \<Rightarrow> nc
      | Some s \<Rightarrow>
          (let orig = deriveNetwork (VMName s) in
           nc\<lparr>TAPDevice := TAPDevice orig, HostIP := HostIP orig, GuestIP := GuestIP orig,
              GuestMAC := GuestMAC orig\<rparr>))"

definition run_cleanup :: "env \<Rightarrow> string \<Rightarrow> string \<Rightarrow> nat option \<Rightarrow> unit prog" where
  "run_cleanup E sock name child = do {
     (case child of
        None \<Rightarrow> ret ()
      | Some pid \<Rightarrow> do { proc_Kill E pid; cmd_Wait E pid; ret () });
     os_Remove E sock;
     removeDisk E name;
     ret ()
   }"

definition run_boot ::
    "env \<Rightarrow> Config \<Rightarrow> networkConfig \<Rightarrow> unit prog \<Rightarrow> string \<Rightarrow> Client \<Rightarrow> unit go" where
  "run_boot E cfg nc cleanup diskPath client = do {
     dns \<leftarrow> hostNameservers E;
     boot_calls E cleanup client (Kernel cfg) (run_boot_args nc dns) (drive_of cfg diskPath)
       (nic_of E cfg nc) \<lparr> VcpuCount = vcpus_of E (CPUs cfg), MemSizeMib = Memory cfg, Smt = False \<rparr>
   }"

text \<open>\<open>Run\<close> from the point where the disk is ready.\<close>

definition run_launch ::
    "env \<Rightarrow> Config \<Rightarrow> Snapshot option \<Rightarrow> string \<Rightarrow> string \<Rightarrow> VM go" where
  "run_launch E cfg snap sock diskPath =
     (let nc = vm_network (Name cfg) snap;
          script = namespaceSetupScript nc (Ports cfg) (FirecrackerBin cfg) sock;
          cpus = (case snap of None \<Rightarrow> CPUs cfg | Some s \<Rightarrow> f_of_int (VCPUs s));
          argv = pasta_command E cpus (PastaBin cfg) (pastaArgs nc (Ports cfg) script);
          cleanup = run_cleanup E sock (Name cfg) in
      guarded (cleanup None) ''open /dev/null''
        (if Detach cfg then on_error (os_OpenWrite E ''/dev/null'') err (\<lambda>_. ok ()) else ok ()) (\<lambda>_.
      guarded (cleanup None) ''start pasta'' (exec_start E argv (Detach cfg)) (\<lambda>pid.
      guarded (cleanup (Some pid)) ''waiting for firecracker socket''
        (waitForSocket E sock 5000000000) (\<lambda>_.
      let client = NewClient sock in
      case snap of
        Some s \<Rightarrow>
          on_error (restore_calls E (cleanup (Some pid)) client (snapshotDir E (SnapshotID cfg)) diskPath)
            err (\<lambda>_.
          started_vm E cfg sock pid (f_of_int (VCPUs s)) (snapshot_memory cfg s) (SSHPort nc)
            client diskPath)
      | None \<Rightarrow>
          on_error (run_boot E cfg nc (cleanup (Some pid)) diskPath client) err (\<lambda>_.
          started_vm E cfg sock pid (CPUs cfg) (Memory cfg) (SSHPort nc) client diskPath)))))"

text \<open>\<open>Run\<close> with the defaults filled in.\<close>

definition run_configured :: "env \<Rightarrow> Config \<Rightarrow> VM go" where
  "run_configured E cfg =
     on_error (validate E cfg) (\<lambda>e. err (Wrap ''config: '' e)) (\<lambda>_.
     on_error (load_snapshot E cfg) err (\<lambda>snap.
     let cfg = with_snapshot_ports cfg snap; socketDir = socketDirectory E;
         sock = Join [socketDir, Name cfg @ ''.socket''] in
     on_error (os_MkdirAll E socketDir) (\<lambda>e. err (Wrap ''create socket dir: '' e)) (\<lambda>_. do {
     os_Remove E sock;
     on_error
       (case snap of
          Some s \<Rightarrow> prepareDiskFromSnapshot E (Name cfg) (SnapshotID cfg)
        | None \<Rightarrow> prepareDisk E (Name cfg) (RootFS cfg) (RootFSSize cfg))
       (\<lambda>e. err (Wrap ''prepare disk: '' e)) (\<lambda>diskPath.
     run_launch E cfg snap sock diskPath) })))"

definition Run :: "env \<Rightarrow> Config \<Rightarrow> VM go" where
  "Run E cfg = do { cfg \<leftarrow> setDefaults E cfg; run_configured E cfg }"

section \<open>The requests of a start\<close>

type_synonym api_request = "string \<times> string \<times> string \<times> string"

definition boot_requests ::
    "string \<Rightarrow> string \<Rightarrow> string \<Rightarrow> Drive \<Rightarrow> NetworkInterface \<Rightarrow> MachineConfig \<Rightarrow> api_request list" where
  "boot_requests sock vmlinux bootArgs drive nic mc =
     [(sock, ''PUT'', ''/boot-source'', json_Marshal (enc_BootSource
        \<lparr> KernelImagePath = vmlinux, BootArgs = bootArgs, InitrdPath = [] \<rparr>)),
      (sock, ''PUT'', ''/drives/rootfs'', json_Marshal (enc_Drive drive)),
      (sock, ''PUT'', ''/network-interfaces/eth0'', json_Marshal (enc_NetworkInterface nic)),
      (sock, ''PUT'', ''/machine-config'', json_Marshal (enc_MachineConfig mc)),
      (sock, ''PUT'', ''/actions'', json_Marshal (enc_Action \<lparr> ActionType = ''InstanceStart'' \<rparr>))]"

definition restore_requests :: "string \<Rightarrow> string \<Rightarrow> string \<Rightarrow> api_request list" where
  "restore_requests sock snapDir diskPath =
     [(sock, ''PUT'', ''/snapshot/load'', json_Marshal (JObj
        [(''mem_backend'', JObj [(''backend_path'', JStr (Join [snapDir, ''memory''])),
                                 (''backend_type'', JStr ''File'')]),
         (''resume_vm'', JBool False), (''snapshot_path'', JStr (Join [snapDir, ''state'']))])),
      (sock, ''PATCH'', ''/drives/rootfs'', json_Marshal (JObj
        [(''drive_id'', JStr ''rootfs''), (''path_on_host'', JStr diskPath)])),
      (sock, ''PATCH'', ''/vm'', json_Marshal (JObj [(''state'', JStr ''Resumed'')]))]"

text \<open>
  The requests made since the log had the requests \<open>xs\<close>: a beginning of the plan, and the whole of it
  when the call succeeds.
\<close>

definition asked :: "api_request list \<Rightarrow> api_request list \<Rightarrow> err + 'a \<Rightarrow> world \<Rightarrow> bool" where
  "asked xs plan r w \<longleftrightarrow>
     (\<exists>k. requests w = xs @ take k plan \<and> (if isl r then True else k = length plan))"

lemma asked_none: "requests w = xs \<Longrightarrow> asked xs plan (Inl e) w"
  by (auto simp: asked_def intro: exI [of _ 0])

lemma asked_err: "ensures (\<lambda>w. requests w = xs @ take k plan) (err e) (asked xs plan)"
  by (rule ensures_return) (auto simp: asked_def)

lemma asked_ok: "k = length plan \<Longrightarrow> ensures (\<lambda>w. requests w = xs @ take k plan) (ok a) (asked xs plan)"
  by (rule ensures_return) (auto simp: asked_def)

lemma asked_fail:
  "calls no_request c \<Longrightarrow>
   ensures (\<lambda>w. requests w = xs @ take k plan) (do { c; err e }) (asked xs plan)"
  by (rule ensures_bind [OF ensures_same_requests [of c "\<lambda>q. q = xs @ take k plan"]], assumption, rule asked_err)

lemma asked_guarded:
  assumes "ensures (\<lambda>w. requests w = xs @ take j plan) m (\<lambda>_ w. requests w = xs @ take k plan)"
    and "calls no_request c"
    and "\<And>a. ensures (\<lambda>w. requests w = xs @ take k plan) (f a) (asked xs plan)"
  shows "ensures (\<lambda>w. requests w = xs @ take j plan) (guarded c what m f) (asked xs plan)"
  unfolding guarded_def by (rule ensures_on_error [OF assms(1)]) (rule asked_fail [OF assms(2)], rule assms(3))

text \<open>Once the plan is through, nothing more is asked, and nothing fails.\<close>

lemma asked_on_error:
  assumes "ensures P m (asked xs plan)" and "\<And>a. calls no_request (k a)"
  shows "ensures P (on_error m err k) (asked xs plan)"
proof (rule ensures_on_error [OF assms(1)])
  fix e
  show "ensures (asked xs plan (Inl e)) (err e) (asked xs plan)"
    by (rule ensures_return) (auto simp: asked_def)
next
  fix a
  show "ensures (asked xs plan (Inr a)) (k a) (asked xs plan)"
  proof (rule ensuresI)
    fix w r w'
    assume "asked xs plan (Inr a) w" "run_state (k a) w = (r, w')"
    then have "requests w' = xs @ take (length plan) plan"
      using requests_same [OF assms(2) \<open>run_state (k a) w = (r, w')\<close>] by (auto simp: asked_def)
    then show "asked xs plan r w'" unfolding asked_def by (intro exI [of _ "length plan"]) simp
  qed
qed

lemma boot_calls_requests:
  assumes "calls no_request cleanup" and "DriveID drive = ''rootfs''" and "IfaceID nic = ''eth0''"
  shows "ensures (\<lambda>w. requests w = xs) (boot_calls E cleanup client vmlinux bootArgs drive nic mc)
    (asked xs (boot_requests (socketPath client) vmlinux bootArgs drive nic mc))"
proof -
  let ?plan = "boot_requests (socketPath client) vmlinux bootArgs drive nic mc"
  have len: "length ?plan = 5" by (simp add: boot_requests_def)
  have step: "ensures (\<lambda>w. requests w = xs @ take j ?plan) (put E client path body)
      (\<lambda>_ w. requests w = xs @ take (Suc j) ?plan)"
    if "j < 5" and "?plan ! j = (socketPath client, ''PUT'', path, json_Marshal body)" and "\<not> bad_url path"
    for j path body
    using put_requests [OF that(3), of "xs @ take j ?plan" E client body] that(1,2)
    by (simp add: take_Suc_conv_app_nth len)
  have "ensures (\<lambda>w. requests w = xs @ take 0 ?plan)
      (boot_calls E cleanup client vmlinux bootArgs drive nic mc) (asked xs ?plan)"
    unfolding boot_calls_def SetBootSource_def SetDrive_def SetNetworkInterface_def SetMachineConfig_def
      StartInstance_def assms(2,3)
    by (intro asked_guarded [OF step] assms(1) asked_ok)
      (simp_all add: boot_requests_def numeral_eq_Suc)
  then show ?thesis by simp
qed

lemma restore_calls_requests:
  assumes "calls no_request cleanup"
  shows "ensures (\<lambda>w. requests w = xs) (restore_calls E cleanup client snapDir diskPath)
    (asked xs (restore_requests (socketPath client) snapDir diskPath))"
proof -
  let ?plan = "restore_requests (socketPath client) snapDir diskPath"
  have load: "ensures (\<lambda>w. requests w = xs @ take 0 ?plan)
      (LoadSnapshot E client (Join [snapDir, ''state'']) (Join [snapDir, ''memory'']))
      (\<lambda>_ w. requests w = xs @ take (Suc 0) ?plan)"
    unfolding LoadSnapshot_def by (rule ensures_weaken [OF put_requests]) (auto simp: restore_requests_def)
  have drive: "ensures (\<lambda>w. requests w = xs @ take (Suc 0) ?plan) (PatchDrive E client ''rootfs'' diskPath)
      (\<lambda>_ w. requests w = xs @ take (Suc (Suc 0)) ?plan)"
    unfolding PatchDrive_def by (rule ensures_weaken [OF patch_requests]) (auto simp: restore_requests_def)
  have resume: "ensures (\<lambda>w. requests w = xs @ take (Suc (Suc 0)) ?plan) (client_ResumeVM E client)
      (\<lambda>_ w. requests w = xs @ take (Suc (Suc (Suc 0))) ?plan)"
    unfolding client_ResumeVM_def by (rule ensures_weaken [OF patch_requests]) (auto simp: restore_requests_def)
  have "ensures (\<lambda>w. requests w = xs @ take 0 ?plan) (restore_calls E cleanup client snapDir diskPath)
      (asked xs ?plan)"
    unfolding restore_calls_def
    by (intro asked_guarded [OF load] asked_guarded [OF drive] asked_guarded [OF resume] assms asked_ok)
      (simp add: restore_requests_def)
  then show ?thesis by simp
qed

lemma same_guarded:
  assumes "calls no_request m" "calls no_request c" "\<And>e w. requests w = xs \<Longrightarrow> Q (Inl e) w"
    and "\<And>a. ensures (\<lambda>w. requests w = xs) (k a) Q"
  shows "ensures (\<lambda>w. requests w = xs) (guarded c what m k) Q"
  unfolding guarded_def
  by (rule same_on_error [OF assms(1)], rule same_bind [OF assms(2)], rule ensures_return, rule assms(3), assumption)
    (rule assms(4))

lemma same_err: "(\<And>w. requests w = xs \<Longrightarrow> Q (Inl e) w) \<Longrightarrow> ensures (\<lambda>w. requests w = xs) (err e) Q"
  by (rule ensures_return)

lemma calls_run_cleanup [extends_intros]:
  "(\<And>pid. P (KillChild pid)) \<Longrightarrow> (\<And>pid. P (WaitChild pid)) \<Longrightarrow> P (Remove sock) \<Longrightarrow>
   P (RemoveAll (vmDataDir E name)) \<Longrightarrow> calls P (run_cleanup E sock name child)"
  unfolding run_cleanup_def by (intro extends_intros)

lemma calls_started_vm [extends_intros]:
  "(\<And>d. P (WriteFile (ports_path E (Name cfg)) d)) \<Longrightarrow> P Now \<Longrightarrow>
   calls P (started_vm E cfg sock pid cpus mem port client disk)"
  unfolding started_vm_def by (intro extends_intros)

lemma calls_setDefaults [extends_intros]: "P (Rand 4) \<Longrightarrow> calls P (setDefaults E cfg)"
  unfolding setDefaults_def randomName_def by (intro extends_intros)

lemma calls_validate [extends_intros]: "(\<And>p. P (Stat p)) \<Longrightarrow> calls P (validate E cfg)"
  unfolding validate_def by (intro extends_intros)

lemma calls_load_snapshot [extends_intros]:
  "(\<And>p. P (ReadFile p)) \<Longrightarrow> calls P (load_snapshot E cfg)"
  unfolding load_snapshot_def GetSnapshot_def by (intro extends_intros)

lemma no_request_disk: "disk_call E name src sz ev \<Longrightarrow> no_request ev"
  by (auto simp: disk_call_def)

lemma calls_disks [extends_intros]:
  "calls no_request (prepareDisk E name base sz)"
  "calls no_request (prepareDiskFromSnapshot E name i)"
  by (rule calls_mono [OF calls_prepareDisk], erule no_request_disk)
    (rule calls_mono [OF calls_prepareDiskFromSnapshot], erule no_request_disk)

text \<open>The path of a disk that was prepared.\<close>

lemma prepared_path:
  "run_state (prepareDisk E name base sz) w = (Inr p, w') \<Longrightarrow> p = rootfs_path E name"
  "run_state (prepareDiskFromSnapshot E name i) w = (Inr p, w') \<Longrightarrow> p = rootfs_path E name"
  by (auto simp: prepareDisk_def prepareDiskFromSnapshot_def Let_def path_folds run_on_error_ok run_monad
      split: if_splits)

lemma load_snapshot_some:
  "run_state (load_snapshot E cfg) w = (Inr snap, w') \<Longrightarrow> snap = None \<longleftrightarrow> SnapshotID cfg = []"
  by (auto simp: load_snapshot_def run_on_error_ok run_monad split: if_splits)

lemma snapshot_ports_simps [simp]:
  "Name (with_snapshot_ports cfg snap) = Name cfg" "SnapshotID (with_snapshot_ports cfg snap) = SnapshotID cfg"
  "RootFS (with_snapshot_ports cfg snap) = RootFS cfg" "RootFSSize (with_snapshot_ports cfg snap) = RootFSSize cfg"
  "Kernel (with_snapshot_ports cfg snap) = Kernel cfg" "CPUs (with_snapshot_ports cfg snap) = CPUs cfg"
  "Memory (with_snapshot_ports cfg snap) = Memory cfg" "RawDiskPath (with_snapshot_ports cfg snap) = RawDiskPath cfg"
  "drive_of (with_snapshot_ports cfg snap) disk = drive_of cfg disk"
  "nic_of E (with_snapshot_ports cfg snap) nc = nic_of E cfg nc"
  by (simp_all add: with_snapshot_ports_def drive_of_def nic_of_def split: option.splits)

text \<open>What a start with the configuration \<open>cfg\<close> asks of the server behind its socket.\<close>

definition start_requests :: "env \<Rightarrow> Config \<Rightarrow> string \<Rightarrow> string \<Rightarrow> api_request list" where
  "start_requests E cfg bootArgs disk =
     (let sock = socket_path E (Name cfg) in
      if SnapshotID cfg = [] then
        boot_requests sock (Kernel cfg) bootArgs (drive_of cfg disk) (nic_of E cfg (deriveNetwork (Name cfg)))
          \<lparr> VcpuCount = vcpus_of E (CPUs cfg), MemSizeMib = Memory cfg, Smt = False \<rparr>
      else restore_requests sock (snapshotDir E (SnapshotID cfg)) disk)"

lemma start_requests_ports [simp]:
  "start_requests E (with_snapshot_ports cfg snap) = start_requests E cfg"
  by (simp add: fun_eq_iff start_requests_def Let_def)

lemma device_ids [simp]: "DriveID (drive_of cfg disk) = ''rootfs''" "IfaceID (nic_of E cfg nc) = ''eth0''"
  by (simp_all add: drive_of_def nic_of_def Let_def)

lemma NewClient_simps [simp]: "socketPath (NewClient sock) = sock"
  by (simp add: NewClient_def)

lemma run_boot_requests:
  assumes "calls no_request cleanup"
  shows "ensures (\<lambda>w. requests w = xs) (run_boot E cfg nc cleanup disk (NewClient sock))
    (\<lambda>r w. \<exists>dns. asked xs (boot_requests sock (Kernel cfg) (run_boot_args nc dns) (drive_of cfg disk)
       (nic_of E cfg nc) \<lparr> VcpuCount = vcpus_of E (CPUs cfg), MemSizeMib = Memory cfg, Smt = False \<rparr>) r w)"
  unfolding run_boot_def
  by (rule same_bind, intro extends_intros no_request_simps)
    (rule ensures_post [OF boot_calls_requests], use assms in auto)

lemma asked_exists_on_error:
  assumes "ensures P m (\<lambda>r w. \<exists>d. asked xs (plan d) r w)" and "\<And>a. calls no_request (k a)"
  shows "ensures P (on_error m err k) (\<lambda>r w. \<exists>d. asked xs (plan d) r w)"
proof (rule ensuresI)
  fix w r w'
  assume P: "P w" and r: "run_state (on_error m err k) w = (r, w')"
  obtain s v where s: "run_state m w = (s, v)" by fastforce
  then obtain d where d: "asked xs (plan d) s v" using ensuresD [OF assms(1) _ P] by blast
  have "ensures (\<lambda>u. u = w) m (\<lambda>r u. r = s \<and> u = v)" using s by (auto simp: ensures_def)
  then have "ensures (\<lambda>u. u = w) m (asked xs (plan d))"
    by (rule ensures_post) (use d in auto)
  from ensuresD [OF asked_on_error [OF this assms(2)] r] show "\<exists>d. asked xs (plan d) r w'" by auto
qed

lemma run_launch_requests:
  assumes "snap = None \<longleftrightarrow> SnapshotID cfg = []" and "sock = socket_path E (Name cfg)"
  shows "ensures (\<lambda>w. requests w = xs) (run_launch E cfg snap sock disk)
    (\<lambda>r w. \<exists>dns. asked xs (start_requests E cfg (run_boot_args (deriveNetwork (Name cfg)) dns) disk) r w)"
proof -
  let ?Q = "\<lambda>r w. \<exists>dns. asked xs (start_requests E cfg (run_boot_args (deriveNetwork (Name cfg)) dns) disk) r w"
  have clean: "calls no_request (run_cleanup E sock (Name cfg) child)" for child
    by (intro extends_intros no_request_simps)
  have last: "calls no_request (started_vm E cfg sock pid c m p (NewClient sock) disk)" for pid c m p
    by (intro extends_intros no_request_simps)
  have boot: "ensures (\<lambda>w. requests w = xs) (on_error (run_boot E cfg (vm_network (Name cfg) None)
      (run_cleanup E sock (Name cfg) (Some pid)) disk (NewClient sock)) err
      (\<lambda>_. started_vm E cfg sock pid c m p (NewClient sock) disk)) ?Q" if "snap = None" for pid c m p
    using run_boot_requests [OF clean [of "Some pid"], of xs E cfg "deriveNetwork (Name cfg)" disk sock] assms that
    by (intro asked_exists_on_error last) (simp add: start_requests_def vm_network_def)
  have restore: "ensures (\<lambda>w. requests w = xs) (on_error (restore_calls E (run_cleanup E sock (Name cfg) (Some pid))
      (NewClient sock) (snapshotDir E (SnapshotID cfg)) disk) err
      (\<lambda>_. started_vm E cfg sock pid c m p (NewClient sock) disk)) ?Q" if "snap = Some s" for s pid c m p
    using restore_calls_requests [OF clean [of "Some pid"], of xs E "NewClient sock" "snapshotDir E (SnapshotID cfg)" disk]
      assms that
    by (intro asked_exists_on_error last) (simp add: start_requests_def)
  show ?thesis
    unfolding run_launch_def Let_def
    by (intro same_guarded extends_intros no_request_simps)
      (auto intro: asked_none boot restore split: option.split)
qed

text \<open>Anything known of the result of a step that makes no request can be used in what follows.\<close>

lemma same_on_error_known:
  assumes "calls no_request m" and "\<And>e. ensures (\<lambda>w. requests w = xs) (h e) Q"
    and "\<And>w a w'. run_state m w = (Inr a, w') \<Longrightarrow> R a"
    and "\<And>a. R a \<Longrightarrow> ensures (\<lambda>w. requests w = xs) (k a) Q"
  shows "ensures (\<lambda>w. requests w = xs) (on_error m h k) Q"
proof (rule ensuresI)
  fix w r w'
  assume x: "requests w = xs" and r: "run_state (on_error m h k) w = (r, w')"
  obtain s v where s: "run_state m w = (s, v)" by fastforce
  have v: "requests v = xs" using requests_same [OF assms(1) s] x by simp
  show "Q r w'"
  proof (cases s)
    case (Inl e)
    with r s have "run_state (h e) v = (r, w')" by (simp add: run_on_error)
    from ensuresD [OF assms(2) this v] show ?thesis .
  next
    case (Inr a)
    with r s have "run_state (k a) v = (r, w')" by (simp add: run_on_error)
    from ensuresD [OF assms(4) [OF assms(3)] this v] s Inr show ?thesis by blast
  qed
qed

lemma asked_requests:
  assumes "ensures (\<lambda>w. requests w = xs) m Q" and "run_state m w = (r, w')" and "requests w = xs"
  shows "Q r w'"
  by (rule ensuresD [OF assms])

lemma run_configured_requests:
  "ensures (\<lambda>w. requests w = xs) (run_configured E cfg)
    (\<lambda>r w. \<exists>dns. asked xs (start_requests E cfg (run_boot_args (deriveNetwork (Name cfg)) dns)
                            (rootfs_path E (Name cfg))) r w)"
proof -
  let ?Q = "\<lambda>r w. \<exists>dns. asked xs (start_requests E cfg (run_boot_args (deriveNetwork (Name cfg)) dns)
      (rootfs_path E (Name cfg))) r w"
  have launch: "ensures (\<lambda>w. requests w = xs)
      (run_launch E (with_snapshot_ports cfg snap) snap (socket_path E (Name cfg)) (rootfs_path E (Name cfg))) ?Q"
    if "snap = None \<longleftrightarrow> SnapshotID cfg = []" for snap
    using run_launch_requests [of snap "with_snapshot_ports cfg snap" "socket_path E (Name cfg)" E xs] that by simp
  show ?thesis
    unfolding run_configured_def Let_def snapshot_ports_simps socket_path_def [symmetric]
    apply (rule same_on_error, intro extends_intros no_request_simps, rule same_err, blast intro: asked_none)
    apply (rule same_on_error_known, intro extends_intros no_request_simps, rule same_err,
        blast intro: asked_none, erule load_snapshot_some)
    apply (rule same_on_error, intro extends_intros no_request_simps, rule same_err, blast intro: asked_none)
    apply (rule same_bind, intro extends_intros no_request_simps)
    apply (rule same_on_error_known [where R = "\<lambda>p. p = rootfs_path E (Name cfg)"], intro extends_intros,
        rule same_err, blast intro: asked_none)
     apply (auto dest: prepared_path split: option.splits) [1]
    apply (simp add: launch)
    done
qed

text \<open>C1: A start makes no request but those of its plan, in its order, and all of them when it succeeds:
  boot source, drive, network, machine configuration and only then the start of the instance, or
  for a restore the load, the drive and only then the resume; each with the body the configuration
  prescribes, on the VM's own socket and with the VM's own disk.\<close>
theorem run_requests:
  "case run_state (Run E cfg) w of
     (r, w') \<Rightarrow>
       (\<exists>dns. let d = fst (run_state (setDefaults E cfg) w) in
          asked (requests w)
            (start_requests E d (run_boot_args (deriveNetwork (Name d)) dns) (rootfs_path E (Name d))) r w')"
proof -
  obtain d v where d: "run_state (setDefaults E cfg) w = (d, v)" by fastforce
  have "requests v = requests w"
    by (rule requests_same [OF _ d]) (intro extends_intros no_request_simps)
  then show ?thesis
    using d asked_requests [OF run_configured_requests [of "requests w" E d]]
    by (auto simp: Run_def run_monad split: prod.splits)
qed

section \<open>What a failed start leaves\<close>

definition started_failures :: "string set" where
  "started_failures = {''waiting for firecracker socket: '', ''load snapshot: '', ''patch drive: '',
     ''resume vm: '', ''set boot source: '', ''set drive: '', ''set network: '',
     ''set machine config: '', ''start instance: ''}"

text \<open>The last calls of a failed start, by the step that failed.\<close>

definition run_failed :: "env \<Rightarrow> string \<Rightarrow> err \<Rightarrow> world \<Rightarrow> bool" where
  "run_failed E name e w =
     (case e of
        Wrap what _ \<Rightarrow>
          if what \<in> started_failures then
            \<exists>pre pid. trace w = pre @ [KillChild pid, WaitChild pid, Remove (socket_path E name),
                                        RemoveAll (vmDataDir E name)]
          else if what \<in> {''open /dev/null: '', ''start pasta: ''} then
            \<exists>pre. trace w = pre @ [Remove (socket_path E name), RemoveAll (vmDataDir E name)]
          else if what = ''prepare disk: '' then
            \<exists>pre ev src sz. trace w = pre @ [ev] \<and> disk_call E name src sz ev
          else True
      | _ \<Rightarrow> True)"

lemma logs_run_cleanup:
  "logs ((case child of None \<Rightarrow> [] | Some pid \<Rightarrow> [KillChild pid, WaitChild pid]) @
     [Remove sock, RemoveAll (vmDataDir E name)]) (run_cleanup E sock name child)"
  unfolding run_cleanup_def removeDisk_def
  by (cases child) (auto intro!: logs_then logs_intros)

lemma fails_guarded:
  assumes "logs es c" and "\<And>e w pre. trace w = pre @ es \<Longrightarrow> Q (Wrap (what @ '': '') e) w"
    and "\<And>a. fails Q (k a)"
  shows "fails Q (guarded c what m k)"
  unfolding guarded_def using assms by (intro fails_on_error fails_logged [OF assms(1)]) auto

lemma fails_started_vm: "fails Q (started_vm E cfg sock pid c m p client disk)"
  unfolding started_vm_def by (intro fails_intros)

text \<open>The guarded calls of a boot and of a restore fail with one of the late errors.\<close>

lemma fails_boot_calls:
  assumes "logs es c"
    and "\<And>e w pre what. trace w = pre @ es \<Longrightarrow> what \<in> started_failures \<Longrightarrow> Q (Wrap what e) w"
  shows "fails Q (boot_calls E c client vmlinux args drive nic mc)"
    and "fails Q (restore_calls E c client snapDir disk)"
  unfolding boot_calls_def restore_calls_def
  by ((intro fails_guarded [OF assms(1)] fails_ok;
      (rule assms(2), assumption, simp add: started_failures_def)))+

lemma load_snapshot_errors:
  "fails (\<lambda>e _. case e of Wrap what _ \<Rightarrow> what = ''corrupt snapshot metadata: '' | _ \<Rightarrow> True) (load_snapshot E cfg)"
  unfolding load_snapshot_def GetSnapshot_def
  by (intro fails_intros fails_through) (auto simp: Let_def split: prod.splits intro: fails_intros)

lemma run_launch_failed:
  assumes "sock = socket_path E (Name cfg)"
  shows "fails (run_failed E (Name cfg)) (run_launch E cfg snap sock disk)"
proof -
  have late: "run_failed E (Name cfg) (Wrap what e) w"
    if "trace w = pre @ (case Some pid of None \<Rightarrow> [] | Some pid \<Rightarrow> [KillChild pid, WaitChild pid]) @
          [Remove sock, RemoveAll (vmDataDir E (Name cfg))]" "what \<in> started_failures" for e w pre pid what
    using that assms by (auto simp: run_failed_def)
  have early: "run_failed E (Name cfg) (Wrap what e) w"
    if "trace w = pre @ (case None of None \<Rightarrow> [] | Some pid \<Rightarrow> [KillChild pid, WaitChild pid]) @
          [Remove sock, RemoveAll (vmDataDir E (Name cfg))]" "what \<in> {''open /dev/null: '', ''start pasta: ''}"
    for e w pre what
    using that assms by (auto simp: run_failed_def started_failures_def)
  show ?thesis
    unfolding run_launch_def Let_def run_boot_def
    by (intro fails_guarded [OF logs_run_cleanup] fails_option fails_through fails_bind fails_started_vm
        fails_boot_calls [OF logs_run_cleanup])
      (erule early late; simp add: started_failures_def)+
qed

text \<open>A disk that cannot be prepared: the last call was one of its steps.\<close>

lemma calls_some_last:
  assumes "calls P m" and "run_state m w = (r, w')" and "trace w' \<noteq> trace w"
  shows "\<exists>pre ev. trace w' = pre @ [ev] \<and> P ev"
proof -
  obtain es where es: "trace w' = trace w @ es" "list_all P es" using callsE [OF assms(1,2)] .
  with assms(3) have "es \<noteq> []" by auto
  then show ?thesis using es by (intro exI [of _ "trace w @ butlast es"] exI [of _ "last es"]) (auto simp: list_all_iff)
qed

lemma grows:
  assumes "logs [ev] m" and "\<And>e. calls P (h e)" and "\<And>a. calls P (k a)"
    and "run_state (on_error m h k) w = (r, w')"
  shows "trace w' \<noteq> trace w"
proof -
  obtain s v where s: "run_state m w = (s, v)" by fastforce
  then have v: "trace v = trace w @ [ev]" using logsD [OF assms(1)] by blast
  have "\<exists>es. trace w' = trace v @ es"
  proof (cases s)
    case (Inl e)
    then show ?thesis using assms(4) s callsE [OF assms(2) [of e]] by (fastforce simp: run_on_error)
  next
    case (Inr a)
    then show ?thesis using assms(4) s callsE [OF assms(3) [of a]] by (fastforce simp: run_on_error)
  qed
  with v show ?thesis by auto
qed

lemma disk_failures:
  "fails (\<lambda>e w. \<exists>pre ev src sz. trace w = pre @ [ev] \<and> disk_call E name src sz ev) (prepareDisk E name base sz)"
  "fails (\<lambda>e w. \<exists>pre ev src sz. trace w = pre @ [ev] \<and> disk_call E name src sz ev)
     (prepareDiskFromSnapshot E name i)"
proof -
  have ev: "logs [MkdirAll (vmDataDir E name)] (os_MkdirAll E (vmDataDir E name))" by (rule logs_intros)
  have fails: "fails (\<lambda>e w. \<exists>pre ev src sz. trace w = pre @ [ev] \<and> disk_call E name src sz ev) m"
    if "calls (disk_call E name src sz) m" "\<And>w r w'. run_state m w = (r, w') \<Longrightarrow> trace w' \<noteq> trace w"
    for m :: "string go" and src sz
    unfolding fails_def
    by (rule ensuresI) (use calls_some_last [OF that(1) _ that(2)] in \<open>fastforce split: sum.splits\<close>)
  show "fails (\<lambda>e w. \<exists>pre ev src sz. trace w = pre @ [ev] \<and> disk_call E name src sz ev) (prepareDisk E name base sz)"
  proof (rule fails [OF calls_prepareDisk])
    fix w r w'
    assume r: "run_state (prepareDisk E name base sz) w = (r, w')"
    show "trace w' \<noteq> trace w"
      by (rule grows [OF ev _ _ r [unfolded prepareDisk_def Let_def], where P = "\<lambda>_. True"])
        (intro extends_intros TrueI)+
  qed
  show "fails (\<lambda>e w. \<exists>pre ev src sz. trace w = pre @ [ev] \<and> disk_call E name src sz ev)
      (prepareDiskFromSnapshot E name i)"
  proof (rule fails [OF calls_prepareDiskFromSnapshot])
    fix w r w'
    assume r: "run_state (prepareDiskFromSnapshot E name i) w = (r, w')"
    show "trace w' \<noteq> trace w"
      by (rule grows [OF ev _ _ r [unfolded prepareDiskFromSnapshot_def Let_def], where P = "\<lambda>_. True"])
        (intro extends_intros TrueI)+
  qed
qed

text \<open>An error that is wrapped where it is returned.\<close>

lemma fails_wrapped:
  assumes "fails P m" and "\<And>e w. P e w \<Longrightarrow> Q (Wrap what e) w" and "\<And>a. fails Q (k a)"
  shows "fails Q (on_error m (\<lambda>e. err (Wrap what e)) k)"
  using assms unfolding fails_def
  by (intro ensures_on_error [OF assms(1) [unfolded fails_def]] ensures_return)
    (auto intro: ensures_pre)

lemma fails_any: "fails (\<lambda>_ _. True) m"
  unfolding fails_def by (rule ensures_post [OF ensures_triv]) (simp split: sum.splits)

lemma run_configured_failed: "fails (run_failed E (Name cfg)) (run_configured E cfg)"
proof -
  have snap: "fails (run_failed E (Name cfg)) (load_snapshot E cfg)"
    by (rule fails_weaken [OF load_snapshot_errors])
      (auto simp: run_failed_def started_failures_def split: err.splits)
  have disk: "fails (\<lambda>e w. \<exists>pre ev src sz. trace w = pre @ [ev] \<and> disk_call E (Name cfg) src sz ev)
      (case snap of None \<Rightarrow> prepareDisk E (Name cfg) (RootFS cfg) (RootFSSize cfg)
       | Some s \<Rightarrow> prepareDiskFromSnapshot E (Name cfg) (SnapshotID cfg))" for snap :: "Snapshot option"
    by (cases snap) (simp_all only: option.case disk_failures)
  have launch: "fails (run_failed E (Name cfg))
      (run_launch E (with_snapshot_ports cfg snap) snap (socket_path E (Name cfg)) disk)" for snap disk
    using run_launch_failed [of "socket_path E (Name cfg)" E "with_snapshot_ports cfg snap" snap disk] by simp
  show ?thesis
    unfolding run_configured_def Let_def snapshot_ports_simps socket_path_def [symmetric]
    apply (rule fails_wrapped [OF fails_any], simp add: run_failed_def started_failures_def)
    apply (rule fails_through [OF snap])
    apply (rule fails_wrapped [OF fails_any], simp add: run_failed_def started_failures_def)
    apply (rule fails_bind, rule fails_wrapped [OF disk])
     apply (simp add: run_failed_def started_failures_def)
    apply (rule launch)
    done
qed

text \<open>C2: A start that fails once its process runs kills the process, waits for it, and then removes the
  socket and the VM's directory, in this order and as its last calls; one that fails to start the
  process removes both. A start whose disk cannot be prepared cleans up nothing: its last call is a
  step of the preparation, so what that has made stays.\<close>
theorem run_failures:
  "case run_state (Run E cfg) w of
     (Inl e, w') \<Rightarrow> run_failed E (Name (fst (run_state (setDefaults E cfg) w))) e w'
   | (Inr _, _) \<Rightarrow> True"
proof -
  obtain d v where d: "run_state (setDefaults E cfg) w = (d, v)" by fastforce
  then show ?thesis
    using failsD [OF run_configured_failed [of E d]]
    by (auto simp: Run_def run_monad split: prod.splits sum.splits)
qed

section \<open>CPUs and rates\<close>

lemma ceil_bounds:
  fixes a :: int
  assumes "0 < p"
  shows "(- ((- a) div p) - 1) * p < a" and "a \<le> - ((- a) div p) * p"
  using div_eq_bounds [OF assms, of "- a" "(- a) div p"] by (simp_all add: algebra_simps)

lemma f_round_exact:
  assumes "\<bar>m\<bar> < 2 ^ 53" "- 1074 \<le> e" "e < 0"
  shows "f_round m e = Fin m e"
proof -
  have "int_bits \<bar>m\<bar> \<le> 53" using int_bits_le [of "\<bar>m\<bar>" 53] assms(1) by simp
  then show ?thesis using assms(2,3) by (auto simp: f_round_def Let_def sgn_mult_abs)
qed

lemma f_to_int_whole: "0 \<le> n \<Longrightarrow> n \<le> 2 ^ 53 \<Longrightarrow> f_to_int wide (Fin n 0) = n"
  by (simp add: f_trunc_def)

text \<open>A number of CPUs that is not whole, \<open>a / 2 ^ k\<close>, gets the next whole number of vCPUs and a
  quota exactly when it is below it. The quota is the percentage rounded up, as long as a hundred
  times the number needs no more than the 53 bits of a \<open>float64\<close>.\<close>
theorem cpu_limits:
  assumes "e < 0" "- 1074 \<le> e" "0 < a" "100 * a < 2 ^ 53"
  shows "(let v = vcpus_of E (Fin a e); q = cpu_quota E (Fin a e); p = 2 ^ nat (- e) in
    1 \<le> v \<and> (v - 1) * p < a \<and> a \<le> v * p \<and> (needsQuota E (Fin a e) \<longleftrightarrow> a \<noteq> v * p) \<and>
    (q - 1) * p < 100 * a \<and> 100 * a \<le> q * p)"
proof -
  define p :: int where "p = 2 ^ nat (- e)"
  have p: "1 \<le> p" by (simp add: p_def)
  define v where "v = - ((- a) div p)"
  define q where "q = - ((- (100 * a)) div p)"
  have vb: "(v - 1) * p < a" "a \<le> v * p"
    using ceil_bounds [of p a] p by (simp_all add: v_def)
  have qb: "(q - 1) * p < 100 * a" "100 * a \<le> q * p"
    using ceil_bounds [of p "100 * a"] p by (simp_all add: q_def)
  have pos: "1 \<le> x \<and> x \<le> b" if "(x - 1) * p < b" "b \<le> x * p" "0 < b" for x b
  proof -
    have "0 < x * p" using that by simp
    then have "1 \<le> x" using p by (simp add: zero_less_mult_iff)
    moreover have "x - 1 \<le> (x - 1) * p" using p \<open>1 \<le> x\<close> by (simp add: mult_le_cancel_left1)
    ultimately show ?thesis using that by simp
  qed
  have v: "1 \<le> v" "v < 2 ^ 53" using pos [OF vb] assms(3,4) by auto
  have q: "1 \<le> q" "q < 2 ^ 53" using pos [OF qb] assms(3,4) by auto
  have ceil: "f_ceil (Fin a e) = Fin v 0" "f_ceil (Fin (100 * a) e) = Fin q 0"
    using assms(1) by (simp_all add: v_def q_def p_def)
  have vc: "vcpus_of E (Fin a e) = v"
    using v by (simp add: vcpus_of_def ceil f_to_int_whole del: f_ceil.simps f_to_int.simps)
  have prod: "f_mul (Fin a e) (f_of_int 100) = Fin (100 * a) e"
    using assms by (simp add: f_of_int_exact f_round_exact mult.commute)
  have "cpu_quota E (Fin a e) = q"
    using q unfolding cpu_quota_def prod ceil by (simp add: f_to_int_whole del: f_to_int.simps)
  moreover have "needsQuota E (Fin a e) \<longleftrightarrow> a \<noteq> v * p"
    using v assms(1) by (simp add: needsQuota_def vc f_of_int_exact scaled_def p_def)
  ultimately show ?thesis using vb qb v by (simp add: vc p_def Let_def)
qed

lemma cpu_limits_witness:
  "vcpus_of calm_env (Fin 3 (- 1)) = 2 \<and> needsQuota calm_env (Fin 3 (- 1)) \<and> cpu_quota calm_env (Fin 3 (- 1)) = 150"
proof -
  let ?v = "vcpus_of calm_env (Fin 3 (- 1))" and ?q = "cpu_quota calm_env (Fin 3 (- 1))"
  have "1 \<le> ?v \<and> (?v - 1) * 2 < 3 \<and> 3 \<le> ?v * 2 \<and> (needsQuota calm_env (Fin 3 (- 1)) \<longleftrightarrow> 3 \<noteq> ?v * 2) \<and>
      (?q - 1) * 2 < 300 \<and> 300 \<le> ?q * 2"
    using cpu_limits [of "- 1" 3 calm_env] by (simp add: Let_def)
  note bounds = this
  have "x = 2" if "(x - 1) * 2 < 3" "3 \<le> x * 2" for x :: int using that by presburger
  with bounds have "?v = 2" by blast
  moreover have "x = 150" if "(x - 1) * 2 < 300" "300 \<le> x * 2" for x :: int using that by presburger
  with bounds have "?q = 150" by blast
  ultimately show ?thesis using bounds by simp
qed

text \<open>Beyond that the product is rounded: 1.1 CPUs get a quota of 111 percent.\<close>

lemma quota_of_1_1: "cpu_quota calm_env (Fin 4953959590107546 (- 52)) = 111"
  by code_simp

text \<open>The bandwidth limit of the drive is the configured one in bytes per second exactly up to
  9223372036854 MB/s; above that the product wraps around, and it always is a 64-bit integer.\<close>
theorem disk_rate:
  assumes "0 < DiskMBps cfg" "DiskMBps cfg < 2 ^ 63"
  shows "\<exists>r b. RateLimit (drive_of cfg disk) = Some r \<and> Bandwidth r = Some b \<and> RefillTimeMs b = 1000 \<and>
    int64_range (Size b) \<and> (Size b = DiskMBps cfg * 1000000 \<longleftrightarrow> DiskMBps cfg \<le> 9223372036854)"
proof -
  have r: "int64_range (mul64 n 1000000)" for n
    by (simp add: mul64_def int64_range_def)
  have "mul64 n 1000000 = n * 1000000 \<longleftrightarrow> n \<le> 9223372036854" if "0 < n" for n
  proof
    assume "mul64 n 1000000 = n * 1000000"
    then have "n * 1000000 < 2 ^ 63" using r [of n] by (simp add: int64_range_def)
    then show "n \<le> 9223372036854" by simp
  next
    assume "n \<le> 9223372036854"
    then have "(n * 1000000 + 2 ^ 63) mod 2 ^ 64 = n * 1000000 + 2 ^ 63"
      using that by (intro mod_pos_pos_trivial) simp_all
    then show "mul64 n 1000000 = n * 1000000" by (simp add: mul64_def)
  qed
  then show ?thesis using assms r by (simp add: drive_of_def bucket_def)
qed

lemma disk_rate_witness:
  "\<exists>r b. RateLimit (drive_of (zero_Config\<lparr>DiskMBps := 100\<rparr>) ''d'') = Some r \<and> Bandwidth r = Some b \<and>
     Size b = 100000000"
  using disk_rate [of "zero_Config\<lparr>DiskMBps := 100\<rparr>" "''d''"] by (auto simp: zero_Config_def)

end
