(* ===== verification/Typing.thy ===== *)
theory Typing
  imports Vm
begin

text \<open>
  The integers of the program are 64 bits wide, which the model's \<open>int\<close> does not say. Here every
  operation that makes one from a file, from the caller or by arithmetic is shown to stay in that
  range, so that the values sent to the API are those of Go.
\<close>

section \<open>What decoding keeps\<close>

definition keeps :: "('a \<Rightarrow> bool) \<Rightarrow> 'a decoder \<Rightarrow> bool" where
  "keeps P d \<longleftrightarrow> (\<forall>j a. P a \<longrightarrow> P (fst (d j a)))"

lemma keepsD: "keeps P d \<Longrightarrow> P a \<Longrightarrow> P (fst (d j a))"
  by (simp add: keeps_def)

lemma keeps_True: "keeps (\<lambda>_. True) d"
  by (simp add: keeps_def)

lemma keeps_int: "keeps int64_range dec_int"
  by (auto simp: keeps_def dec_int_def split: json.splits)

lemma keeps_field:
  assumes "keeps Q d" and "\<And>x. P x \<Longrightarrow> Q (sel x)" and "\<And>x b. P x \<Longrightarrow> Q b \<Longrightarrow> P (upd (\<lambda>_. b) x)"
  shows "keeps P (dec_field sel upd d)"
  using assms keepsD [OF assms(1)] by (auto simp: keeps_def dec_field_def split_beta)

lemma field_of_mem: "field_of fs k = Some d \<Longrightarrow> \<exists>n. (n, d) \<in> set fs"
  by (auto simp: field_of_def split: option.splits dest!: map_of_SomeD)

lemma keeps_members:
  assumes "\<And>n d. (n, d) \<in> set fs \<Longrightarrow> keeps P d" and "P x"
  shows "P (fst (dec_members fs kvs x))"
  using assms(2)
proof (induction kvs arbitrary: x)
  case (Cons kv kvs)
  obtain k j where kv: "kv = (k, j)" by fastforce
  show ?case
  proof (cases "field_of fs k")
    case (Some d)
    then have "keeps P d" using field_of_mem [OF Some] assms(1) by blast
    with Cons.prems have "P (fst (d j x))" by (simp add: keepsD)
    then have "P (fst (dec_members fs kvs (fst (d j x))))" by (rule Cons.IH)
    then show ?thesis using Some by (simp add: kv split_beta)
  qed (use Cons in \<open>simp add: kv\<close>)
qed simp

lemma keeps_struct: "(\<And>n d. (n, d) \<in> set fs \<Longrightarrow> keeps P d) \<Longrightarrow> keeps P (dec_struct fs)"
  by (auto simp: keeps_def dec_struct_def intro: keeps_members split: json.split)

lemma keeps_elems:
  assumes "keeps P d" and "P zero"
  shows "list_all P old \<Longrightarrow> list_all P (fst (dec_elems zero d js old))"
proof (induction js arbitrary: old)
  case (Cons j js)
  have "list_all P (tl old)" using Cons.prems by (cases old) simp_all
  moreover have "P (case old of [] \<Rightarrow> zero | a # _ \<Rightarrow> a)" using Cons.prems assms(2) by (cases old) simp_all
  ultimately show ?case using Cons.IH keepsD [OF assms(1)] by (simp add: split_beta)
qed simp

lemma keeps_list: "keeps P d \<Longrightarrow> P zero \<Longrightarrow> keeps (list_all P) (dec_list zero d)"
  by (auto simp: keeps_def dec_list_def intro: keeps_elems [unfolded keeps_def] split: json.split)

lemma keeps_Unmarshal: "keeps P d \<Longrightarrow> P x \<Longrightarrow> P (fst (json_Unmarshal d s x))"
  by (auto simp: json_Unmarshal_def keepsD split: option.split)

section \<open>Files\<close>

lemma keeps_PortMapping: "keeps fits_PortMapping dec_PortMapping"
  unfolding dec_PortMapping_def
  by (rule keeps_struct)
    (auto intro!: keeps_field [OF keeps_int] simp: fits_PortMapping_def)

lemma fits_zero: "fits_PortMapping zero_PortMapping"
  by (simp add: fits_PortMapping_def zero_PortMapping_def int64_range_def)

definition typed_Snapshot :: "Snapshot \<Rightarrow> bool" where
  "typed_Snapshot s \<longleftrightarrow>
     int64_range (VCPUs s) \<and> int64_range (SnapMemory s) \<and> list_all fits_PortMapping (SnapPorts s)"

lemma keeps_Snapshot: "keeps typed_Snapshot dec_Snapshot"
  unfolding dec_Snapshot_def
  by (rule keeps_struct)
    (auto intro!: keeps_field [OF keeps_True] keeps_field [OF keeps_int]
       keeps_field [OF keeps_list [OF keeps_PortMapping fits_zero]] simp: typed_Snapshot_def)

lemma typed_GetSnapshot: "run_state (GetSnapshot E i) w = (Inr s, w') \<Longrightarrow> typed_Snapshot s"
proof -
  have zero: "typed_Snapshot zero_Snapshot"
    by (simp add: typed_Snapshot_def zero_Snapshot_def int64_range_def)
  assume "run_state (GetSnapshot E i) w = (Inr s, w')"
  then obtain data where "json_Unmarshal dec_Snapshot data zero_Snapshot = (s, True)"
    by (auto simp: GetSnapshot_def run_simps split: prod.splits sum.splits if_splits)
  then show ?thesis using keeps_Unmarshal [OF keeps_Snapshot zero, of data] by simp
qed

lemma typed_loadVMPorts: "list_all fits_PortMapping (fst (run_state (loadVMPorts E name) w))"
  using keeps_Unmarshal [OF keeps_list [OF keeps_PortMapping fits_zero], of "[]"]
  by (auto simp: loadVMPorts_def run_simps split: prod.splits sum.splits)

section \<open>The configuration\<close>

definition typed_Config :: "Config \<Rightarrow> bool" where
  "typed_Config c \<longleftrightarrow> int64_range (Memory c) \<and> int64_range (DiskMBps c) \<and> int64_range (DiskIOPS c) \<and>
     int64_range (RootFSSize c) \<and> list_all fits_PortMapping (Ports c)"

lemma typed_setDefaults: "typed_Config c \<Longrightarrow> typed_Config (fst (run_state (setDefaults E c) w))"
  by (auto simp: setDefaults_def typed_Config_def int64_range_def run_simps split: prod.splits)

lemma set_add_unique: "set (snd (add_unique ps st)) \<subseteq> set (snd st) \<union> set ps"
  by (induction ps st rule: add_unique.induct) auto

lemma typed_merge:
  "list_all fits_PortMapping a \<Longrightarrow> list_all fits_PortMapping b \<Longrightarrow> list_all fits_PortMapping (mergeUniquePorts a b)"
  using set_add_unique [of b "add_unique a ({}, [])"] set_add_unique [of a "({}, [])"]
  by (fastforce simp: mergeUniquePorts_def list_all_iff)

lemma typed_snapshot_ports:
  "typed_Config c \<Longrightarrow> pred_option typed_Snapshot snap \<Longrightarrow> typed_Config (with_snapshot_ports c snap)"
  by (auto simp: with_snapshot_ports_def typed_Config_def typed_Snapshot_def typed_merge split: option.split)

lemma typed_load_snapshot:
  "run_state (load_snapshot E c) w = (Inr snap, w') \<Longrightarrow> pred_option typed_Snapshot snap"
  by (auto simp: load_snapshot_def run_simps split: if_splits prod.splits sum.splits dest: typed_GetSnapshot)

section \<open>The devices\<close>

lemma int64_f_to_int: "(\<And>x. int64_range (wide x)) \<Longrightarrow> int64_range (f_to_int wide x)"
  by (cases x) (auto simp: int64_range_def)

lemma int64_mul64: "int64_range (mul64 a b)"
  by (simp add: mul64_def int64_range_def)

lemma int64_consts: "int64_range 0" "int64_range 1000"
  by (simp_all add: int64_range_def)

lemma fits_bucket: "int64_range n \<Longrightarrow> fits_TokenBucket (bucket n)"
  by (simp add: fits_TokenBucket_def bucket_def int64_consts)

lemma fits_drive_of: "typed_Config c \<Longrightarrow> fits_Drive (drive_of c disk)"
  by (simp add: drive_of_def fits_Drive_def fits_RateLimiter_def fits_bucket int64_mul64 typed_Config_def)

lemma fits_nic_of: "(\<And>x. int64_range (wide_int E x)) \<Longrightarrow> fits_NetworkInterface (nic_of E c nc)"
  by (simp add: nic_of_def Let_def fits_NetworkInterface_def fits_RateLimiter_def fits_bucket int64_f_to_int)

lemma int64_vcpus: "(\<And>x. int64_range (wide_int E x)) \<Longrightarrow> int64_range (vcpus_of E cpus)"
  using int64_f_to_int [of "wide_int E" "f_ceil cpus"] by (auto simp: vcpus_of_def Let_def int64_range_def)



end
