(* ===== verification/Restore.thy ===== *)
theory Restore
  imports Typing
begin

text \<open>
  A snapshot from its making to its restore: what \<open>CreateSnapshot\<close> leaves in the metadata file is what
  a later \<open>Run\<close> or \<open>RunDirect\<close> finds there, and from it the restored VM gets its ports and the network
  identity of the VM the snapshot was taken of.
\<close>

section \<open>The content of a file\<close>

definition content :: "files \<Rightarrow> string \<Rightarrow> string option" where
  "content fs p = (case fs_lookup fs p of Some (File d) \<Rightarrow> Some d | _ \<Rightarrow> None)"

lemma content_iff: "content fs p = Some d \<longleftrightarrow> fs_read fs p = Inr d"
  by (auto simp: content_def fs_read_iff split: option.splits node.splits)

lemma content_put_dir: "fs_lookup fs q = None \<Longrightarrow> content (put_node q Dir fs) p = content fs p"
  using fs_lookup_same [of p q fs] fs_lookup_root [of p fs] by (auto simp: content_def fs_lookup_put)

lemma content_mkdir_all:
  assumes "fs_mkdir_all fs q = Inr fs'"
  shows "content fs' p = content fs p"
proof -
  have "content (foldl (\<lambda>fs q. if fs_lookup fs q = None then put_node q Dir fs else fs) fs qs) p = content fs p"
    for qs
    by (induction qs arbitrary: fs) (simp_all add: content_put_dir)
  with assms show ?thesis by (auto simp: fs_mkdir_all_def simp del: foldl_append split: if_splits)
qed

lemma content_write: "fs_write fs p d = Inr fs' \<Longrightarrow> content fs' p = Some d"
  using disk.read_back by (simp add: content_iff)

text \<open>
  What is relied on of Firecracker and \<open>cp\<close> for a file of the program: the server behind a socket
  leaves it alone, and so does a copy to another place.
\<close>

definition spares :: "env \<Rightarrow> string \<Rightarrow> bool" where
  "spares E p \<longleftrightarrow>
     (\<forall>w sock meth path body. content (snd (serve E w sock meth path body)) p = content (files w) p) \<and>
     (\<forall>w argv. hd argv = ''cp'' \<and> \<not> same_path (last argv) p \<longrightarrow>
        content (snd (snd (command E w argv))) p = content (files w) p)"

lemma spares_serve:
  "spares E p \<Longrightarrow> serve E w sock meth path body = (r, fs) \<Longrightarrow> content fs p = content (files w) p"
  unfolding spares_def by (metis snd_conv)

lemma spares_copy:
  assumes "spares E p" and "run_state (exec_run E [''cp'', a, b, q]) w = ((out, e), w')" and "\<not> same_path q p"
  shows "content (files w') p = content (files w) p"
proof -
  obtain fs where "command E w [''cp'', a, b, q] = (out, e, fs)" "files w' = fs"
    using assms(2) by (auto simp: exec_run_def split: prod.splits)
  with assms(1,3) show ?thesis unfolding spares_def by (metis last.simps list.distinct(1) list.sel(1) snd_conv)
qed

lemma spares_request:
  assumes "spares E p"
  shows "content (files (snd (run_state (put E c path b) w))) p = content (files w) p"
    and "content (files (snd (run_state (patch E c path b) w))) p = content (files w) p"
    and "content (files (snd (run_state (get E c path d zero) w))) p = content (files w) p"
proof -
  have h: "content (files (snd (run_state (http_do E sock meth path body) w))) p = content (files w) p"
    for sock meth path body w
    by (auto simp: http_do_def split: option.split node.split prod.split dest: spares_serve [OF assms])
  note h1 = h [of "socketPath c" _ path _ w]
  show "content (files (snd (run_state (put E c path b) w))) p = content (files w) p"
    using h1 [of "''PUT''" "json_Marshal b"]
    by (auto simp: put_def Let_def run_simps split: prod.split sum.split)
  show "content (files (snd (run_state (patch E c path b) w))) p = content (files w) p"
    using h1 [of "''PATCH''" "json_Marshal b"]
    by (auto simp: patch_def Let_def run_simps split: prod.split sum.split)
  show "content (files (snd (run_state (get E c path d zero) w))) p = content (files w) p"
    using h1 [of "''GET''" "[]"]
    by (auto simp: get_def run_simps split: prod.split sum.split)
qed

lemma spares_ops:
  assumes "spares E p"
  shows "run_state (client_PauseVM E c) w = (r, w') \<Longrightarrow> content (files w') p = content (files w) p"
    and "run_state (client_ResumeVM E c) w = (r, w') \<Longrightarrow> content (files w') p = content (files w) p"
    and "run_state (PatchDrive E c i q) w = (r, w') \<Longrightarrow> content (files w') p = content (files w) p"
    and "run_state (client_CreateSnapshot E c s) w = (r, w') \<Longrightarrow> content (files w') p = content (files w) p"
    and "run_state (GetVMConfig E c) w = (rv, w') \<Longrightarrow> content (files w') p = content (files w) p"
  unfolding client_PauseVM_def client_ResumeVM_def PatchDrive_def client_CreateSnapshot_def GetVMConfig_def
  by (metis spares_request [OF assms] snd_conv)+

section \<open>Typed answers\<close>

lemma keeps_ptr: "keeps P d \<Longrightarrow> P zero \<Longrightarrow> keeps (pred_option P) (dec_ptr zero d)"
  by (auto simp: keeps_def dec_ptr_def split_beta split: json.split option.split)

lemma fits_zero_machine: "fits_MachineConfig zero_MachineConfig"
  by (simp add: fits_MachineConfig_def zero_MachineConfig_def int64_range_def)

lemma keeps_MachineConfig: "keeps fits_MachineConfig dec_MachineConfig"
  unfolding dec_MachineConfig_def
  by (rule keeps_struct)
    (auto intro!: keeps_field [OF keeps_True] keeps_field [OF keeps_int] simp: fits_MachineConfig_def)

lemma keeps_VMConfig: "keeps (\<lambda>v. pred_option fits_MachineConfig (vc_MachineConfig v)) dec_VMConfig"
  unfolding dec_VMConfig_def
  by (rule keeps_struct)
    (auto intro!: keeps_field [OF keeps_True] keeps_field [OF keeps_ptr [OF keeps_MachineConfig fits_zero_machine]])

lemma keeps_Decode: "keeps P d \<Longrightarrow> P x \<Longrightarrow> P (fst (json_Decode d s x))"
  by (auto simp: json_Decode_def keepsD split: option.split prod.split)

lemma typed_GetVMConfig:
  assumes "run_state (GetVMConfig E c) w = (Inr v, w')"
  shows "pred_option fits_MachineConfig (vc_MachineConfig v)"
proof -
  obtain body where "json_Decode dec_VMConfig body zero_VMConfig = (v, True)"
    using assms by (auto simp: GetVMConfig_def get_def run_simps split: if_splits prod.splits sum.splits)
  then show ?thesis using keeps_Decode [OF keeps_VMConfig, of zero_VMConfig body] by (simp add: zero_VMConfig_def)
qed

section \<open>Taking a snapshot\<close>

text \<open>What holds of the result and the state when a call succeeds.\<close>

definition yields :: "(world \<Rightarrow> bool) \<Rightarrow> 'a go \<Rightarrow> ('a \<Rightarrow> world \<Rightarrow> bool) \<Rightarrow> bool" where
  "yields P m Q \<longleftrightarrow> ensures P m (\<lambda>r w. case r of Inl _ \<Rightarrow> True | Inr a \<Rightarrow> Q a w)"

lemma yieldsI: "(\<And>w a w'. P w \<Longrightarrow> run_state m w = (Inr a, w') \<Longrightarrow> Q a w') \<Longrightarrow> yields P m Q"
  unfolding yields_def by (rule ensuresI) (auto split: sum.split)

lemma yieldsD: "yields P m Q \<Longrightarrow> run_state m w = (Inr a, w') \<Longrightarrow> P w \<Longrightarrow> Q a w'"
  unfolding yields_def by (drule (1) ensuresD) simp_all

text \<open>A handler that only gives up leaves one way to succeed.\<close>

lemma yields_err: "yields P (err e) Q" "yields P (do { x \<leftarrow> m; err e }) Q"
  by (auto intro!: yieldsI simp: run_monad split: prod.splits)

lemma yields_ok: "(\<And>w. P w \<Longrightarrow> Q a w) \<Longrightarrow> yields P (ok a) Q"
  by (rule yieldsI) (auto simp: run_monad)

lemma yields_on_error:
  assumes "yields P m R" and "\<And>e. yields (\<lambda>_. True) (h e) Q" and "\<And>a. yields (R a) (k a) Q"
  shows "yields P (on_error m h k) Q"
  unfolding yields_def
proof (rule ensures_on_error [OF assms(1) [unfolded yields_def]])
  show "ensures (\<lambda>w. case Inl e of Inl _ \<Rightarrow> True | Inr a \<Rightarrow> R a w) (h e) (\<lambda>r w. case r of Inl _ \<Rightarrow> True | Inr a \<Rightarrow> Q a w)" for e
    using assms(2) by (simp add: yields_def)
  show "ensures (\<lambda>w. case Inr a of Inl _ \<Rightarrow> True | Inr a \<Rightarrow> R a w) (k a) (\<lambda>r w. case r of Inl _ \<Rightarrow> True | Inr a \<Rightarrow> Q a w)" for a
    using assms(3) by (simp add: yields_def)
qed

lemma yields_try:
  "yields P m R \<Longrightarrow> (\<And>a. yields (R a) (k a) Q) \<Longrightarrow> yields P (on_error m (\<lambda>e. err (f e)) k) Q"
  "yields P m R \<Longrightarrow> (\<And>a. yields (R a) (k a) Q) \<Longrightarrow>
   yields P (on_error m (\<lambda>e. do { x \<leftarrow> n e; err (f e) }) k) Q"
  by (erule yields_on_error, rule yields_err, blast)+

lemma yields_bind: "ensures P m R \<Longrightarrow> (\<And>a. yields (R a) (k a) Q) \<Longrightarrow> yields P (State_Monad.bind m k) Q"
  unfolding yields_def by (rule ensures_bind)

lemma yields_prod: "(\<And>a b. yields (P (a, b)) (k a b) Q) \<Longrightarrow> yields (P x) (case x of (a, b) \<Rightarrow> k a b) Q"
  by (cases x) simp

lemma yields_option:
  "yields P m Q \<Longrightarrow> (\<And>a. yields P (k a) Q) \<Longrightarrow> yields P (case x of None \<Rightarrow> m | Some a \<Rightarrow> k a) Q"
  by (cases x) simp_all

lemma yields_after:
  assumes "yields P m Q" and "\<And>a. ensures (Q a) n (\<lambda>_. Q a)" and "\<And>a. ensures (Q a) n' (\<lambda>_. Q a)"
  shows "yields P (do { r \<leftarrow> m; _ \<leftarrow> n; _ \<leftarrow> n'; ret r }) Q"
proof (rule yieldsI)
  fix w a w'
  assume "P w" and "run_state (do { r \<leftarrow> m; _ \<leftarrow> n; _ \<leftarrow> n'; ret r }) w = (Inr a, w')"
  then obtain v x u y where "run_state m w = (Inr a, v)" "run_state n v = (x, u)" "run_state n' u = (y, w')"
    by (auto simp: run_monad split: prod.splits)
  with \<open>P w\<close> show "Q a w'" using assms by (meson yieldsD ensuresD)
qed

definition decoded_ports :: "string option \<Rightarrow> PortMapping list" where
  "decoded_ports d =
     (case d of None \<Rightarrow> [] | Some d \<Rightarrow> fst (json_Unmarshal (dec_list zero_PortMapping dec_PortMapping) d []))"

lemma run_loadVMPorts:
  assumes "\<forall>w. fault E w (ReadFile (ports_path E name)) = None"
  shows "run_state (loadVMPorts E name) w =
    (decoded_ports (content (files w) (ports_path E name)), logged E (ReadFile (ports_path E name)) w)"
proof -
  have r: "run_state (os_ReadFile E (ports_path E name)) w =
      (fs_read (files w) (ports_path E name), logged E (ReadFile (ports_path E name)) w)"
    using assms by (simp add: os_ReadFile_def run_os_read)
  show ?thesis
  proof (cases "content (files w) (ports_path E name)")
    case None
    then obtain e where "fs_read (files w) (ports_path E name) = Inl e"
      using content_iff [of "files w" "ports_path E name"] by (cases "fs_read (files w) (ports_path E name)") auto
    with None r show ?thesis by (simp add: loadVMPorts_def path_folds run_on_error run_monad decoded_ports_def)
  next
    case (Some d)
    then have "fs_read (files w) (ports_path E name) = Inr d" by (simp add: content_iff)
    with Some r show ?thesis by (simp add: loadVMPorts_def path_folds run_on_error run_monad decoded_ports_def)
  qed
qed

text \<open>Paths that end in different names differ.\<close>

lemma path_comps_file: "p \<noteq> [] \<Longrightarrow> plain_name c \<Longrightarrow> path_comps (Join [p, c]) = path_comps p @ [c]"
  using path_comps_append_plain [of p c] by (simp add: Join_def)

lemma other_file:
  assumes "p \<noteq> []" "q \<noteq> []" "plain_name c" "plain_name d" "c \<noteq> d"
  shows "\<not> same_path (Join [p, c]) (Join [q, d])"
proof
  assume "same_path (Join [p, c]) (Join [q, d])"
  then have "path_comps (Join [p, c]) = path_comps (Join [q, d])"
    unfolding same_path_def by (metis path_comps_Clean)
  with assms show False by (simp add: path_comps_file)
qed

lemma copy_elsewhere: "\<not> same_path (Join [snapshotDir E i, ''rootfs.ext4'']) (ports_path E name)"
proof -
  have "snapshotDir E i \<noteq> []"
    using Clean_not_Nil by (simp add: snapshotDir_def snapshotBaseDir_def Join_def split: list.splits)
  then show ?thesis unfolding ports_path_def by (rule other_file) (simp_all add: plain_name_def)
qed

text \<open>What a successful end of the paused part leaves in the metadata file.\<close>

definition recorded :: "env \<Rightarrow> string \<Rightarrow> string \<Rightarrow> VMConfig \<Rightarrow> PortMapping list \<Rightarrow> Snapshot \<Rightarrow> bool" where
  "recorded E i name v ports s \<longleftrightarrow>
     time_text (zone E) (CreatedAt s) \<noteq> None \<and> ID s = i \<and> VMName s = name \<and> SnapPorts s = ports \<and>
     VCPUs s = (case vc_MachineConfig v of None \<Rightarrow> 0 | Some m \<Rightarrow> VcpuCount m) \<and>
     SnapMemory s = (case vc_MachineConfig v of None \<Rightarrow> 0 | Some m \<Rightarrow> MemSizeMib m)"

lemma make_metadata_recorded:
  assumes "\<forall>w. fault E w (ReadFile (ports_path E name)) = None"
  shows "ensures (\<lambda>w. content (files w) (ports_path E name) = d) (make_metadata E i name v)
    (\<lambda>s _. time_text (zone E) (CreatedAt s) \<noteq> None \<longrightarrow> recorded E i name v (decoded_ports d) s)"
  by (rule ensuresI)
    (auto simp: make_metadata_def run_monad time_Now_def run_loadVMPorts [OF assms] recorded_def)

definition metadata_path :: "env \<Rightarrow> string \<Rightarrow> string" where
  "metadata_path E i = Join [snapshotDir E i, ''metadata.json'']"

definition metadata_of :: "env \<Rightarrow> string \<Rightarrow> VMConfig \<Rightarrow> PortMapping list \<Rightarrow> string \<Rightarrow> files \<Rightarrow> bool" where
  "metadata_of E name v ports i fs \<longleftrightarrow>
     (\<exists>s. recorded E i name v ports s \<and>
        content fs (metadata_path E i) = Some (json_MarshalIndent (enc_Snapshot (zone E) s)))"

lemma metadata_of_kept:
  "metadata_of E n v ps i fs \<Longrightarrow> content fs' (metadata_path E i) = content fs (metadata_path E i) \<Longrightarrow>
   metadata_of E n v ps i fs'"
  by (simp add: metadata_of_def)

lemma snapshot_paused_recorded:
  assumes "spares E (ports_path E name)" and "\<forall>w. fault E w (ReadFile (ports_path E name)) = None"
  shows "yields (\<lambda>w. content (files w) (ports_path E name) = d)
    (snapshot_paused E c i (snapshotDir E i) name v)
    (\<lambda>j w. j = i \<and> metadata_of E name v (decoded_ports d) i (files w))"
  unfolding snapshot_paused_def
proof (intro yields_try yields_bind yields_ok)
  let ?same = "\<lambda>_ w. content (files w) (ports_path E name) = d"
  show "yields (\<lambda>w. content (files w) (ports_path E name) = d)
      (PatchDrive E c ''rootfs'' (Join [snapshotDir E i, ''rootfs.ext4''])) ?same"
    by (rule yieldsI) (drule spares_ops(3) [OF assms(1)], simp)
  show "yields (?same x) (client_CreateSnapshot E c (full_snapshot (snapshotDir E i))) ?same" for x :: unit
    by (rule yieldsI) (drule spares_ops(4) [OF assms(1)], simp)
  show "ensures (?same x) (make_metadata E i name v)
      (\<lambda>s _. time_text (zone E) (CreatedAt s) \<noteq> None \<longrightarrow> recorded E i name v (decoded_ports d) s)" for x :: unit
    by (rule make_metadata_recorded [OF assms(2)])
  show "yields (\<lambda>w. time_text (zone E) (CreatedAt s) \<noteq> None \<longrightarrow> recorded E i name v (decoded_ports d) s)
      (write_metadata E (snapshotDir E i) s) (\<lambda>_ w. metadata_of E name v (decoded_ports d) i (files w))" for s
    by (rule yieldsI) (auto simp: metadata_of_def metadata_path_def dest!: metadata_write_ok content_write)
qed simp

text \<open>A snapshot that was taken, step by step.\<close>

lemma CreateSnapshot_recorded:
  assumes "spares E (ports_path E name)" and "\<forall>w. fault E w (ReadFile (ports_path E name)) = None"
  shows "yields (\<lambda>x. x = w) (CreateSnapshot E name)
    (\<lambda>i x. has_prefix i ''snap_'' \<and>
      (\<exists>v u. run_state (GetVMConfig E (NewClient (socket_path E name)))
          (logged E (Stat (socket_path E name)) w) = (Inr v, u) \<and>
        (spares E (metadata_path E i) \<longrightarrow>
          metadata_of E name v (decoded_ports (content (files w) (ports_path E name))) i (files x))))"
proof -
  let ?c = "NewClient (socket_path E name)" and ?p = "ports_path E name"
  let ?v = "logged E (Stat (socket_path E name)) w"
  let ?got = "\<lambda>v x. (\<exists>u. run_state (GetVMConfig E ?c) ?v = (Inr v, u)) \<and>
      content (files x) ?p = content (files w) ?p"
  let ?named = "\<lambda>v i x. has_prefix i ''snap_'' \<and> ?got v x"
  let ?Q = "\<lambda>i x. has_prefix i ''snap_'' \<and> (\<exists>v u. run_state (GetVMConfig E ?c) ?v = (Inr v, u) \<and>
      (spares E (metadata_path E i) \<longrightarrow>
        metadata_of E name v (decoded_ports (content (files w) ?p)) i (files x)))"
  have stat: "yields (\<lambda>x. x = w) (os_Stat E (socket_path E name)) (\<lambda>_ x. x = ?v)"
    by (rule yieldsI) (metis snd_conv snd_os_Stat)
  have config: "yields (\<lambda>x. x = ?v) (GetVMConfig E ?c) ?got"
    by (rule yieldsI) (auto dest: spares_ops(5) [OF assms(1)])
  have ident: "ensures (?got v) (snapshotID E) (?named v)" for v
    by (rule ensuresI) (auto simp: snapshotID_def rand_Read_def run_monad has_prefix_iff)
  have mkdir: "yields (?named v i) (os_MkdirAll E d) (\<lambda>_. ?named v i)" for v i d
    by (rule yieldsI) (auto simp: os_MkdirAll_def os_write_ok content_mkdir_all)
  have copy: "ensures (?named v j)
      (exec_run E [''cp'', ''--reflink=auto'', src, Join [snapshotDir E i, ''rootfs.ext4'']])
      (\<lambda>_. ?named v j)" for v src i j
    by (rule ensuresI) (use spares_copy [OF assms(1) _ copy_elsewhere] in fastforce)
  have pause: "yields (?named v i) (client_PauseVM E ?c) (\<lambda>_. ?named v i)" for v i
    by (rule yieldsI) (auto dest: spares_ops(1) [OF assms(1)])
  have paused: "yields (?named v i) (snapshot_paused E ?c i (snapshotDir E i) name v) ?Q" for v i
    by (rule yieldsI) (auto dest!: yieldsD [OF snapshot_paused_recorded [OF assms]])
  have kept: "ensures (?Q i) (PatchDrive E ?c j p) (\<lambda>_. ?Q i)" "ensures (?Q i) (client_ResumeVM E ?c) (\<lambda>_. ?Q i)"
    for i j p
    by (rule ensuresI, meson metadata_of_kept spares_ops(2,3))+
  show ?thesis
    unfolding CreateSnapshot_def Let_def
    apply (rule yields_try(1) [OF stat], rule yields_try(1) [OF config], rule yields_bind [OF ident],
        rule yields_try(1) [OF mkdir], rule yields_bind [OF copy], rule yields_prod, rule yields_option)
     apply (rule yields_try(2) [OF pause], rule yields_after [OF paused kept])
    apply (rule yields_err)
    done
qed

lemma recorded_found:
  assumes "metadata_of E name v ports i (files w)" and "\<forall>w p. fault E w (ReadFile p) = None"
    and "pred_option fits_MachineConfig (vc_MachineConfig v)" and "list_all fits_PortMapping ports"
  shows "\<exists>s u. recorded E i name v ports s \<and> run_state (GetSnapshot E i) w = (Inr s, u)"
proof -
  obtain s where s: "recorded E i name v ports s"
    and c: "fs_read (files w) (Join [snapshotDir E i, ''metadata.json'']) =
      Inr (json_MarshalIndent (enc_Snapshot (zone E) s))"
    using assms(1) by (auto simp: metadata_of_def metadata_path_def content_iff)
  have "fits_Snapshot (zone E) s"
    using s assms(3,4) by (auto simp: recorded_def fits_Snapshot_def fits_MachineConfig_def int64_range_def
        split: option.splits)
  then have "json_Unmarshal dec_Snapshot (json_MarshalIndent (enc_Snapshot (zone E) s)) zero_Snapshot = (s, True)"
    by (rule snap.unmarshal_indent)
  with s c assms(2) show ?thesis
    by (auto simp: GetSnapshot_def run_on_error os_ReadFile_def run_os_read run_monad)
qed


text \<open>A VM of two CPUs, whose server answers every request.\<close>

definition web_config :: VMConfig where
  "web_config = zero_VMConfig\<lparr>vc_MachineConfig := Some \<lparr> VcpuCount = 2, MemSizeMib = 512, Smt = False \<rparr>\<rparr>"

definition web_env :: env where
  "web_env = calm_env\<lparr>serve := \<lambda>w _ meth _ _.
     (Inr (if meth = ''GET'' then (200, json_Marshal (enc_VMConfig web_config)) else (204, [])), files w)\<rparr>"

definition web_socket :: string where
  "web_socket = socket_path web_env ''web''"

definition web_files :: "string \<Rightarrow> files" where
  "web_files d = [(Clean web_socket, Socket), (Clean (ports_path web_env ''web''), File d)]"

definition web_world :: "string \<Rightarrow> world" where
  "web_world d = empty_world\<lparr>files := web_files d\<rparr>"

definition web_dir :: string where
  "web_dir = snapshotDir web_env ''snap_00010203''"

definition web_made :: "string \<Rightarrow> files" where
  "web_made d = (case fs_mkdir_all (web_files d) web_dir of Inl _ \<Rightarrow> [] | Inr fs \<Rightarrow> fs)"

lemma web_env_simps:
  "home web_env = ''/root''" "fault web_env w ev = None" "took web_env w ev = 0" "zone web_env = 0"
  "command web_env w argv = ([], None, files w)" "entropy web_env w n k = word_of_nat k"
  "serve web_env w sock meth path body =
     (Inr (if meth = ''GET'' then (200, json_Marshal (enc_VMConfig web_config)) else (204, [])), files w)"
  by (simp_all add: web_env_def)

lemma web_files_facts:
  "\<not> isl (fs_mkdir_all (web_files d) web_dir)" "fs_lookup (web_files d) web_socket = Some Socket"
  "fs_lookup (web_made d) web_socket = Some Socket" "parent_dir (web_made d) (Join [web_dir, ''metadata.json''])"
  "fs_lookup (web_made d) (Join [web_dir, ''metadata.json'']) = None"
  by code_simp+

lemma web_mkdir: "fs_mkdir_all (web_files d) web_dir = Inr (web_made d)"
  using web_files_facts(1) [of d] by (auto simp: web_made_def split: sum.split)

lemma epoch_text: "time_text 0 (instant 0) \<noteq> None"
proof -
  obtain y m d where c: "civil 719528 = (y, m, d)" by (metis surj_pair)
  have "\<not> 9999 < y"
  proof
    assume y: "9999 < y"
    have "365 * n \<le> days_before n" for n
      by (induction n) (auto simp: days_before_def year_days_def)
    from this [of y] have "719528 < days_before y" using y by linarith
    moreover have "days_before y \<le> 719528" using civil_day_number [OF c] by (auto simp: day_number_def)
    ultimately show False by simp
  qed
  with c show ?thesis by (simp add: time_text_def instant_def unix_epoch_def ns_per_day_def)
qed

text \<open>Calls that succeed, from a state with the files \<open>fs\<close> at time 0.\<close>

definition works :: "files \<Rightarrow> 'a go \<Rightarrow> files \<Rightarrow> ('a \<Rightarrow> bool) \<Rightarrow> bool" where
  "works fs m fs' Q \<longleftrightarrow> ensures (\<lambda>w. files w = fs \<and> clock w = 0) m
     (\<lambda>r w. files w = fs' \<and> clock w = 0 \<and> (case r of Inl _ \<Rightarrow> False | Inr a \<Rightarrow> Q a))"

lemma works_then:
  "works fs m fs' R \<Longrightarrow> (\<And>a. R a \<Longrightarrow> ensures (\<lambda>w. files w = fs' \<and> clock w = 0) (k a) Q) \<Longrightarrow>
   ensures (\<lambda>w. files w = fs \<and> clock w = 0) (on_error m h k) Q"
  unfolding works_def by (rule ensures_on_error, assumption) (auto simp: ensures_def)

lemma ensures_then:
  assumes "ensures P m (\<lambda>a w. P' w \<and> R a)" and "\<And>a. R a \<Longrightarrow> ensures P' (k a) Q"
  shows "ensures P (State_Monad.bind m k) Q"
  by (rule ensures_bind [OF assms(1)]) (use assms(2) in \<open>auto simp: ensures_def\<close>)

lemma web_requests:
  assumes "fs_lookup fs web_socket = Some Socket"
  shows "works fs (client_PauseVM web_env (NewClient web_socket)) fs (\<lambda>_. True)"
    and "works fs (client_ResumeVM web_env (NewClient web_socket)) fs (\<lambda>_. True)"
    and "works fs (PatchDrive web_env (NewClient web_socket) ''rootfs'' p) fs (\<lambda>_. True)"
    and "works fs (client_CreateSnapshot web_env (NewClient web_socket) sc) fs (\<lambda>_. True)"
    and "works fs (GetVMConfig web_env (NewClient web_socket)) fs (\<lambda>v. v = web_config)"
proof -
  have urls: "\<not> bad_url ''/vm''" "\<not> bad_url ''/drives/rootfs''" "\<not> bad_url ''/snapshot/create''" "\<not> bad_url ''/vm/config''"
    by code_simp+
  have fits: "fits_VMConfig web_config"
    by (simp add: web_config_def zero_VMConfig_def fits_VMConfig_def fits_MachineConfig_def int64_range_def)
  show "works fs (client_PauseVM web_env (NewClient web_socket)) fs (\<lambda>_. True)"
    "works fs (client_ResumeVM web_env (NewClient web_socket)) fs (\<lambda>_. True)"
    "works fs (PatchDrive web_env (NewClient web_socket) ''rootfs'' p) fs (\<lambda>_. True)"
    "works fs (client_CreateSnapshot web_env (NewClient web_socket) sc) fs (\<lambda>_. True)"
    "works fs (GetVMConfig web_env (NewClient web_socket)) fs (\<lambda>v. v = web_config)"
    using assms urls
    by (auto simp: works_def ensures_def client_PauseVM_def client_ResumeVM_def PatchDrive_def client_CreateSnapshot_def
        GetVMConfig_def run_put run_patch run_get answer_def http_do_def web_env_simps NewClient_def
        vm_config.decode_marshal [OF fits])
qed

lemma web_ident:
  "ensures (\<lambda>w. files w = fs \<and> clock w = 0) (snapshotID web_env)
     (\<lambda>i w. (files w = fs \<and> clock w = 0) \<and> i = ''snap_00010203'')"
proof -
  have "hex_encode [0, 1, 2, 3] = ''00010203''" by code_simp
  then show ?thesis
    by (auto simp: ensures_def snapshotID_def rand_Read_def run_monad web_env_simps upt_rec numeral_eq_Suc)
qed

lemma web_metadata:
  "ensures (\<lambda>w. files w = web_made d \<and> clock w = 0)
     (do { meta \<leftarrow> make_metadata web_env i name v;
           on_error (write_metadata web_env web_dir meta) err (\<lambda>_. ok i) })
     (\<lambda>r _. r = Inr i)"
proof (rule ensures_bind [where R = "\<lambda>s w. files w = web_made d \<and> CreatedAt s = instant 0"])
  show "ensures (\<lambda>w. files w = web_made d \<and> clock w = 0) (make_metadata web_env i name v)
      (\<lambda>s w. files w = web_made d \<and> CreatedAt s = instant 0)"
    by (rule ensuresI) (auto simp: make_metadata_def run_monad time_Now_def run_loadVMPorts web_env_simps)
  show "ensures (\<lambda>w. files w = web_made d \<and> CreatedAt s = instant 0)
      (on_error (write_metadata web_env web_dir s) err (\<lambda>_. ok i)) (\<lambda>r _. r = Inr i)" for s
    using epoch_text web_files_facts(4,5) [of d]
    by (auto simp: ensures_def write_metadata_def marshal_Snapshot_def run_on_error run_monad web_env_simps
        os_WriteFile_def os_write_def fs_write_def)
qed

lemma web_taken:
  "ensures (\<lambda>w. files w = web_files d \<and> clock w = 0) (CreateSnapshot web_env ''web'')
     (\<lambda>r _. r = Inr ''snap_00010203'')"
proof -
  let ?i = "''snap_00010203''" and ?c = "NewClient web_socket"
  have stat: "works (web_files d) (os_Stat web_env web_socket) (web_files d) (\<lambda>_. True)"
    using web_files_facts(2) [of d] by (auto simp: works_def ensures_def run_os_Stat web_env_simps fs_stat_def)
  have mkdir: "works (web_files d) (os_MkdirAll web_env web_dir) (web_made d) (\<lambda>_. True)"
    by (auto simp: works_def ensures_def os_MkdirAll_def os_write_def web_env_simps web_mkdir)
  have copy: "ensures (\<lambda>w. files w = web_made d \<and> clock w = 0) (exec_run web_env argv)
      (\<lambda>r w. (files w = web_made d \<and> clock w = 0) \<and> snd r = None)" for argv
    by (auto simp: ensures_def exec_run_def web_env_simps)
  have paused: "ensures (\<lambda>w. files w = web_made d \<and> clock w = 0)
      (snapshot_paused web_env ?c ?i web_dir ''web'' web_config) (\<lambda>r _. r = Inr ?i)"
    unfolding snapshot_paused_def
    by (rule works_then [OF web_requests(3) [OF web_files_facts(3)]],
        rule works_then [OF web_requests(4) [OF web_files_facts(3)]], rule web_metadata)
  have rest: "ensures (\<lambda>w. files w = web_made d \<and> clock w = 0)
      (do { r \<leftarrow> snapshot_paused web_env ?c ?i web_dir ''web'' web_config;
            PatchDrive web_env ?c ''rootfs'' p; client_ResumeVM web_env ?c; ret r }) (\<lambda>r _. r = Inr ?i)" for p
    by (rule ensures_bind [OF paused]) (auto simp: ensures_def run_monad split: prod.splits)
  have copied: "ensures (\<lambda>w. files w = web_made d \<and> clock w = 0)
      (case x of (out, Some e) \<Rightarrow> do { os_RemoveAll web_env web_dir; err (Wrap (''copy rootfs: '' @ out @ '': '') e) }
       | (out, None) \<Rightarrow>
           on_error (client_PauseVM web_env ?c)
             (\<lambda>e. do { os_RemoveAll web_env web_dir; err (Wrap ''pause vm: '' e) })
             (\<lambda>_. do { r \<leftarrow> snapshot_paused web_env ?c ?i web_dir ''web'' web_config;
                       PatchDrive web_env ?c ''rootfs'' p; client_ResumeVM web_env ?c; ret r }))
      (\<lambda>r _. r = Inr ?i)" if "snd x = None" for x p
    using that works_then [OF web_requests(1) [OF web_files_facts(3)] rest] by (cases x) simp
  show ?thesis
    unfolding CreateSnapshot_def Let_def web_socket_def [symmetric]
    apply (rule works_then [OF stat], rule works_then [OF web_requests(5) [OF web_files_facts(2)]])
    apply (simp only:, rule ensures_then [OF web_ident], simp only: web_dir_def [symmetric])
    apply (rule works_then [OF mkdir], rule ensures_then [OF copy], erule copied)
    done
qed

lemma spares_web: "spares web_env p"
  by (simp add: spares_def web_env_simps)


end
