(* ===== verification/Race.thy ===== *)
theory Race
  imports Egress
begin

text \<open>
  Several setups of direct mode at once. Every VM is started by a process of its own, nothing locks
  the host's table, and each command of \<open>setupBoxNetns\<close> is one transaction of the packet filter: so
  the commands of the setups under way are run in any order that keeps the order of each. A step
  relation says so; the setup of \<open>Netns\<close> is one of its executions.
\<close>

section \<open>Setups under way\<close>

text \<open>A setup is what is left of its plan, or has ended at a command that failed.\<close>

datatype pending = Todo "step list" | Failed

type_synonym setups = "pending list \<times> string list list"

text \<open>
  The second part is the log of the commands that took effect. A command that may fail is passed
  when it does; one that must succeed ends its setup.
\<close>

inductive setup_step :: "setups \<Rightarrow> setups \<Rightarrow> bool" where
  takes_effect: "i < length ss \<Longrightarrow> ss ! i = Todo (p # ps) \<Longrightarrow>
    setup_step (ss, log) (ss[i := Todo ps], log @ [argv_of p])"
| ignored: "i < length ss \<Longrightarrow> ss ! i = Todo (May a # ps) \<Longrightarrow>
    setup_step (ss, log) (ss[i := Todo ps], log)"
| fails: "i < length ss \<Longrightarrow> ss ! i = Todo (Must a # ps) \<Longrightarrow>
    setup_step (ss, log) (ss[i := Failed], log)"

abbreviation setup_steps :: "setups \<Rightarrow> setups \<Rightarrow> bool" where
  "setup_steps \<equiv> setup_step\<^sup>*\<^sup>*"

abbreviation log_chain :: "string \<Rightarrow> string list list \<Rightarrow> string list list" where
  "log_chain c log \<equiv> chain_after c [] log"

lemma step_one:
  "i < length ss \<Longrightarrow> ss ! i = Todo (p # ps) \<Longrightarrow> setup_steps (ss, log) (ss[i := Todo ps], log @ [argv_of p])"
  by (rule r_into_rtranclp) (rule takes_effect)

text \<open>A setup that is left alone for a while runs a part of its plan.\<close>

lemma steps_part:
  "i < length ss \<Longrightarrow> ss ! i = Todo (ps @ qs) \<Longrightarrow>
   setup_steps (ss, log) (ss[i := Todo qs], log @ map argv_of ps)"
proof (induction ps arbitrary: ss log)
  case Nil
  then have "ss[i := Todo qs] = ss" using list_update_id [of ss i] by simp
  then show ?case by simp
next
  case (Cons p ps)
  have "setup_steps (ss, log) (ss[i := Todo (ps @ qs)], log @ [argv_of p])"
    using Cons.prems by (intro step_one) simp_all
  also have "setup_steps \<dots> (ss[i := Todo qs], log @ map argv_of (p # ps))"
    using Cons.IH [of "ss[i := Todo (ps @ qs)]" "log @ [argv_of p]"] Cons.prems by simp
  finally show ?case .
qed

text \<open>The plan of a single setup, run by itself, is an execution.\<close>

lemma run_plan_execution:
  "\<exists>as. trace (snd (run_state (run_plan E ps) w)) = trace w @ map Exec as \<and>
     (if isl (fst (run_state (run_plan E ps) w))
      then as \<noteq> [] \<and> setup_steps ([Todo ps], log) ([Failed], log @ butlast as)
      else setup_steps ([Todo ps], log) ([Todo []], log @ as))"
proof (induction ps arbitrary: w log)
  case Nil
  show ?case by (simp add: run_simps)
next
  case (Cons p ps)
  let ?a = "argv_of p"
  let ?v = "snd (run_state (run_cmd E ?a) w)"
  have v: "snd (run_state (try_cmd E ?a) w) = ?v"
    by (auto simp: run_cmd_def try_cmd_def run_simps split: prod.splits option.splits)
  show ?case
  proof (cases "\<exists>a. p = Must a \<and> isl (fst (run_state (run_cmd E a) w))")
    case True
    then obtain a where p: "p = Must a" and l: "isl (fst (run_state (run_cmd E a) w))" by blast
    have "setup_steps ([Todo (p # ps)], log) ([Failed], log @ butlast [a])"
      using fails [of 0 "[Todo (Must a # ps)]" a ps log] by (simp add: p r_into_rtranclp)
    moreover have "isl (fst (run_state (run_plan E (p # ps)) w))"
      "trace (snd (run_state (run_plan E (p # ps)) w)) = trace w @ map Exec [a]"
      using l exec_trace(1) [of E a w] by (auto simp: p run_on_error run_simps split: prod.splits sum.splits)
    ultimately show ?thesis by (intro exI [of _ "[a]"]) simp
  next
    case False
    have rest: "fst (run_state (run_plan E (p # ps)) w) = fst (run_state (run_plan E ps) ?v)"
      "snd (run_state (run_plan E (p # ps)) w) = snd (run_state (run_plan E ps) ?v)"
      using False v by (cases p; auto simp: run_on_error run_simps split: prod.splits sum.splits)+
    obtain as where as: "trace (snd (run_state (run_plan E ps) ?v)) = trace ?v @ map Exec as"
      "if isl (fst (run_state (run_plan E ps) ?v))
       then as \<noteq> [] \<and> setup_steps ([Todo ps], log @ [?a]) ([Failed], (log @ [?a]) @ butlast as)
       else setup_steps ([Todo ps], log @ [?a]) ([Todo []], (log @ [?a]) @ as)"
      using Cons.IH [of ?v "log @ [?a]"] by blast
    have first: "setup_steps ([Todo (p # ps)], log) ([Todo ps], log @ [?a])"
      using step_one [of 0 "[Todo (p # ps)]" p ps log] by simp
    show ?thesis
      using as first exec_trace(1) [of E ?a w]
      by (intro exI [of _ "?a # as"]) (auto simp: rest split: if_splits intro: rtranclp_trans)
  qed
qed

text \<open>C25: A run of \<open>setupBoxNetns\<close> is an execution of the step relation: it runs the plan of a setup to
  its end, or ends as failed at its last command, which had no effect.\<close>
theorem setup_is_execution:
  "case run_state (setupBoxNetns E nc vhIP vgIP vethHost vethGuest netns ports) w of
     (r, w') \<Rightarrow> \<exists>as. trace w' = trace w @ map Exec as \<and>
       (if isl r
        then as \<noteq> [] \<and> setup_steps ([Todo (setup_plan nc vhIP vgIP vethHost vethGuest netns ports)], log)
               ([Failed], log @ butlast as)
        else setup_steps ([Todo (setup_plan nc vhIP vgIP vethHost vethGuest netns ports)], log)
               ([Todo []], log @ as))"
proof -
  let ?m = "setupBoxNetns E nc vhIP vgIP vethHost vethGuest netns ports"
  let ?ps = "setup_plan nc vhIP vgIP vethHost vethGuest netns ports"
  have "isl (fst (run_state ?m w)) = isl (fst (run_state (run_plan E ?ps) w))"
    "snd (run_state ?m w) = snd (run_state (run_plan E ?ps) w)"
    using setup_refines_plan_lemma [of E nc vhIP vgIP vethHost vethGuest netns ports]
    by (auto simp: agree_def)
  with run_plan_execution [of E ?ps w log] show ?thesis by (simp add: split_beta)
qed

section \<open>What every interleaving keeps\<close>

definition filter_chain :: "string \<Rightarrow> bool" where
  "filter_chain c \<longleftrightarrow> c = ''forward'' \<or> c = ''input''"

definition is_setup :: "step list \<Rightarrow> bool" where
  "is_setup ps \<longleftrightarrow> (\<exists>nc vhIP vgIP vethHost vethGuest netns ports.
     ps = setup_plan nc vhIP vgIP vethHost vethGuest netns ports)"

text \<open>The rules a part of a plan still adds to a chain.\<close>

definition adds :: "string \<Rightarrow> step list \<Rightarrow> string list set" where
  "adds c ps = drop 6 ` {a \<in> argv_of ` set ps. take 6 a = rule_head c}"

lemma adds_simps:
  "adds c [] = {}"
  "adds c (p # ps) = (if take 6 (argv_of p) = rule_head c then insert (drop 6 (argv_of p)) (adds c ps) else adds c ps)"
  "adds c (ps @ qs) = adds c ps \<union> adds c qs"
  by (auto simp: adds_def)

text \<open>
  What is left of a setup never adds other rules than those of the filter, and adds all of them
  after it has emptied the chain.
\<close>

definition orderly :: "string \<Rightarrow> step list \<Rightarrow> bool" where
  "orderly c ps \<longleftrightarrow> adds c ps \<subseteq> set (filter_rules c) \<and>
     (\<forall>a. May a \<in> set ps \<longrightarrow> take 6 a \<noteq> rule_head c) \<and>
     (\<forall>xs y ys. ps = xs @ y # ys \<and> argv_of y = flush_cmd c \<longrightarrow> set (filter_rules c) \<subseteq> adds c ys)"

lemma orderly_Cons:
  assumes "orderly c (p # ps)"
  shows "orderly c ps" and "take 6 (argv_of p) = rule_head c \<Longrightarrow> drop 6 (argv_of p) \<in> set (filter_rules c)"
    and "argv_of p = flush_cmd c \<Longrightarrow> set (filter_rules c) \<subseteq> adds c ps"
    and "p = May a \<Longrightarrow> take 6 a \<noteq> rule_head c"
proof -
  have "adds c ps \<subseteq> set (filter_rules c)" using assms by (auto simp: orderly_def adds_simps split: if_splits)
  moreover have "set (filter_rules c) \<subseteq> adds c ys" if "ps = xs @ y # ys" "argv_of y = flush_cmd c" for xs y ys
    using assms that unfolding orderly_def by (metis append_Cons)
  moreover have "take 6 a \<noteq> rule_head c" if "May a \<in> set ps" for a using assms that by (simp add: orderly_def)
  ultimately show "orderly c ps" unfolding orderly_def by blast
  show "p = May a \<Longrightarrow> take 6 a \<noteq> rule_head c" using assms by (simp add: orderly_def)
  show "take 6 (argv_of p) = rule_head c \<Longrightarrow> drop 6 (argv_of p) \<in> set (filter_rules c)"
    using assms by (auto simp: orderly_def adds_simps)
  show "argv_of p = flush_cmd c \<Longrightarrow> set (filter_rules c) \<subseteq> adds c ps"
    using assms unfolding orderly_def by (metis append_Nil)
qed

lemma adds_other: "list_all (other_chain c) (map argv_of ps) \<Longrightarrow> adds c ps = {}"
  by (auto simp: adds_def list_all_iff other_chain_def)

text \<open>The parts of a setup, with its filter commands in the middle.\<close>

definition filter_part :: "step list" where
  "filter_part = map May host_prepare @ map (\<lambda>r. Must (nft_words r)) hostRules"

lemma setup_parts:
  assumes "is_setup ps"
  obtains xs ys where "ps = xs @ filter_part @ ys"
    and "\<And>c. filter_chain c \<Longrightarrow> list_all (other_chain c) (map argv_of xs) \<and> list_all (other_chain c) (map argv_of ys)"
proof -
  obtain nc vhIP vgIP vethHost vethGuest netns ports where
    ps: "ps = setup_plan nc vhIP vgIP vethHost vethGuest netns ports"
    using assms unfolding is_setup_def by blast
  let ?xs = "[May [''ip'', ''netns'', ''del'', netns], May [''ip'', ''link'', ''del'', vethHost]] @
     map Must (host_commands vhIP vethHost vethGuest netns) @
     map Must (netns_commands nc vhIP vgIP vethGuest netns) @
     [May [''ip'', ''netns'', ''exec'', netns, ''nft'', ''add'', ''table'', ''ip'', ''knaller_box_nat'']] @
     map (\<lambda>ch. May ([''ip'', ''netns'', ''exec'', netns, ''nft''] @ words ch)) box_chains @
     map (\<lambda>r. Must ([''ip'', ''netns'', ''exec'', netns, ''nft''] @ words r)) (natRules nc vethGuest ports)"
  let ?ys = "map (\<lambda>r. Must (nft_words r)) (perBox nc vhIP vgIP vethHost ports)"
  show ?thesis
  proof
    show "ps = ?xs @ filter_part @ ?ys" by (simp add: ps setup_plan_def filter_part_def)
    show "list_all (other_chain c) (map argv_of ?xs) \<and> list_all (other_chain c) (map argv_of ?ys)"
      if "filter_chain c" for c
      using perBox_other [of c nc vhIP vgIP vethHost ports] that
      by (auto simp: list_all_iff filter_chain_def host_commands_def netns_commands_def comp_def)
  qed
qed

lemma orderly_Nil: "orderly c []"
  by (simp add: orderly_def adds_simps)

lemma orderly_append:
  assumes "adds c (ps @ qs) = set (filter_rules c)" and "set (filter_rules c) \<subseteq> adds c qs"
    and "\<And>y. y \<in> set qs \<Longrightarrow> argv_of y \<noteq> flush_cmd c"
    and "\<And>a. May a \<in> set (ps @ qs) \<Longrightarrow> take 6 a \<noteq> rule_head c"
  shows "orderly c (ps @ qs)"
  unfolding orderly_def
proof (intro conjI allI impI)
  fix xs y ys
  assume split: "ps @ qs = xs @ y # ys \<and> argv_of y = flush_cmd c"
  then have "y \<notin> set qs" using assms(3) by blast
  with split obtain zs where "ys = zs @ qs"
    by (auto simp: append_eq_append_conv2 append_eq_Cons_conv)
  then show "set (filter_rules c) \<subseteq> adds c ys" using assms(2) by (auto simp: adds_simps)
qed (use assms(1,4) in simp_all)

lemma first_rule: "\<exists>r rs. map (\<lambda>r. Must (nft_words r)) hostRules = Must r # rs"
  unfolding hostRules_def list.map by (intro exI, rule refl)

lemma rule_argvs:
  "map nft_words hostRules =
   map (\<lambda>r. rule_head ''forward'' @ r) (filter_rules ''forward'') @ map (\<lambda>r. rule_head ''input'' @ r) (filter_rules ''input'')"
  by (simp add: hostRules_def forward_rules input_rules rule_head_def)

lemma rule_head_simps:
  "take 6 (rule_head c @ r) = rule_head c" "drop 6 (rule_head c @ r) = r" "rule_head c @ r \<noteq> flush_cmd d"
  "rule_head c = rule_head d \<longleftrightarrow> c = d"
  by (auto simp: rule_head_def flush_cmd_def)

lemma chain_after_rules:
  "chain_after c rs (map ((@) (rule_head d)) xs) = (if d = c then rs @ xs else rs)"
proof (induction xs arbitrary: rs)
  case (Cons x xs)
  have "chain_step c rs (rule_head d @ x) = (if d = c then rs @ [x] else rs)"
    by (simp add: chain_step_def rule_head_simps del: take_append drop_append)
  with Cons show ?case by (simp add: chain_after_def)
qed (simp add: chain_after_def)

lemma filter_part_adds:
  assumes "filter_chain c"
  shows "adds c (map (\<lambda>r. Must (nft_words r)) hostRules) = set (filter_rules c)"
    and "adds c (map May host_prepare) = {}"
    and "list_all (\<lambda>y. argv_of y \<noteq> flush_cmd c) (map (\<lambda>r. Must (nft_words r)) hostRules)"
proof -
  have "{a \<in> (@) (rule_head ''forward'') ` F \<union> (@) (rule_head ''input'') ` I. take 6 a = rule_head c} =
      (@) (rule_head c) ` (if c = ''forward'' then F else if c = ''input'' then I else {})" for F I
    by (auto simp: rule_head_simps simp del: take_append)
  moreover have "argv_of ` set (map (\<lambda>r. Must (nft_words r)) hostRules) = set (map nft_words hostRules)"
    by (simp add: image_image)
  ultimately have "adds c (map (\<lambda>r. Must (nft_words r)) hostRules) =
      drop 6 ` (@) (rule_head c) ` set (filter_rules c)"
    using assms unfolding adds_def rule_argvs filter_chain_def by auto
  then show "adds c (map (\<lambda>r. Must (nft_words r)) hostRules) = set (filter_rules c)"
    by (simp add: image_image rule_head_simps del: drop_append)
  have "list_all (\<lambda>a. take 3 a \<noteq> [''nft'', ''add'', ''rule'']) host_prepare"
    by (simp add: host_prepare_def host_chains_def)
  note no_rule = this
  have "take 6 a \<noteq> rule_head c" if "a \<in> set host_prepare" for a
  proof (rule notI)
    assume "take 6 a = rule_head c"
    then have "take 3 (take 6 a) = take 3 (rule_head c)" by (rule arg_cong)
    then have "take 3 a = [''nft'', ''add'', ''rule'']" by (simp add: rule_head_def)
    with no_rule that show False by (simp add: list_all_iff)
  qed
  then show "adds c (map May host_prepare) = {}"
    by (auto simp: adds_def)
  have "list_all (\<lambda>a. a \<noteq> flush_cmd c) (map nft_words hostRules)"
    unfolding rule_argvs by (auto simp: list_all_iff rule_head_def flush_cmd_def)
  then show "list_all (\<lambda>y. argv_of y \<noteq> flush_cmd c) (map (\<lambda>r. Must (nft_words r)) hostRules)"
    by (simp add: list_all_iff)
qed

lemma rules_chain:
  "chain_after ''forward'' rs (map argv_of (map (\<lambda>r. Must (nft_words r)) hostRules)) = rs @ filter_rules ''forward''"
proof -
  have "chain_after ''forward'' rs (map nft_words hostRules) = rs @ filter_rules ''forward''"
    unfolding rule_argvs chain_after_append chain_after_rules by simp
  then show ?thesis by (simp add: comp_def)
qed

lemma setup_orderly:
  assumes "is_setup ps" and "filter_chain c"
  shows "orderly c ps" and "adds c ps = set (filter_rules c)"
proof -
  obtain xs ys where ps: "ps = xs @ filter_part @ ys"
    and other: "list_all (other_chain c) (map argv_of xs)" "list_all (other_chain c) (map argv_of ys)"
    using setup_parts [OF assms(1)] assms(2) by metis
  let ?rules = "map (\<lambda>r. Must (nft_words r)) hostRules"
  show all: "adds c ps = set (filter_rules c)"
    using other by (simp add: ps filter_part_def adds_simps(3) filter_part_adds [OF assms(2)] adds_other)
  have "orderly c ((xs @ map May host_prepare) @ ?rules @ ys)"
  proof (rule orderly_append)
    show "adds c ((xs @ map May host_prepare) @ ?rules @ ys) = set (filter_rules c)"
      using all by (simp add: ps filter_part_def)
    show "set (filter_rules c) \<subseteq> adds c (?rules @ ys)"
      by (simp add: adds_simps(3) filter_part_adds [OF assms(2)])
    show "argv_of y \<noteq> flush_cmd c" if "y \<in> set (?rules @ ys)" for y
      using that other(2) filter_part_adds(3) [OF assms(2)]
      by (auto simp: list_all_iff other_chain_def)
    show "take 6 a \<noteq> rule_head c" if "May a \<in> set ((xs @ map May host_prepare) @ ?rules @ ys)" for a
      using that other filter_part_adds(2) [OF assms(2)]
      by (fastforce simp: list_all_iff other_chain_def adds_def)
  qed
  then show "orderly c ps" by (simp add: ps filter_part_def)
qed

text \<open>The invariant: what is there and what one of the setups will still add is the whole filter.\<close>

fun todo :: "pending \<Rightarrow> step list" where
  "todo (Todo ps) = ps"
| "todo Failed = []"

lemma log_chain_step:
  "log_chain c (log @ [a]) =
   (if a = flush_cmd c then [] else if take 6 a = rule_head c then log_chain c log @ [drop 6 a] else log_chain c log)"
  by (simp add: chain_after_append) (simp add: chain_after_def chain_step_def)

lemma set_list_update: "i < length xs \<Longrightarrow> y \<in> set (xs[i := z]) \<Longrightarrow> y = z \<or> y \<in> set xs"
  using set_update_subset_insert [of xs i z] by blast

lemma set_list_update_keep:
  "i < length xs \<Longrightarrow> y \<in> set xs \<Longrightarrow> y \<noteq> xs ! i \<Longrightarrow> y \<in> set (xs[i := z])"
  by (metis in_set_conv_nth length_list_update nth_list_update_neq)

definition covered :: "string \<Rightarrow> pending list \<Rightarrow> string list list \<Rightarrow> bool" where
  "covered c ss rs \<longleftrightarrow>
     Failed \<in> set ss \<or> (\<exists>s \<in> set ss. set (filter_rules c) \<subseteq> set rs \<union> adds c (todo s))"

lemma covered_update:
  assumes "i < length ss" and "ss ! i = Todo (p # ps)" and "covered c ss rs"
    and "set rs \<subseteq> set rs'" and "set rs \<union> adds c (p # ps) \<subseteq> set rs' \<union> adds c ps"
  shows "covered c (ss[i := Todo ps]) rs'"
proof -
  have new: "Todo ps \<in> set (ss[i := Todo ps])" by (rule set_update_memI) (rule assms(1))
  from assms(3) consider "Failed \<in> set ss"
    | "set (filter_rules c) \<subseteq> set rs \<union> adds c (p # ps)"
    | s where "s \<in> set ss" "s \<noteq> ss ! i" "set (filter_rules c) \<subseteq> set rs \<union> adds c (todo s)"
    unfolding covered_def using assms(2) by fastforce
  then show ?thesis
  proof cases
    case 1
    then have "Failed \<in> set (ss[i := Todo ps])" using set_list_update_keep [OF assms(1)] assms(2) by force
    then show ?thesis by (simp add: covered_def)
  next
    case 2
    then have "set (filter_rules c) \<subseteq> set rs' \<union> adds c (todo (Todo ps))" using assms(5) by auto
    with new show ?thesis unfolding covered_def by blast
  next
    case (3 s)
    then have "s \<in> set (ss[i := Todo ps])" "set (filter_rules c) \<subseteq> set rs' \<union> adds c (todo s)"
      using set_list_update_keep [OF assms(1)] assms(4) by auto
    then show ?thesis unfolding covered_def by blast
  qed
qed

definition filter_kept :: "string \<Rightarrow> setups \<Rightarrow> bool" where
  "filter_kept c S = (case S of (ss, log) \<Rightarrow>
     (\<forall>s \<in> set ss. orderly c (todo s)) \<and> set (log_chain c log) \<subseteq> set (filter_rules c) \<and>
     covered c ss (log_chain c log))"

lemma filter_kept_step:
  assumes "setup_step S T" and "filter_kept c S"
  shows "filter_kept c T"
  using assms
proof (induction rule: setup_step.induct)
  case (takes_effect i ss p ps log)
  have o: "orderly c (p # ps)" and others: "\<forall>s \<in> set ss. orderly c (todo s)"
    using takes_effect nth_mem [OF takes_effect(1)] by (auto simp: filter_kept_def)
  have "covered c (ss[i := Todo ps]) (log_chain c (log @ [argv_of p]))"
  proof (cases "argv_of p = flush_cmd c")
    case True
    then have "set (filter_rules c) \<subseteq> adds c (todo (Todo ps))" using orderly_Cons(3) [OF o] by simp
    then show ?thesis using set_update_memI [OF takes_effect(1), of "Todo ps"] unfolding covered_def by blast
  next
    case False
    then have "set (log_chain c log) \<union> adds c (p # ps) \<subseteq> set (log_chain c (log @ [argv_of p])) \<union> adds c ps"
      "set (log_chain c log) \<subseteq> set (log_chain c (log @ [argv_of p]))"
      by (auto simp: log_chain_step adds_simps)
    moreover have "covered c ss (log_chain c log)" using takes_effect(3) by (simp add: filter_kept_def)
    ultimately show ?thesis using covered_update [OF takes_effect(1,2)] by blast
  qed
  moreover have "set (log_chain c (log @ [argv_of p])) \<subseteq> set (filter_rules c)"
    using takes_effect(3) orderly_Cons(2) [OF o] by (auto simp: log_chain_step filter_kept_def)
  moreover have "\<forall>s \<in> set (ss[i := Todo ps]). orderly c (todo s)"
    using set_list_update [OF takes_effect(1)] others orderly_Cons(1) [OF o] by fastforce
  ultimately show ?case unfolding filter_kept_def by simp
next
  case (ignored i ss a ps log)
  have o: "orderly c (May a # ps)" and others: "\<forall>s \<in> set ss. orderly c (todo s)"
    using ignored nth_mem [OF ignored(1)] by (auto simp: filter_kept_def)
  have "covered c (ss[i := Todo ps]) (log_chain c log)"
    by (rule covered_update [OF ignored(1,2)])
      (use ignored(3) orderly_Cons(4) [OF o refl] in \<open>auto simp: filter_kept_def adds_simps\<close>)
  moreover have "\<forall>s \<in> set (ss[i := Todo ps]). orderly c (todo s)"
    using set_list_update [OF ignored(1)] others orderly_Cons(1) [OF o] by fastforce
  ultimately show ?case using ignored(3) unfolding filter_kept_def by simp
next
  case (fails i ss a ps log)
  have "\<forall>s \<in> set (ss[i := Failed]). orderly c (todo s)"
    using set_list_update [OF fails(1)] fails(3) orderly_Nil [of c] unfolding filter_kept_def by fastforce
  then show ?case
    using fails(3) set_update_memI [OF fails(1), of Failed] unfolding filter_kept_def covered_def by simp
qed

lemma filter_kept_steps: "setup_steps S T \<Longrightarrow> filter_kept c S \<Longrightarrow> filter_kept c T"
  by (induction rule: rtranclp_induct) (auto intro: filter_kept_step)

text \<open>Setups that run at the same time, whatever the order of their commands, leave the whole filter
  when all of them succeed: its rules are those of one setup, though not always in their order.\<close>
lemma concurrent_setups_fill:
  assumes "filter_chain c" and "plans \<noteq> []" and "list_all is_setup plans"
    and "set (log_chain c log) \<subseteq> set (filter_rules c)"
    and "setup_steps (map Todo plans, log) (map (\<lambda>_. Todo []) plans, log')"
  shows "set (log_chain c log') = set (filter_rules c)"
proof -
  have "covered c (map Todo plans) (log_chain c log)"
    using assms(2,3) setup_orderly(2) [OF _ assms(1)]
    unfolding covered_def by (cases plans) auto
  then have "filter_kept c (map Todo plans, log)"
    using assms(3,4) setup_orderly(1) [OF _ assms(1)] by (auto simp: filter_kept_def list_all_iff)
  from filter_kept_steps [OF assms(5) this] show ?thesis
    by (auto simp: filter_kept_def covered_def adds_simps)
qed

section \<open>What the filter then decides\<close>

text \<open>A packet that no rule to accept matches is decided by the set of the rules alone.\<close>

lemma verdict_by_set:
  assumes "nft_laws V" and "\<And>r. r \<in> set rs \<Longrightarrow> rule_verdict r p \<in> {Some None, Some (Some Reject)}"
  shows "V rs p = (if \<exists>r \<in> set rs. rule_verdict r p = Some (Some Reject) then Reject else Accept)"
proof -
  have "first_match rs p = (if \<exists>r \<in> set rs. rule_verdict r p = Some (Some Reject) then Reject else Accept)"
    using assms(2)
  proof (induction rs)
    case (Cons r rs)
    have "rule_verdict r p = Some None \<or> rule_verdict r p = Some (Some Reject)" using Cons.prems [of r] by simp
    moreover have "first_match rs p = (if \<exists>r \<in> set rs. rule_verdict r p = Some (Some Reject) then Reject else Accept)"
      by (rule Cons.IH) (rule Cons.prems, simp)
    ultimately show ?case by (elim disjE) simp_all
  qed simp
  moreover have "list_all (\<lambda>r. rule_verdict r p \<noteq> None) rs" using assms(2) by (fastforce simp: list_all_iff)
  ultimately show ?thesis using nft_first_match [OF assms(1)] by simp
qed

lemma port_53: "atoi ''53'' = Some 53"
  by (simp add: atoi_def signed_digits_def digits_to_nat_def int64_range_def undec_def is_digit_def digit_val_def)

lemma filter_rule_verdicts:
  assumes "guest_packet p" and "\<not> dns_packet p" and "filter_chain c" and "r \<in> set (filter_rules c)"
  shows "rule_verdict r p \<in> {Some None, Some (Some Reject)}"
  using assms
  by (auto simp: filter_chain_def forward_rules input_rules guest_packet_def dns_packet_def blocks port_53 in_cidr_32
      split: if_splits)


section \<open>What the order can break\<close>

definition filter_start :: "step list" where
  "filter_start = map May host_prepare @ map (\<lambda>r. Must (nft_words r)) (take 3 hostRules)"

definition filter_rest :: "step list" where
  "filter_rest = map (\<lambda>r. Must (nft_words r)) (drop 3 hostRules)"

lemma filter_part_split: "filter_part = filter_start @ filter_rest"
  by (simp add: filter_part_def filter_start_def filter_rest_def flip: map_append)

text \<open>The rules for the DNS service address are the second and third, those that reject follow.\<close>

lemma filter_rest_forward:
  "log_chain ''forward'' (map argv_of filter_rest) = drop 3 (filter_rules ''forward'')"
proof -
  have "map argv_of filter_rest = drop 3 (map nft_words hostRules)"
    by (simp add: filter_rest_def comp_def drop_map)
  also have "\<dots> = map (\<lambda>r. rule_head ''forward'' @ r) (drop 3 (filter_rules ''forward'')) @
      map (\<lambda>r. rule_head ''input'' @ r) (filter_rules ''input'')"
    by (simp add: rule_argvs drop_map forward_rules)
  finally show ?thesis
    by (simp only: chain_after_append chain_after_rules) simp
qed

definition blocked :: "ipv4 \<Rightarrow> bool" where
  "blocked a \<longleftrightarrow>
     in_cidr a (IPv4 169 254 0 0) 16 \<or> in_cidr a (IPv4 10 0 0 0) 8 \<or> in_cidr a (IPv4 192 168 0 0) 16 \<or>
     in_cidr a (IPv4 100 64 0 0) 10 \<or> in_cidr a (IPv4 224 0 0 0) 4 \<or> in_cidr a (IPv4 172 20 0 0) 14"

text \<open>C24: Two setups that run at the same time and both succeed can leave the rules that reject in front of
  those that accept: then the guests of every VM lose the DNS service and the replies to
  connections from the blocked networks, until the next setup.\<close>
theorem concurrent_setups_reorder:
  assumes "nft_laws V" and "is_setup P" and "is_setup Q"
    and "in_cidr (saddr p) (IPv4 172 20 0 0) 14" and "blocked (daddr p)"
  shows "\<exists>log'. setup_steps ([Todo P, Todo Q], log) ([Todo [], Todo []], log') \<and>
    V (log_chain ''forward'' log') p = Reject"
proof -
  obtain xs ys where P: "P = xs @ filter_part @ ys"
    and P_other: "\<And>c. filter_chain c \<Longrightarrow> list_all (other_chain c) (map argv_of xs) \<and> list_all (other_chain c) (map argv_of ys)"
    using setup_parts [OF assms(2)] by blast
  obtain us vs where Q: "Q = us @ filter_part @ vs"
    and Q_other: "\<And>c. filter_chain c \<Longrightarrow> list_all (other_chain c) (map argv_of us) \<and> list_all (other_chain c) (map argv_of vs)"
    using setup_parts [OF assms(3)] by blast
  let ?rules = "map (\<lambda>r. Must (nft_words r)) hostRules"
  define log1 where "log1 = log @ map argv_of (xs @ filter_start)"
  define log2 where "log2 = log1 @ map argv_of (us @ map May host_prepare)"
  define log3 where "log3 = log2 @ map argv_of (filter_rest @ ys)"
  define log4 where "log4 = log3 @ map argv_of (?rules @ vs)"
  have 1: "setup_steps ([Todo P, Todo Q], log) ([Todo (filter_rest @ ys), Todo Q], log1)"
    using steps_part [of 0 "[Todo P, Todo Q]" "xs @ filter_start" "filter_rest @ ys" log]
    by (simp add: P filter_part_split log1_def)
  have 2: "setup_steps ([Todo (filter_rest @ ys), Todo Q], log1) ([Todo (filter_rest @ ys), Todo (?rules @ vs)], log2)"
    using steps_part [of 1 "[Todo (filter_rest @ ys), Todo Q]" "us @ map May host_prepare" "?rules @ vs" log1]
    by (simp add: Q filter_part_def log2_def)
  have 3: "setup_steps ([Todo (filter_rest @ ys), Todo (?rules @ vs)], log2) ([Todo [], Todo (?rules @ vs)], log3)"
    using steps_part [of 0 "[Todo (filter_rest @ ys), Todo (?rules @ vs)]" "filter_rest @ ys" "[]" log2]
    by (simp add: log3_def)
  have 4: "setup_steps ([Todo [], Todo (?rules @ vs)], log3) ([Todo [], Todo []], log4)"
    using steps_part [of 1 "[Todo [], Todo (?rules @ vs)]" "?rules @ vs" "[]" log3]
    by (simp add: log4_def)
  note steps = rtranclp_trans [OF rtranclp_trans [OF 1 2] rtranclp_trans [OF 3 4]]
  have fwd: "filter_chain ''forward''" by (simp add: filter_chain_def)
  have "log_chain ''forward'' log2 = []"
    using host_prepare_chain [of "''forward''"] by (simp add: log2_def chain_after_append comp_def)
  then have "log_chain ''forward'' log3 = drop 3 (filter_rules ''forward'')"
    using filter_rest_forward chain_after_other [of "''forward''" "map argv_of ys"] P_other [OF fwd]
    by (simp add: log3_def chain_after_append)
  then have chain: "log_chain ''forward'' log4 = drop 3 (filter_rules ''forward'') @ filter_rules ''forward''"
    using chain_after_other [of "''forward''" "map argv_of vs"] Q_other [OF fwd] rules_chain
    by (simp add: log4_def chain_after_append)
  have "list_all (\<lambda>r. rule_verdict r p \<noteq> None) (log_chain ''forward'' log4)"
    by (simp add: chain forward_rules)
  moreover have "first_match (log_chain ''forward'' log4) p = Reject"
    using assms(4,5) by (auto simp: chain forward_rules blocks blocked_def)
  ultimately have "V (log_chain ''forward'' log4) p = Reject" by (simp only: nft_first_match [OF assms(1)])
  with steps show ?thesis by blast
qed

text \<open>C9: A setup that fails at its first filter rule leaves the filter empty: the guests of the VMs that run
  already reach every address, those of the host and of its networks too. Every setup that succeeds
  passes the same point.\<close>
theorem failed_setup_opens_filter:
  assumes "nft_laws V" and "is_setup P" and "filter_chain c"
  shows "\<exists>log'. setup_steps ([Todo P], log) ([Failed], log') \<and> V (log_chain c log') p = Accept"
proof -
  obtain xs ys where P: "P = xs @ filter_part @ ys" using setup_parts [OF assms(2)] by blast
  obtain r rs where rules: "map (\<lambda>r. Must (nft_words r)) hostRules = Must r # rs"
    using first_rule by (elim exE)
  let ?log = "log @ map argv_of (xs @ map May host_prepare)"
  have "setup_steps ([Todo P], log) ([Todo (Must r # rs @ ys)], ?log)"
    using steps_part [of 0 "[Todo P]" "xs @ map May host_prepare" "Must r # rs @ ys" log]
    by (simp add: P filter_part_def rules)
  moreover have "setup_step ([Todo (Must r # rs @ ys)], ?log) ([Failed], ?log)"
    using fails [of 0 "[Todo (Must r # rs @ ys)]" r "rs @ ys" ?log] by simp
  moreover have "log_chain c ?log = []"
    using host_prepare_chain [of c] assms(3) by (simp add: chain_after_append comp_def filter_chain_def)
  moreover have "V [] p = Accept" using assms(1) by (simp add: nft_laws_def)
  ultimately show ?thesis by (intro exI [of _ ?log]) (simp add: rtranclp.rtrancl_into_rtrancl)
qed

section \<open>Two VMs started at the same time\<close>

definition web_setup :: "step list" where
  "web_setup = setup_plan (deriveNetwork ''web'') (vethHostIP ''web'') (vethGuestIP ''web'')
     ''vh-1'' ''vg-1'' ''kn-1'' [\<lparr>Host = 8080, Guest = 80\<rparr>]"

definition db_setup :: "step list" where
  "db_setup = setup_plan (deriveNetwork ''db'') (vethHostIP ''db'') (vethGuestIP ''db'') ''vh-2'' ''vg-2'' ''kn-2'' []"

lemma example_setups: "is_setup web_setup" "is_setup db_setup"
  unfolding is_setup_def web_setup_def db_setup_def by blast+

lemma one_after_the_other:
  "setup_steps (map Todo [P, Q], log) (map (\<lambda>_. Todo []) [P, Q], (log @ map argv_of P) @ map argv_of Q)"
proof -
  have 1: "setup_steps ([Todo P, Todo Q], log) ([Todo [], Todo Q], log @ map argv_of P)"
    using steps_part [of 0 "[Todo P, Todo Q]" P "[]" log] by simp
  have 2: "setup_steps ([Todo [], Todo Q], log @ map argv_of P) ([Todo [], Todo []], (log @ map argv_of P) @ map argv_of Q)"
    using steps_part [of 1 "[Todo [], Todo Q]" Q "[]" "log @ map argv_of P"] by simp
  show ?thesis using rtranclp_trans [OF 1 2] by simp
qed

lemma no_chain_yet: "log_chain c [] = []"
  by (simp add: chain_after_def)


definition dns_query :: packet where
  "dns_query = \<lparr> saddr = IPv4 172 20 3 2, daddr = IPv4 169 254 169 253, proto = ''udp'', dport = 53, tracked = False \<rparr>"

lemma concurrent_setups_reorder_witness:
  "dns_packet dns_query \<and>
   (\<exists>log'. setup_steps ([Todo web_setup, Todo db_setup], []) ([Todo [], Todo []], log') \<and>
      first_match (log_chain ''forward'' log') dns_query = Reject)"
  using concurrent_setups_reorder [OF first_match_laws example_setups, of dns_query "[]"]
  by (simp add: dns_query_def dns_packet_def blocked_def in_cidr_14 in_cidr_16)

lemma failed_setup_opens_filter_witness:
  "\<exists>log'. setup_steps ([Todo db_setup], map argv_of web_setup) ([Failed], log') \<and>
     first_match (log_chain ''forward'' log') (web_packet (IPv4 10 1 2 3)) = Accept"
  using failed_setup_opens_filter [OF first_match_laws example_setups(2)] by (simp add: filter_chain_def)

end
