(* ===== verification/Direct.thy ===== *)
theory Direct
  imports Vm Netns
begin

text \<open>
  Starting a VM without pasta (\<open>RunDirect\<close> of \<open>vm_direct.go\<close>): the caller's raw disk or a copy, the
  kernel namespace, the log file, the move out of the container's cgroup, and the same API calls
  with a cleanup of their own.
\<close>

definition EscapeContainerCgroup :: "env \<Rightarrow> int \<Rightarrow> string \<Rightarrow> unit go" where
  "EscapeContainerCgroup E pid cgslice =
     (if cgslice = [] then err (ErrMsg ''escape cgroup: slice name required'')
      else
        (let dir = Join [''/sys/fs/cgroup'', cgslice] in
         on_error (os_MkdirAll E dir) (\<lambda>e. err (Wrap (''mkdir '' @ dir @ '': '') e)) (\<lambda>_.
         os_WriteFile E (Join [dir, ''cgroup.procs'']) (itoa pid @ [CHR 0x0A]))))"

definition direct_disk :: "env \<Rightarrow> Config \<Rightarrow> Snapshot option \<Rightarrow> string go" where
  "direct_disk E cfg snap =
     (if RawDiskPath cfg \<noteq> [] then ok (RawDiskPath cfg)
      else
        (case snap of
           Some s \<Rightarrow> prepareDiskFromSnapshot E (Name cfg) (SnapshotID cfg)
         | None \<Rightarrow> prepareDisk E (Name cfg) (RootFS cfg) (RootFSSize cfg)))"

definition remove_own_disk :: "env \<Rightarrow> Config \<Rightarrow> unit prog" where
  "remove_own_disk E cfg =
     (if RawDiskPath cfg = [] then do { removeDisk E (Name cfg); ret () } else ret ())"

definition direct_netns :: "Config \<Rightarrow> string" where
  "direct_netns cfg = (if Netns cfg \<noteq> [] then Netns cfg else netnsName (Name cfg))"

definition direct_cleanup :: "env \<Rightarrow> Config \<Rightarrow> string \<Rightarrow> unit prog" where
  "direct_cleanup E cfg sock = do {
     teardownBoxNetns E (direct_netns cfg) (vethHostName (Name cfg));
     os_Remove E sock;
     remove_own_disk E cfg
   }"

definition direct_command :: "Config \<Rightarrow> string \<Rightarrow> string list" where
  "direct_command cfg sock =
     [''nsenter'', ''--net=/var/run/netns/'' @ direct_netns cfg, ''--'',
      FirecrackerBin cfg, ''--api-sock'', sock]"

text \<open>
  The log file is opened in any case; a detached process that has none writes to \<open>/dev/null\<close>.
\<close>

definition open_log :: "env \<Rightarrow> Config \<Rightarrow> unit prog" where
  "open_log E cfg = do {
     logFile \<leftarrow> os_CreateTrunc E (Join [vmDataDir E (Name cfg), ''firecracker.log'']);
     (if Detach cfg then
        (case logFile of
           Inr _ \<Rightarrow> ret ()
         | Inl _ \<Rightarrow> do { os_OpenWrite E ''/dev/null''; ret () })
      else ret ())
   }"

definition escape_cgroup :: "env \<Rightarrow> Config \<Rightarrow> nat \<Rightarrow> unit prog" where
  "escape_cgroup E cfg pid =
     (if EscapeCgroupSlice cfg \<noteq> [] then
        do { EscapeContainerCgroup E (int pid) (EscapeCgroupSlice cfg); ret () }
      else ret ())"

definition direct_boot ::
    "env \<Rightarrow> Config \<Rightarrow> networkConfig \<Rightarrow> unit prog \<Rightarrow> string \<Rightarrow> Client \<Rightarrow> unit go" where
  "direct_boot E cfg nc cleanup diskPath client = do {
     dns \<leftarrow> hostNameservers E;
     boot_calls E cleanup client (Kernel cfg) (direct_boot_args nc dns) (drive_of cfg diskPath)
       (nic_of E cfg nc) \<lparr> VcpuCount = vcpus_of E (CPUs cfg), MemSizeMib = Memory cfg, Smt = False \<rparr>
   }"

text \<open>\<open>RunDirect\<close> from the point where the namespace is set up.\<close>

definition direct_launch ::
    "env \<Rightarrow> Config \<Rightarrow> Snapshot option \<Rightarrow> string \<Rightarrow> string \<Rightarrow> VM go" where
  "direct_launch E cfg snap sock diskPath =
     (let nc = vm_network (Name cfg) snap; cleanup = direct_cleanup E cfg sock in do {
      open_log E cfg;
      guarded cleanup ''start firecracker'' (exec_start E (direct_command cfg sock) (Detach cfg)) (\<lambda>pid. do {
      escape_cgroup E cfg pid;
      let kill_cleanup = do { proc_Kill E pid; cleanup };
      guarded kill_cleanup ''waiting for firecracker socket'' (waitForSocket E sock 5000000000) (\<lambda>_.
      let client = NewClient sock in
      case snap of
        Some s \<Rightarrow>
          on_error (restore_calls E kill_cleanup client (snapshotDir E (SnapshotID cfg)) diskPath) err (\<lambda>_.
          started_vm E cfg sock pid (f_of_int (VCPUs s)) (snapshot_memory cfg s) (SSHPort nc)
            client diskPath)
      | None \<Rightarrow>
          on_error (direct_boot E cfg nc kill_cleanup diskPath client) err (\<lambda>_.
          started_vm E cfg sock pid (CPUs cfg) (Memory cfg) (SSHPort nc) client diskPath)) }) })"

text \<open>\<open>RunDirect\<close> with the defaults filled in.\<close>

definition direct_configured :: "env \<Rightarrow> Config \<Rightarrow> VM go" where
  "direct_configured E cfg =
     on_error (validate E cfg) (\<lambda>e. err (Wrap ''config: '' e)) (\<lambda>_.
     on_error (load_snapshot E cfg) err (\<lambda>snap.
     let cfg = with_snapshot_ports cfg snap; socketDir = socketDirectory E;
         sock = Join [socketDir, Name cfg @ ''.socket''] in
     on_error (os_MkdirAll E socketDir) (\<lambda>e. err (Wrap ''create socket dir: '' e)) (\<lambda>_. do {
     os_Remove E sock;
     on_error (direct_disk E cfg snap) (\<lambda>e. err (Wrap ''prepare disk: '' e)) (\<lambda>diskPath.
     guarded (remove_own_disk E cfg) ''setup netns''
       (setupBoxNetns E (vm_network (Name cfg) snap) (vethHostIP (Name cfg)) (vethGuestIP (Name cfg))
          (vethHostName (Name cfg)) (vethGuestName (Name cfg)) (direct_netns cfg) (Ports cfg)) (\<lambda>_.
     direct_launch E cfg snap sock diskPath)) })))"

definition RunDirect :: "env \<Rightarrow> Config \<Rightarrow> VM go" where
  "RunDirect E cfg = do { cfg \<leftarrow> setDefaults E cfg; direct_configured E cfg }"

section \<open>The calls of the namespace\<close>

abbreviation net_tools :: "string set" where
  "net_tools \<equiv> {''ip'', ''nft'', ''sysctl''}"

lemma setup_argvs_tools:
  "a \<in> set (map argv_of (setup_plan nc vh vg vethHost vethGuest netns ports)) \<Longrightarrow> hd a \<in> net_tools"
  by (auto simp: setup_plan_def host_commands_def netns_commands_def host_prepare_def)

lemma calls_setupBoxNetns:
  assumes "\<And>a. hd a \<in> net_tools \<Longrightarrow> P (Exec a)"
  shows "calls P (setupBoxNetns E nc vh vg vethHost vethGuest netns ports)"
  unfolding calls_def
proof
  fix w
  obtain k where "trace (snd (run_state (setupBoxNetns E nc vh vg vethHost vethGuest netns ports) w)) =
      trace w @ map Exec (take k (map argv_of (setup_plan nc vh vg vethHost vethGuest netns ports)))"
    using setup_commands_lemma [where E = E and nc = nc and vhIP = vh and vgIP = vg and vethHost = vethHost
      and vethGuest = vethGuest and netns = netns and ports = ports and w = w]
    by (auto split: prod.splits)
  moreover have "list_all P (map Exec (take k (map argv_of (setup_plan nc vh vg vethHost vethGuest netns ports))))"
    unfolding list_all_iff set_map
    by (intro ballI, elim imageE, hypsubst, rule assms, rule setup_argvs_tools, drule in_set_takeD, simp only: set_map)
  ultimately show "\<exists>es. trace (snd (run_state (setupBoxNetns E nc vh vg vethHost vethGuest netns ports) w)) =
      trace w @ es \<and> list_all P es" by blast
qed

lemma calls_teardown:
  assumes "\<And>a. hd a \<in> net_tools \<Longrightarrow> P (Exec a)"
  shows "calls P (teardownBoxNetns E netns vethHost)"
  unfolding teardownBoxNetns_def try_cmd_def by (intro extends_intros assms) simp_all

lemma calls_EscapeContainerCgroup [extends_intros]:
  "P (MkdirAll (Join [''/sys/fs/cgroup'', s])) \<Longrightarrow>
   (\<And>d. P (WriteFile (Join [Join [''/sys/fs/cgroup'', s], ''cgroup.procs'']) d)) \<Longrightarrow>
   calls P (EscapeContainerCgroup E pid s)"
  unfolding EscapeContainerCgroup_def Let_def by (intro extends_intros)

section \<open>The raw disk\<close>

text \<open>
  The calls that leave a raw disk alone: the files written are the VM's ports, its log and the cgroup's
  list of processes, the one file removed is the socket, and no disk tool is run.
\<close>

fun raw_safe :: "env \<Rightarrow> Config \<Rightarrow> event \<Rightarrow> bool" where
  "raw_safe E cfg (Truncate p n) = False"
| "raw_safe E cfg (RemoveAll p) = False"
| "raw_safe E cfg (WriteFile p d) =
     (p \<in> {ports_path E (Name cfg), Join [Join [''/sys/fs/cgroup'', EscapeCgroupSlice cfg], ''cgroup.procs'']})"
| "raw_safe E cfg (CreateTrunc p) = (p = Join [vmDataDir E (Name cfg), ''firecracker.log''])"
| "raw_safe E cfg (Remove p) = (p = socket_path E (Name cfg))"
| "raw_safe E cfg (Exec a) = (hd a \<in> net_tools \<or> a = [''resolvectl'', ''dns''])"
| "raw_safe E cfg _ = True"

lemma direct_snapshot_simps [simp]:
  "EscapeCgroupSlice (with_snapshot_ports cfg snap) = EscapeCgroupSlice cfg"
  "Detach (with_snapshot_ports cfg snap) = Detach cfg"
  "direct_netns (with_snapshot_ports cfg snap) = direct_netns cfg"
  "FirecrackerBin (with_snapshot_ports cfg snap) = FirecrackerBin cfg"
  by (simp_all add: with_snapshot_ports_def direct_netns_def split: option.splits)

lemma calls_boot_calls:
  assumes "calls P cleanup" and "\<And>s m p d. P (Http s m p d)"
  shows "calls P (boot_calls E cleanup client vmlinux args drive nic mc)"
    and "calls P (restore_calls E cleanup client snapDir disk)"
  unfolding boot_calls_def restore_calls_def guarded_def client_ops
  by (intro extends_intros assms)+

lemma raw_disk_kept:
  "RawDiskPath cfg \<noteq> [] \<Longrightarrow> remove_own_disk E cfg = ret ()"
  "RawDiskPath cfg \<noteq> [] \<Longrightarrow> direct_disk E cfg snap = ok (RawDiskPath cfg)"
  by (simp_all add: remove_own_disk_def direct_disk_def)

lemma calls_direct_cleanup:
  "RawDiskPath cfg \<noteq> [] \<Longrightarrow> calls (raw_safe E cfg) (direct_cleanup E cfg (socket_path E (Name cfg)))"
  unfolding direct_cleanup_def
  by (subst raw_disk_kept, assumption) (intro extends_intros calls_teardown; simp)

lemma calls_direct_launch:
  assumes "RawDiskPath cfg \<noteq> []"
  shows "calls (raw_safe E cfg) (direct_launch E cfg snap (socket_path E (Name cfg)) disk)"
proof -
  have kill: "calls (raw_safe E cfg) (do { proc_Kill E pid; direct_cleanup E cfg (socket_path E (Name cfg)) })" for pid
    by (intro extends_intros calls_direct_cleanup [OF assms]) simp
  show ?thesis
    unfolding direct_launch_def Let_def open_log_def escape_cgroup_def direct_boot_def guarded_def
    by (intro extends_intros calls_boot_calls kill calls_direct_cleanup [OF assms]) simp_all
qed

lemma calls_direct_configured:
  assumes "RawDiskPath cfg \<noteq> []"
  shows "calls (raw_safe E cfg) (direct_configured E cfg)"
proof -
  have launch: "calls (raw_safe E cfg)
      (direct_launch E (with_snapshot_ports cfg snap) snap (socket_path E (Name cfg)) disk)" for snap disk
  proof (rule calls_mono)
    show "calls (raw_safe E (with_snapshot_ports cfg snap))
        (direct_launch E (with_snapshot_ports cfg snap) snap (socket_path E (Name cfg)) disk)"
      using calls_direct_launch [of "with_snapshot_ports cfg snap" E snap disk] assms by simp
    show "raw_safe E cfg ev" if "raw_safe E (with_snapshot_ports cfg snap) ev" for ev
      using that by (cases ev) simp_all
  qed
  have raw: "RawDiskPath (with_snapshot_ports cfg snap) \<noteq> []" for snap using assms by simp
  show ?thesis
    unfolding direct_configured_def Let_def guarded_def raw_disk_kept [OF raw]
      socket_path_def [symmetric] snapshot_ports_simps
    by (intro extends_intros calls_setupBoxNetns launch) simp_all
qed

text \<open>C10: With a raw disk given, a direct start (failed or not) never removes, truncates, copies or
  checks a disk: it writes only the VM's ports, its log and the cgroup's list of processes.\<close>
theorem raw_disk_untouched:
  assumes "RawDiskPath cfg \<noteq> []"
  shows "case run_state (RunDirect E cfg) w of
    (r, w') \<Rightarrow> \<exists>es. trace w' = trace w @ es \<and>
      list_all (raw_safe E (fst (run_state (setDefaults E cfg) w))) es"
proof -
  obtain d v where d: "run_state (setDefaults E cfg) w = (d, v)" by fastforce
  have "RawDiskPath d \<noteq> []"
    using d assms by (auto simp: setDefaults_def run_simps split: prod.splits if_splits)
  then have c: "calls (raw_safe E d) (direct_configured E d)" by (rule calls_direct_configured)
  obtain es where es: "trace v = trace w @ es" "list_all (raw_safe E d) es"
  proof (rule callsE [OF _ d])
    show "calls (raw_safe E d) (setDefaults E cfg)" by (intro extends_intros) simp
  qed
  obtain r w' where r: "run_state (direct_configured E d) v = (r, w')" by fastforce
  obtain fs where "trace w' = trace v @ fs" "list_all (raw_safe E d) fs" using callsE [OF c r] .
  with es r d show ?thesis by (auto simp: RunDirect_def run_monad)
qed

definition raw_config :: Config where
  "raw_config = zero_Config\<lparr>Name := ''vm'', Kernel := ''/vmlinux'', RawDiskPath := ''/dev/nbd0''\<rparr>"

lemma raw_disk_untouched_witness:
  "case run_state (RunDirect calm_env raw_config) empty_world of
    (r, w') \<Rightarrow> list_all (raw_safe calm_env (fst (run_state (setDefaults calm_env raw_config) empty_world))) (trace w')"
  using raw_disk_untouched [where E = calm_env and cfg = raw_config and w = empty_world]
  by (auto simp: raw_config_def)

section \<open>The requests of a direct start\<close>

definition direct_disk_path :: "env \<Rightarrow> Config \<Rightarrow> string" where
  "direct_disk_path E cfg = (if RawDiskPath cfg = [] then rootfs_path E (Name cfg) else RawDiskPath cfg)"

lemma direct_prepared:
  "run_state (direct_disk E (with_snapshot_ports cfg s) snap) w = (Inr p, w') \<Longrightarrow> p = direct_disk_path E cfg"
  by (auto simp: direct_disk_def direct_disk_path_def run_monad dest: prepared_path split: if_splits option.splits)

lemma no_request_net: "\<And>a. hd a \<in> net_tools \<Longrightarrow> no_request (Exec a)"
  by simp

lemma calls_direct [extends_intros]:
  "calls no_request (remove_own_disk E cfg)"
  "calls no_request (direct_cleanup E cfg sock)"
  "calls no_request (open_log E cfg)"
  "calls no_request (escape_cgroup E cfg pid)"
  "calls no_request (direct_disk E cfg snap)"
  "calls no_request (setupBoxNetns E nc vh vg vethHost vethGuest netns ports)"
  unfolding remove_own_disk_def direct_cleanup_def open_log_def escape_cgroup_def direct_disk_def
  by (intro extends_intros no_request_simps calls_teardown calls_setupBoxNetns)+

lemma direct_boot_requests:
  assumes "calls no_request cleanup"
  shows "ensures (\<lambda>w. requests w = xs) (direct_boot E cfg nc cleanup disk (NewClient sock))
    (\<lambda>r w. \<exists>dns. asked xs (boot_requests sock (Kernel cfg) (direct_boot_args nc dns) (drive_of cfg disk)
       (nic_of E cfg nc) \<lparr> VcpuCount = vcpus_of E (CPUs cfg), MemSizeMib = Memory cfg, Smt = False \<rparr>) r w)"
  unfolding direct_boot_def
  by (rule same_bind, intro extends_intros no_request_simps)
    (rule ensures_post [OF boot_calls_requests], use assms in auto)

lemma direct_launch_requests:
  assumes "snap = None \<longleftrightarrow> SnapshotID cfg = []" and "sock = socket_path E (Name cfg)"
  shows "ensures (\<lambda>w. requests w = xs) (direct_launch E cfg snap sock disk)
    (\<lambda>r w. \<exists>dns. asked xs (start_requests E cfg (direct_boot_args (deriveNetwork (Name cfg)) dns) disk) r w)"
proof -
  let ?Q = "\<lambda>r w. \<exists>dns. asked xs (start_requests E cfg (direct_boot_args (deriveNetwork (Name cfg)) dns) disk) r w"
  let ?kill = "\<lambda>pid. do { proc_Kill E pid; direct_cleanup E cfg sock }"
  have clean: "calls no_request (?kill pid)" for pid by (intro extends_intros no_request_simps)
  have last: "calls no_request (started_vm E cfg sock pid c m p (NewClient sock) disk)" for pid c m p
    by (intro extends_intros no_request_simps)
  have boot: "ensures (\<lambda>w. requests w = xs) (on_error (direct_boot E cfg (vm_network (Name cfg) None)
      (?kill pid) disk (NewClient sock)) err
      (\<lambda>_. started_vm E cfg sock pid c m p (NewClient sock) disk)) ?Q" if "snap = None" for pid c m p
    using direct_boot_requests [OF clean [of pid], of xs E cfg "deriveNetwork (Name cfg)" disk sock] assms that
    by (intro asked_exists_on_error last) (simp add: start_requests_def vm_network_def)
  have restore: "ensures (\<lambda>w. requests w = xs) (on_error (restore_calls E (?kill pid)
      (NewClient sock) (snapshotDir E (SnapshotID cfg)) disk) err
      (\<lambda>_. started_vm E cfg sock pid c m p (NewClient sock) disk)) ?Q" if "snap = Some s" for s pid c m p
    using restore_calls_requests [OF clean [of pid], of xs E "NewClient sock" "snapshotDir E (SnapshotID cfg)" disk]
      assms that
    by (intro asked_exists_on_error last) (simp add: start_requests_def)
  show ?thesis
    unfolding direct_launch_def Let_def
    by (intro same_bind same_guarded clean extends_intros no_request_simps)
      (auto intro: asked_none boot restore split: option.split)
qed

lemma direct_configured_requests:
  "ensures (\<lambda>w. requests w = xs) (direct_configured E cfg)
    (\<lambda>r w. \<exists>dns. asked xs (start_requests E cfg (direct_boot_args (deriveNetwork (Name cfg)) dns)
                            (direct_disk_path E cfg)) r w)"
proof -
  let ?Q = "\<lambda>r w. \<exists>dns. asked xs (start_requests E cfg (direct_boot_args (deriveNetwork (Name cfg)) dns)
      (direct_disk_path E cfg)) r w"
  have launch: "ensures (\<lambda>w. requests w = xs)
      (direct_launch E (with_snapshot_ports cfg snap) snap (socket_path E (Name cfg)) (direct_disk_path E cfg)) ?Q"
    if "snap = None \<longleftrightarrow> SnapshotID cfg = []" for snap
    using direct_launch_requests [of snap "with_snapshot_ports cfg snap" "socket_path E (Name cfg)" E xs] that by simp
  show ?thesis
    unfolding direct_configured_def Let_def socket_path_def [symmetric]
    apply (rule same_on_error, intro extends_intros no_request_simps, rule same_err, blast intro: asked_none)
    apply (rule same_on_error_known, intro extends_intros no_request_simps, rule same_err,
        blast intro: asked_none, erule load_snapshot_some)
    apply (rule same_on_error, intro extends_intros no_request_simps, rule same_err, blast intro: asked_none)
    apply (rule same_bind, intro extends_intros no_request_simps)
    apply (rule same_on_error_known [where R = "\<lambda>p. p = direct_disk_path E cfg"], intro extends_intros,
        rule same_err, blast intro: asked_none, erule direct_prepared)
    apply (rule same_guarded, intro extends_intros, intro extends_intros, blast intro: asked_none)
    apply (simp add: launch)
    done
qed

text \<open>A direct start makes the same requests in the same order as one under pasta, with its own kernel
  command line, and with the raw disk in the place of the VM's copy when one is given.\<close>
theorem direct_requests:
  "case run_state (RunDirect E cfg) w of
     (r, w') \<Rightarrow>
       (\<exists>dns. let d = fst (run_state (setDefaults E cfg) w) in
          asked (requests w)
            (start_requests E d (direct_boot_args (deriveNetwork (Name d)) dns) (direct_disk_path E d)) r w')"
proof -
  obtain d v where d: "run_state (setDefaults E cfg) w = (d, v)" by fastforce
  have "requests v = requests w"
    by (rule requests_same [OF _ d]) (intro extends_intros no_request_simps)
  then show ?thesis
    using d asked_requests [OF direct_configured_requests [of "requests w" E d]]
    by (auto simp: RunDirect_def run_monad split: prod.splits)
qed

section \<open>What a failed direct start leaves\<close>

definition teardown_log :: "env \<Rightarrow> Config \<Rightarrow> event list" where
  "teardown_log E cfg =
     [Exec [''ip'', ''netns'', ''del'', direct_netns cfg], Exec [''ip'', ''link'', ''del'', vethHostName (Name cfg)],
      Remove (socket_path E (Name cfg))]"

definition own_disk_log :: "env \<Rightarrow> Config \<Rightarrow> event list" where
  "own_disk_log E cfg = (if RawDiskPath cfg = [] then [RemoveAll (vmDataDir E (Name cfg))] else [])"

text \<open>The last calls of a failed direct start, by the step that failed.\<close>

definition direct_failed :: "env \<Rightarrow> Config \<Rightarrow> err \<Rightarrow> world \<Rightarrow> bool" where
  "direct_failed E cfg e w =
     (case e of
        Wrap what _ \<Rightarrow>
          if what \<in> started_failures then
            \<exists>pre pid. trace w = pre @ [KillChild pid] @ teardown_log E cfg @ own_disk_log E cfg
          else if what = ''start firecracker: '' then
            \<exists>pre. trace w = pre @ teardown_log E cfg @ own_disk_log E cfg
          else if what = ''setup netns: '' then
            \<exists>pre a. trace w = pre @ [Exec a] @ own_disk_log E cfg \<and> hd a \<in> net_tools
          else True
      | _ \<Rightarrow> True)"

lemma logs_own_disk: "logs (own_disk_log E cfg) (remove_own_disk E cfg)"
  unfolding own_disk_log_def remove_own_disk_def removeDisk_def
  by (auto intro!: logs_then logs_intros)

lemma logs_direct_cleanup:
  "logs (teardown_log E cfg @ own_disk_log E cfg) (direct_cleanup E cfg (socket_path E (Name cfg)))"
proof -
  have t: "logs [Exec [''ip'', ''netns'', ''del'', n], Exec [''ip'', ''link'', ''del'', v]] (teardownBoxNetns E n v)" for n v
    unfolding teardownBoxNetns_def try_cmd_def
    by (rule logs_then, rule logs_then, rule logs_intros, rule logs_intros, simp)
      (rule logs_then, rule logs_then, rule logs_intros, rule logs_intros, simp, rule logs_intros, simp, simp)
  show ?thesis
    unfolding direct_cleanup_def teardown_log_def
    by (rule logs_then [OF t], rule logs_then [OF logs_calls(4)], rule logs_own_disk, simp, simp)
qed

lemma direct_launch_failed:
  "fails (direct_failed E cfg) (direct_launch E cfg snap (socket_path E (Name cfg)) disk)"
proof -
  have kill: "logs ([KillChild pid] @ teardown_log E cfg @ own_disk_log E cfg)
      (do { proc_Kill E pid; direct_cleanup E cfg (socket_path E (Name cfg)) })" for pid
    by (rule logs_then [OF logs_calls(2)], rule logs_direct_cleanup) simp
  have late: "direct_failed E cfg (Wrap what e) w"
    if "trace w = pre @ [KillChild pid] @ teardown_log E cfg @ own_disk_log E cfg" "what \<in> started_failures"
    for e w pre pid what
    using that by (auto simp: direct_failed_def)
  have early: "direct_failed E cfg (Wrap (''start firecracker'' @ '': '') e) w"
    if "trace w = pre @ teardown_log E cfg @ own_disk_log E cfg" for e w pre
    using that by (auto simp: direct_failed_def started_failures_def)
  show ?thesis
    unfolding direct_launch_def Let_def direct_boot_def
    by (intro fails_guarded [OF kill] fails_guarded [OF logs_direct_cleanup] fails_option fails_through
        fails_bind fails_started_vm fails_boot_calls [OF kill])
      (erule early late; simp add: started_failures_def)+
qed

lemma direct_logs_ports [simp]:
  "own_disk_log E (with_snapshot_ports cfg snap) = own_disk_log E cfg"
  "teardown_log E (with_snapshot_ports cfg snap) = teardown_log E cfg"
  by (simp_all add: teardown_log_def own_disk_log_def)

lemma direct_failed_ports [simp]:
  "direct_failed E (with_snapshot_ports cfg snap) = direct_failed E cfg"
  unfolding direct_failed_def direct_logs_ports ..

text \<open>A guarded step of whose failures something is known.\<close>

lemma fails_guarded_known:
  assumes "\<And>w e v. run_state m w = (Inl e, v) \<Longrightarrow> R (trace v)" and "logs es c"
    and "\<And>t e w. R t \<Longrightarrow> trace w = t @ es \<Longrightarrow> Q (Wrap (what @ '': '') e) w" and "\<And>a. fails Q (k a)"
  shows "fails Q (guarded c what m k)"
  unfolding guarded_def fails_def
proof (rule ensures_on_error [where R = "\<lambda>r w. case r of Inl _ \<Rightarrow> R (trace w) | Inr _ \<Rightarrow> True"])
  show "ensures (\<lambda>_. True) m (\<lambda>r w. case r of Inl _ \<Rightarrow> R (trace w) | Inr _ \<Rightarrow> True)"
    using assms(1) by (auto intro!: ensuresI split: sum.splits)
  fix e
  show "ensures (\<lambda>w. case Inl e of Inl _ \<Rightarrow> R (trace w) | Inr _ \<Rightarrow> True)
      (do { c; err (Wrap (what @ '': '') e) }) (\<lambda>r w. case r of Inl e \<Rightarrow> Q e w | Inr _ \<Rightarrow> True)"
    by (rule ensures_bind [where R = "\<lambda>_ w. \<exists>t. R t \<and> trace w = t @ es"])
      (use assms(3) logsD [OF assms(2)] in \<open>auto intro!: ensuresI ensures_return\<close>)
qed (use assms(4) in \<open>auto simp: fails_def intro: ensures_pre\<close>)

lemma grows_bind:
  assumes "logs [ev] m" and "\<And>a. calls P (k a)" and "run_state (State_Monad.bind m k) w = (r, w')"
  shows "trace w' \<noteq> trace w"
proof -
  obtain a v where v: "run_state m w = (a, v)" by fastforce
  then have "run_state (k a) v = (r, w')" using assms(3) by (simp add: run_monad)
  then obtain es where "trace w' = trace v @ es" using callsE [OF assms(2)] by metis
  then show ?thesis using logsD [OF assms(1) v] by simp
qed

lemma setup_last:
  assumes "run_state (setupBoxNetns E nc vh vg vethHost vethGuest netns ports) w = (r, w')"
  shows "\<exists>pre a. trace w' = pre @ [Exec a] \<and> hd a \<in> net_tools"
proof -
  have c: "calls (\<lambda>ev. \<exists>a. ev = Exec a \<and> hd a \<in> net_tools) (setupBoxNetns E nc vh vg vethHost vethGuest netns ports)"
    by (rule calls_setupBoxNetns) blast
  have l: "logs [Exec [''ip'', ''netns'', ''del'', netns]] (try_cmd E [''ip'', ''netns'', ''del'', netns])"
    unfolding try_cmd_def by (rule logs_then [OF logs_calls(1)], rule logs_intros) simp
  have "trace w' \<noteq> trace w"
    by (rule grows_bind [OF l _ assms [unfolded setupBoxNetns_def], where P = "\<lambda>_. True"])
      (unfold try_cmd_def run_cmd_def netns_nft_def nft_rule_def, intro extends_intros TrueI)
  from calls_some_last [OF c assms this] show ?thesis by blast
qed

lemma direct_configured_failed: "fails (direct_failed E cfg) (direct_configured E cfg)"
proof -
  have snap: "fails (direct_failed E cfg) (load_snapshot E cfg)"
    by (rule fails_weaken [OF load_snapshot_errors])
      (auto simp: direct_failed_def started_failures_def split: err.splits)
  have launch: "fails (direct_failed E cfg)
      (direct_launch E (with_snapshot_ports cfg snap) snap (socket_path E (Name cfg)) disk)" for snap disk
    using direct_launch_failed [of E "with_snapshot_ports cfg snap" snap disk] by simp
  have own: "logs (own_disk_log E cfg) (remove_own_disk E (with_snapshot_ports cfg snap))" for snap
    using logs_own_disk [of E "with_snapshot_ports cfg snap"] by simp
  show ?thesis
    unfolding direct_configured_def Let_def socket_path_def [symmetric] snapshot_ports_simps
    apply (rule fails_wrapped [OF fails_any], simp add: direct_failed_def started_failures_def)
    apply (rule fails_through [OF snap])
    apply (rule fails_wrapped [OF fails_any], simp add: direct_failed_def started_failures_def)
    apply (rule fails_bind, rule fails_wrapped [OF fails_any])
     apply (simp add: direct_failed_def started_failures_def)
    apply (rule fails_guarded_known [where R = "\<lambda>t. \<exists>pre a. t = pre @ [Exec a] \<and> hd a \<in> net_tools", OF setup_last own],
        assumption)
     apply (auto simp: direct_failed_def started_failures_def) [1]
    apply (rule launch)
    done
qed

text \<open>C31: A direct start that fails once its process runs kills it, tears the namespace down and removes
  the socket, and the VM's directory unless the caller brought the disk; it never waits for the
  process it has killed. When the namespace cannot be set up it is left half made: after the last
  command of the setup only the directory is removed.\<close>
theorem direct_failures:
  "case run_state (RunDirect E cfg) w of
     (Inl e, w') \<Rightarrow> direct_failed E (fst (run_state (setDefaults E cfg) w)) e w'
   | (Inr _, _) \<Rightarrow> True"
proof -
  obtain d v where d: "run_state (setDefaults E cfg) w = (d, v)" by fastforce
  then show ?thesis
    using failsD [OF direct_configured_failed [of E d]]
    by (auto simp: RunDirect_def run_monad split: prod.splits sum.splits)
qed

section \<open>Exported identities\<close>

text \<open>What a supervisor that adopts a VM derives from its name.\<close>

definition NetnsName :: "string \<Rightarrow> string" where "NetnsName name = netnsName name"
definition VethHostName :: "string \<Rightarrow> string" where "VethHostName name = vethHostName name"
definition VethGuestName :: "string \<Rightarrow> string" where "VethGuestName name = vethGuestName name"
definition exported_SSHPort :: "string \<Rightarrow> int" where "exported_SSHPort name = sshPort name"
definition VethHostIP :: "string \<Rightarrow> ipv4" where "VethHostIP name = vethHostIP name"
definition VethGuestIP :: "string \<Rightarrow> ipv4" where "VethGuestIP name = vethGuestIP name"
definition TAPDeviceName :: "string \<Rightarrow> string" where "TAPDeviceName name = tapDevName name"
definition exported_GuestIP :: "string \<Rightarrow> ipv4" where "exported_GuestIP name = GuestIP (deriveNetwork name)"
definition exported_GuestMAC :: "string \<Rightarrow> string" where "exported_GuestMAC name = guestMAC name"

definition TeardownBoxNetns :: "env \<Rightarrow> string \<Rightarrow> string \<Rightarrow> unit go" where
  "TeardownBoxNetns E netns vethHost = teardownBoxNetns E netns vethHost"

text \<open>
  They are those a fresh VM runs with. A VM restored from a snapshot has the TAP device, guest address
  and MAC address of the VM the snapshot was taken of, which its own name does not give.
\<close>

lemma exported_identities:
  "SSHPort (vm_network name snap) = exported_SSHPort name"
  "TAPDevice (vm_network name snap) = TAPDeviceName (case snap of None \<Rightarrow> name | Some s \<Rightarrow> VMName s)"
  "GuestIP (vm_network name snap) = exported_GuestIP (case snap of None \<Rightarrow> name | Some s \<Rightarrow> VMName s)"
  "GuestMAC (vm_network name snap) = exported_GuestMAC (case snap of None \<Rightarrow> name | Some s \<Rightarrow> VMName s)"
  by (auto simp: vm_network_def Let_def deriveNetwork_def exported_SSHPort_def TAPDeviceName_def
      exported_GuestIP_def exported_GuestMAC_def split: option.split)

end
