(* ===== verification/Lifecycle.thy ===== *)
theory Lifecycle
  imports Vm "HOL-Library.AList" "HOL-Library.Multiset"
begin

text \<open>
  What can be done with a VM once it runs, from the program that started it or from another
  (\<open>vm.go\<close>): waiting for it, killing, adopting, stopping, pausing and removing it, and the list of
  all VMs. The two-second limit of a request is the server's failure to answer it.
\<close>

section \<open>A VM in hand\<close>

text \<open>
  Waiting for an adopted VM looks every 100 ms whether the process can still be signalled; the loop
  may run forever, so its value is \<open>None\<close> when it does.
\<close>

partial_function (option) wait_gone :: "env \<Rightarrow> int \<Rightarrow> world \<Rightarrow> world option" where
  "wait_gone E pid w =
     (case run_state (syscall_Kill E pid Sig0) w of (r, w1) \<Rightarrow>
        if isl r then Some w1 else wait_gone E pid (snd (run_state (time_Sleep E 100000000) w1)))"

definition vm_Wait :: "env \<Rightarrow> VM \<Rightarrow> world \<Rightarrow> ((err + unit) \<times> world) option" where
  "vm_Wait E vm w =
     (case vm_cmd vm of
        Some pid \<Rightarrow> Some (run_state (cmd_Wait E pid) w)
      | None \<Rightarrow>
          if vm_PID vm \<le> 0 then Some (Inr (), w)
          else map_option (\<lambda>w. (Inr (), w)) (wait_gone E (vm_PID vm) w))"

definition vm_Kill :: "env \<Rightarrow> VM \<Rightarrow> unit go" where
  "vm_Kill E vm =
     (case vm_cmd vm of
        Some pid \<Rightarrow> proc_Kill E pid
      | None \<Rightarrow>
          if vm_PID vm \<le> 0 then ok ()
          else on_error (syscall_Kill E (vm_PID vm) SIGKILL)
                 (\<lambda>e. if e \<noteq> ESRCH then err e else ok ()) (\<lambda>_. ok ()))"

definition AdoptVM :: "env \<Rightarrow> string \<Rightarrow> string \<Rightarrow> int \<Rightarrow> VM go" where
  "AdoptVM E name sock pid =
     (if pid \<le> 0 then err (ErrMsg (''adopt '' @ name @ '': invalid pid '' @ itoa pid))
      else
        on_error (syscall_Kill E pid Sig0)
          (\<lambda>e. err (Wrap (''adopt '' @ name @ '': pid '' @ itoa pid @ '' not alive: '') e)) (\<lambda>_.
        on_error (os_Stat E sock)
          (\<lambda>e. err (Wrap (''adopt '' @ name @ '': socket '' @ sock @ '': '') e)) (\<lambda>_.
        let client = NewClient sock in
        on_error (GetInfo E client) (\<lambda>e. err (Wrap (''adopt '' @ name @ '': GetInfo: '') e)) (\<lambda>_. do {
        now \<leftarrow> time_Now E;
        ok \<lparr> vm_Name = name, vm_PID = pid, vm_SocketPath = sock, vm_StartedAt = instant now,
             vm_Status = ''Running'', vm_CPUs = Fin 0 0, vm_Memory = 0, vm_Port = sshPort name,
             vm_cmd = None, vm_client = Some client, vm_diskPath = [] \<rparr> }))))"

definition WaitForSSH :: "env \<Rightarrow> VM \<Rightarrow> int \<Rightarrow> unit go" where
  "WaitForSSH E vm timeout = wait_for_port E (vm_Port vm) timeout"

text \<open>A listed VM that is stopped has no client: using it is a nil dereference, which panics.\<close>

definition nil_dereference :: err where
  "nil_dereference = ErrMsg ''runtime error: invalid memory address or nil pointer dereference''"

definition vm_Stop :: "env \<Rightarrow> VM \<Rightarrow> unit go" where
  "vm_Stop E vm =
     (case vm_client vm of None \<Rightarrow> err nil_dereference | Some c \<Rightarrow> StopInstance E c)"

definition vm_Cleanup :: "env \<Rightarrow> VM \<Rightarrow> unit go" where
  "vm_Cleanup E vm = do {
     r \<leftarrow> os_Remove E (vm_SocketPath vm);
     let errs = (case r of Inl e \<Rightarrow> if e \<noteq> ENOENT then [Wrap ''remove socket: '' e] else [] | Inr _ \<Rightarrow> []);
     r \<leftarrow> removeDisk E (vm_Name vm);
     let errs = errs @ (case r of Inl e \<Rightarrow> [Wrap ''remove disk: '' e] | Inr _ \<Rightarrow> []);
     (if errs = [] then ok () else err (Joined errs))
   }"

section \<open>A VM by its name\<close>

definition RemoveVM :: "env \<Rightarrow> string \<Rightarrow> unit go" where
  "RemoveVM E name =
     (let sock = Join [socketDirectory E, name @ ''.socket''] in do {
      r \<leftarrow> GetInfo E (NewClient sock);
      (case r of
         Inr _ \<Rightarrow> err (ErrMsg (''VM '' @ quote name @ '' is still running, stop it first''))
       | Inl _ \<Rightarrow>
           on_error (os_Stat E (vmDataDir E name))
             (\<lambda>_. err (ErrMsg (''VM '' @ quote name @ '' not found''))) (\<lambda>_. do {
           os_Remove E sock;
           removeDisk E name }))
     })"

definition StopVM :: "env \<Rightarrow> string \<Rightarrow> unit go" where
  "StopVM E name =
     (let sock = Join [socketDirectory E, name @ ''.socket''] in
      on_error (os_Stat E sock) (\<lambda>_. err (not_found name sock)) (\<lambda>_. StopInstance E (NewClient sock)))"

definition PauseVM :: "env \<Rightarrow> string \<Rightarrow> unit go" where
  "PauseVM E name =
     (let sock = Join [socketDirectory E, name @ ''.socket''] in
      on_error (os_Stat E sock) (\<lambda>_. err (not_found name sock)) (\<lambda>_. client_PauseVM E (NewClient sock)))"

definition ResumeVM :: "env \<Rightarrow> string \<Rightarrow> unit go" where
  "ResumeVM E name =
     (let sock = Join [socketDirectory E, name @ ''.socket''] in
      on_error (os_Stat E sock) (\<lambda>_. err (not_found name sock)) (\<lambda>_. client_ResumeVM E (NewClient sock)))"

section \<open>The process behind a socket\<close>

text \<open>The number a directory of \<open>/proc\<close> is named by, as a 64-bit integer; -1 when it is not one.\<close>

fun pid_digits :: "string \<Rightarrow> int \<Rightarrow> int" where
  "pid_digits [] pid = pid"
| "pid_digits (c # cs) pid =
     (if is_digit c then pid_digits cs ((pid * 10 + int (digit_val c) + 2 ^ 63) mod 2 ^ 64 - 2 ^ 63)
      else - 1)"

fun scan_proc :: "env \<Rightarrow> string \<Rightarrow> (string \<times> bool) list \<Rightarrow> int prog" where
  "scan_proc E sock [] = ret 0"
| "scan_proc E sock ((name, is_dir) # entries) =
     (if \<not> is_dir \<or> pid_digits name 0 \<le> 0 then scan_proc E sock entries
      else
        on_error (os_ReadFile E (Join [''/proc'', name, ''cmdline''])) (\<lambda>_. scan_proc E sock entries) (\<lambda>cmdline.
        if contains cmdline sock then ret (pid_digits name 0) else scan_proc E sock entries))"

definition findFirecrackerPID :: "env \<Rightarrow> string \<Rightarrow> int prog" where
  "findFirecrackerPID E sock =
     on_error (os_ReadDir E ''/proc'') (\<lambda>_. ret 0) (\<lambda>entries. scan_proc E sock entries)"

section \<open>All VMs\<close>

definition started_at :: "nat option \<Rightarrow> int" where
  "started_at t = (case t of None \<Rightarrow> zero_time | Some n \<Rightarrow> instant n)"

text \<open>The VM of a socket whose server has answered.\<close>

definition running_vm :: "env \<Rightarrow> string \<Rightarrow> string \<Rightarrow> InstanceInfo \<Rightarrow> VM prog" where
  "running_vm E name sock info = do {
     let client = NewClient sock;
     r \<leftarrow> GetVMConfig E client;
     let (cpus, memory) =
       (case r of
          Inr vmCfg \<Rightarrow>
            (case vc_MachineConfig vmCfg of
               Some mc \<Rightarrow> (f_of_int (VcpuCount mc), MemSizeMib mc)
             | None \<Rightarrow> (Fin 0 0, 0))
        | Inl _ \<Rightarrow> (Fin 0 0, 0));
     t \<leftarrow> dir_mtime E sock;
     pid \<leftarrow> findFirecrackerPID E sock;
     ret \<lparr> vm_Name = name, vm_PID = pid, vm_SocketPath = sock, vm_StartedAt = started_at t,
           vm_Status = InstanceState info, vm_CPUs = cpus, vm_Memory = memory, vm_Port = sshPort name,
           vm_cmd = None, vm_client = Some client, vm_diskPath = [] \<rparr>
   }"

text \<open>The first pass: the map \<open>seen\<close> is an association list.\<close>

fun scan_sockets :: "env \<Rightarrow> (string \<times> bool) list \<Rightarrow> (string \<times> VM) list \<Rightarrow> (string \<times> VM) list prog" where
  "scan_sockets E [] seen = ret seen"
| "scan_sockets E ((entry, is_dir) # entries) seen =
     (if \<not> has_suffix entry ''.socket'' then scan_sockets E entries seen
      else
        (let name = trim_suffix entry ''.socket''; sock = Join [socketDirectory E, entry] in
         on_error (GetInfo E (NewClient sock)) (\<lambda>_. scan_sockets E entries seen) (\<lambda>info. do {
           vm \<leftarrow> running_vm E name sock info;
           scan_sockets E entries (AList.update name vm seen) })))"

definition stopped_vm :: "env \<Rightarrow> string \<Rightarrow> nat option \<Rightarrow> VM" where
  "stopped_vm E name t =
     \<lparr> vm_Name = name, vm_PID = 0, vm_SocketPath = Join [socketDirectory E, name @ ''.socket''],
       vm_StartedAt = started_at t, vm_Status = ''Stopped'', vm_CPUs = Fin 0 0, vm_Memory = 0,
       vm_Port = sshPort name, vm_cmd = None, vm_client = None, vm_diskPath = [] \<rparr>"

definition vmsDir :: "env \<Rightarrow> string" where
  "vmsDir E = Join [home E, ''.local'', ''share'', ''knaller'', ''vms'']"

fun scan_data :: "env \<Rightarrow> (string \<times> bool) list \<Rightarrow> (string \<times> VM) list \<Rightarrow> (string \<times> VM) list prog" where
  "scan_data E [] seen = ret seen"
| "scan_data E ((name, is_dir) # entries) seen =
     (if \<not> is_dir \<or> map_of seen name \<noteq> None then scan_data E entries seen
      else do {
        t \<leftarrow> dir_mtime E (Join [vmsDir E, name]);
        scan_data E entries (AList.update name (stopped_vm E name t) seen) })"

text \<open>
  \<open>os.ReadDir\<close> where a directory that is not there has no entries. The order of the result is that of a
  Go map, which is not specified: it is a multiset.
\<close>

definition dir_entries :: "env \<Rightarrow> string \<Rightarrow> (string \<times> bool) list go" where
  "dir_entries E p =
     on_error (os_ReadDir E p) (\<lambda>e. if e \<noteq> ENOENT then err e else ok []) (\<lambda>entries. ok entries)"

definition List_vms :: "env \<Rightarrow> VM multiset go" where
  "List_vms E =
     on_error (dir_entries E (socketDirectory E)) err (\<lambda>sockets. do {
       seen \<leftarrow> scan_sockets E sockets [];
       on_error (dir_entries E (vmsDir E)) err (\<lambda>dirs. do {
         seen \<leftarrow> scan_data E dirs seen;
         ok (mset (map snd seen)) }) })"

section \<open>Waiting for an adopted VM\<close>

text \<open>The state at the start of each round of the loop, as long as the process is there.\<close>

fun wait_rounds :: "env \<Rightarrow> int \<Rightarrow> nat \<Rightarrow> world \<Rightarrow> world" where
  "wait_rounds E pid 0 w = w"
| "wait_rounds E pid (Suc n) w =
     wait_rounds E pid n (slept E 100000000 (snd (run_state (syscall_Kill E pid Sig0) w)))"

lemma kill_gone: "isl (fst (run_state (syscall_Kill E pid sg) w)) \<longleftrightarrow> signalled E w pid sg \<noteq> None"
  by (auto simp: syscall_Kill_def split: option.splits)

lemma wait_gone_unfold:
  "wait_gone E pid w =
     (if signalled E w pid Sig0 \<noteq> None then Some (snd (run_state (syscall_Kill E pid Sig0) w))
      else wait_gone E pid (slept E 100000000 (snd (run_state (syscall_Kill E pid Sig0) w))))"
  by (subst wait_gone.simps) (auto simp: split_beta kill_gone)

lemma wait_gone_returns:
  "signalled E (wait_rounds E pid n w) pid Sig0 \<noteq> None \<Longrightarrow> wait_gone E pid w \<noteq> None"
  by (induction n arbitrary: w) (subst wait_gone_unfold; simp)+

lemma wait_gone_only:
  assumes "wait_gone E pid w = Some w'"
  shows "\<exists>n. signalled E (wait_rounds E pid n w) pid Sig0 \<noteq> None \<and>
       w' = snd (run_state (syscall_Kill E pid Sig0) (wait_rounds E pid n w))"
  using assms
proof (rule wait_gone.raw_induct [rotated])
  fix loop E pid w w'
  assume 1: "\<And>E pid w w'. loop E pid w = Some w' \<Longrightarrow>
      \<exists>n. signalled E (wait_rounds E pid n w) pid Sig0 \<noteq> None \<and>
        w' = snd (run_state (syscall_Kill E pid Sig0) (wait_rounds E pid n w))"
    "(case run_state (syscall_Kill E pid Sig0) w of (r, w1) \<Rightarrow>
        if isl r then Some w1 else loop E pid (slept E 100000000 w1)) = Some w'"
  let ?v = "snd (run_state (syscall_Kill E pid Sig0) w)"
  show "\<exists>n. signalled E (wait_rounds E pid n w) pid Sig0 \<noteq> None \<and>
      w' = snd (run_state (syscall_Kill E pid Sig0) (wait_rounds E pid n w))"
  proof (cases "signalled E w pid Sig0 = None")
    case False
    then have "w' = ?v" using 1(2) by (auto simp: split_beta kill_gone)
    with False show ?thesis by (intro exI [of _ 0]) simp
  next
    case True
    then have "loop E pid (slept E 100000000 ?v) = Some w'" using 1(2) by (auto simp: split_beta kill_gone)
    from 1(1) [OF this] obtain n where
      "signalled E (wait_rounds E pid n (slept E 100000000 ?v)) pid Sig0 \<noteq> None"
      "w' = snd (run_state (syscall_Kill E pid Sig0) (wait_rounds E pid n (slept E 100000000 ?v)))" by blast
    then show ?thesis by (intro exI [of _ "Suc n"]) simp
  qed
qed

text \<open>C30: Waiting for an adopted VM returns exactly when some look at its process finds that it cannot be
  signalled, never earlier, and then without an error; as long as every look finds it the wait
  goes on forever.\<close>
theorem adopted_wait:
  "case vm_cmd vm of
     Some pid \<Rightarrow> vm_Wait E vm w = Some (run_state (cmd_Wait E pid) w)
   | None \<Rightarrow>
       (if vm_PID vm \<le> 0 then vm_Wait E vm w = Some (Inr (), w)
        else
          (case vm_Wait E vm w of
             None \<Rightarrow> \<forall>n. signalled E (wait_rounds E (vm_PID vm) n w) (vm_PID vm) Sig0 = None
           | Some (r, w') \<Rightarrow> r = Inr () \<and>
               (\<exists>n. signalled E (wait_rounds E (vm_PID vm) n w) (vm_PID vm) Sig0 \<noteq> None \<and>
                    w' = snd (run_state (syscall_Kill E (vm_PID vm) Sig0) (wait_rounds E (vm_PID vm) n w)))))"
proof (cases "wait_gone E (vm_PID vm) w")
  case None
  then have "signalled E (wait_rounds E (vm_PID vm) n w) (vm_PID vm) Sig0 = None" for n
    using wait_gone_returns by blast
  with None show ?thesis by (auto simp: vm_Wait_def split: option.split)
next
  case (Some w')
  from wait_gone_only [OF this] Some show ?thesis by (auto simp: vm_Wait_def split: option.split)
qed

section \<open>Removing\<close>

lemma removed_vm:
  "run_state (RemoveVM E name) w = (Inr u, w') \<Longrightarrow> below (vmDataDir E name) q \<Longrightarrow> \<not> root_path q \<Longrightarrow>
   fs_lookup (files w') q = None"
  by (auto simp: RemoveVM_def Let_def run_simps removeDisk_def os_RemoveAll_def os_write_ok fs_remove_all_lookup
      split: prod.splits sum.splits)

text \<open>C16: A VM whose server answers is never removed: the call fails after that one request. A removal that
  succeeds leaves nothing in the VM's directory.\<close>
theorem running_vm_kept:
  "case run_state (GetInfo E (NewClient (socket_path E name))) w of
     (Inr _, v) \<Rightarrow>
       run_state (RemoveVM E name) w =
         (Inl (ErrMsg (''VM '' @ quote name @ '' is still running, stop it first'')), v)
   | (Inl _, _) \<Rightarrow>
       (case run_state (RemoveVM E name) w of
          (Inr _, w') \<Rightarrow>
            (if below (vmDataDir E name) q \<and> \<not> root_path q then fs_lookup (files w') q = None else True)
        | (Inl _, _) \<Rightarrow> True)"
proof (cases "run_state (GetInfo E (NewClient (socket_path E name))) w")
  case (Pair r v)
  show ?thesis
  proof (cases r)
    case (Inr info)
    with Pair show ?thesis by (simp add: RemoveVM_def socket_path_def Let_def run_simps)
  next
    case (Inl e)
    with Pair show ?thesis by (auto split: prod.split sum.split dest: removed_vm)
  qed
qed

section \<open>Names that are not checked\<close>

text \<open>The directory all of the program's data is in.\<close>

definition dataDir :: "env \<Rightarrow> string" where
  "dataDir E = Join [home E, ''.local'', ''share'', ''knaller'']"

lemma dotdot_dirs:
  "vmDataDir E ''..'' = dataDir E" "snapshotDir E ''..'' = dataDir E"
  using Join_dotdot_twice [of "''knaller''" "''vms''" "[home E, ''.local'', ''share'']"]
    Join_dotdot_twice [of "''knaller''" "''snapshots''" "[home E, ''.local'', ''share'']"]
    Join_Join [of "''vms''" "[home E, ''.local'', ''share'', ''knaller'']" "''..''"]
  by (simp_all add: vmDataDir_def snapshotDir_def snapshotBaseDir_def dataDir_def plain_name_def)

lemma Clean_slash: "p \<noteq> [] \<Longrightarrow> Clean (p @ ''/'') = Clean p"
proof -
  assume "p \<noteq> []"
  then have "path_comps (p @ ''/'') = clean_comps (is_rooted p) (rev (path_comps p)) [[]]"
    using path_comps_append [of p "[]"] by simp
  then show ?thesis using \<open>p \<noteq> []\<close> by (simp add: Clean_def is_rooted_append)
qed

lemma empty_name_dir: "vmDataDir E [] = vmsDir E"
proof -
  have "Join [vmsDir E, []] = Clean (vmsDir E @ ''/'')" if "vmsDir E \<noteq> []"
    using that by (simp add: Join_def)
  moreover have "vmsDir E \<noteq> []" "Clean (vmsDir E) = vmsDir E"
    by (auto simp: vmsDir_def Join_def)
  moreover have "Join [vmsDir E, []] = vmDataDir E []"
    using Join_Join [of "''vms''" "[home E, ''.local'', ''share'', ''knaller'']" "[]"]
    by (simp add: vmDataDir_def vmsDir_def)
  ultimately show ?thesis using Clean_slash by simp
qed


lemma dataDir_parts:
  "dataDir E = Join [home E, ''.local'', ''share''] @ ''/knaller''"
  "vmsDir E = dataDir E @ ''/vms''"
  "plain_name name \<Longrightarrow> vmDataDir E name = vmsDir E @ ''/'' @ name"
  "snapshotBaseDir E = dataDir E @ ''/snapshots''"
  using Join_snoc_plain [of "''share''" "''knaller''" "[home E, ''.local'']"]
    Join_snoc_plain [of "''knaller''" "''vms''" "[home E, ''.local'', ''share'']"]
    Join_snoc_plain [of "''knaller''" "''snapshots''" "[home E, ''.local'', ''share'']"]
    Join_snoc_plain [of "''vms''" name "[home E, ''.local'', ''share'', ''knaller'']"]
  by (simp_all add: dataDir_def vmsDir_def vmDataDir_def snapshotBaseDir_def plain_name_def)

lemma dataDir_clean [simp]: "Clean (dataDir E) = dataDir E" "Clean (vmsDir E) = vmsDir E"
  "Clean (vmDataDir E name) = vmDataDir E name" "Clean (snapshotBaseDir E) = snapshotBaseDir E"
  by (simp_all add: dataDir_def vmsDir_def vmDataDir_def snapshotBaseDir_def)

lemma below_prefix: "Clean p = p \<Longrightarrow> Clean q = q \<Longrightarrow> p \<noteq> ''/'' \<Longrightarrow> q = p @ ''/'' @ r \<Longrightarrow> below p q"
  using has_prefix_append [of "p @ ''/''" r] by (simp add: below_def)

lemma in_dataDir:
  "below (dataDir E) (snapshotBaseDir E)"
  "plain_name name \<Longrightarrow> below (dataDir E) (vmDataDir E name)"
  "plain_name name \<Longrightarrow> below (vmsDir E) (vmDataDir E name)"
proof -
  have ne: "dataDir E \<noteq> ''/''" "vmsDir E \<noteq> ''/''"
    using dataDir_parts(1) [of E] dataDir_parts(2) [of E] by (auto simp: append_eq_Cons_conv)
  show "below (dataDir E) (snapshotBaseDir E)"
    by (rule below_prefix [where r = "''snapshots''"]) (simp_all add: ne, simp add: dataDir_parts(4))
  assume n: "plain_name name"
  show "below (dataDir E) (vmDataDir E name)"
    by (rule below_prefix [where r = "''vms/'' @ name"])
      (simp_all add: ne, simp add: dataDir_parts(2) dataDir_parts(3) [OF n])
  show "below (vmsDir E) (vmDataDir E name)"
    by (rule below_prefix [where r = name]) (simp_all add: ne, simp add: dataDir_parts(3) [OF n])
qed

lemma data_not_root: "below (dataDir E) p \<Longrightarrow> \<not> root_path p"
proof
  have ne: "dataDir E \<noteq> ''/''" "dataDir E \<noteq> ''.''" using dataDir_parts(1) [of E] by (auto simp: append_eq_Cons_conv)
  have len: "length (dataDir E) > 1" using dataDir_parts(1) [of E] by simp
  assume "below (dataDir E) p" and root: "root_path p"
  then have "length (Clean p) > 1"
    using ne len by (auto simp: below_def has_prefix_iff)
  with root show False by (auto simp: root_path_def)
qed

text \<open>The name of a VM is not checked where its directory is removed: \<^verbatim>\<open>..\<close> stands for the directory
  of all of the program's data and the empty name for that of all VMs, so removing them takes every
  VM and every snapshot, and every VM.\<close>
theorem unchecked_names:
  "vmDataDir E ''..'' = dataDir E \<and> snapshotDir E ''..'' = dataDir E \<and> vmDataDir E [] = vmsDir E \<and>
   (case run_state (RemoveVM E ''..'') w of
      (Inr _, w') \<Rightarrow> fs_lookup (files w') (snapshotBaseDir E) = None \<and>
        (if plain_name name then fs_lookup (files w') (vmDataDir E name) = None else True)
    | (Inl _, _) \<Rightarrow> True) \<and>
   (case run_state (RemoveVM E []) w of
      (Inr _, w') \<Rightarrow> (if plain_name name then fs_lookup (files w') (vmDataDir E name) = None else True)
    | (Inl _, _) \<Rightarrow> True)"
proof -
  have all: "fs_lookup (files w') p = None"
    if "run_state (RemoveVM E ''..'') w = (Inr u, w')" "below (dataDir E) p" for u w' p
    using removed_vm [OF that(1)] that(2) data_not_root by (simp add: dotdot_dirs)
  have vms: "fs_lookup (files w') (vmDataDir E name) = None"
    if "run_state (RemoveVM E []) w = (Inr u, w')" "plain_name name" for u w'
    by (rule removed_vm [OF that(1), unfolded empty_name_dir])
      (rule in_dataDir(3) [OF that(2)], rule data_not_root [OF in_dataDir(2) [OF that(2)]])
  show ?thesis
    using all in_dataDir(1) in_dataDir(2) [of name] vms
    by (auto simp: dotdot_dirs empty_name_dir split: prod.split sum.split)
qed

section \<open>The list\<close>

declare map_of_eq_Some_iff [simp del] Some_eq_map_of_iff [simp del]

text \<open>What holds of the map \<open>seen\<close> after the first pass.\<close>

definition running_map :: "(string \<times> VM) list \<Rightarrow> bool" where
  "running_map seen \<longleftrightarrow> distinct (map fst seen) \<and>
     (\<forall>n v. map_of seen n = Some v \<longrightarrow> vm_Name v = n \<and> vm_client v \<noteq> None)"

lemma running_vm_fields:
  "run_state (running_vm E name sock info) w = (vm, w') \<Longrightarrow> vm_Name vm = name \<and> vm_client vm \<noteq> None"
  by (auto simp: running_vm_def Let_def run_simps split: prod.splits sum.splits)

lemma running_map_update:
  "running_map seen \<Longrightarrow> vm_Name vm = n \<Longrightarrow> vm_client vm \<noteq> None \<Longrightarrow> running_map (AList.update n vm seen)"
  by (auto simp: running_map_def update_conv' distinct_update split: if_splits)

lemma scan_sockets_map:
  "run_state (scan_sockets E entries seen) w = (seen', w') \<Longrightarrow> running_map seen \<Longrightarrow> running_map seen'"
proof (induction E entries seen arbitrary: w rule: scan_sockets.induct)
  case (2 E entry is_dir entries seen)
  let ?name = "trim_suffix entry ''.socket''" and ?sock = "Join [socketDirectory E, entry]"
  show ?case
  proof (cases "has_suffix entry ''.socket''")
    case False
    with 2 show ?thesis by simp
  next
    case True
    obtain r v where r: "run_state (GetInfo E (NewClient ?sock)) w = (r, v)" by fastforce
    show ?thesis
    proof (cases r)
      case (Inl e)
      with True r 2 show ?thesis by (simp add: Let_def run_on_error)
    next
      case (Inr info)
      obtain vm u where vm: "run_state (running_vm E ?name ?sock info) v = (vm, u)" by fastforce
      with Inr True r 2(4) have "run_state (scan_sockets E entries (AList.update ?name vm seen)) u = (seen', w')"
        by (simp add: Let_def run_simps)
      moreover have "running_map (AList.update ?name vm seen)"
        using running_map_update [OF 2(5)] running_vm_fields [OF vm] by blast
      ultimately show ?thesis using 2(3) True by blast
    qed
  qed
qed (simp add: run_simps)

lemma stopped_vm_fields: "vm_Name (stopped_vm E n t) = n" "vm_Status (stopped_vm E n t) = ''Stopped''"
  by (simp_all add: stopped_vm_def)

text \<open>The second pass adds the directories that are not in it yet, and nothing else.\<close>

definition all_map :: "env \<Rightarrow> (string \<times> bool) list \<Rightarrow> (string \<times> VM) list \<Rightarrow> (string \<times> VM) list \<Rightarrow> bool" where
  "all_map E dirs seen seen' \<longleftrightarrow> distinct (map fst seen') \<and>
     dom (map_of seen') = dom (map_of seen) \<union> {n. (n, True) \<in> set dirs} \<and>
     (\<forall>n v. map_of seen' n = Some v \<longrightarrow>
        map_of seen n = Some v \<or> (n, True) \<in> set dirs \<and> (\<exists>t. v = stopped_vm E n t))"

lemma files_dir_mtime: "files (snd (run_state (dir_mtime E p) w)) = files w"
  by (simp add: dir_mtime_def)

lemma scan_data_map:
  "run_state (scan_data E dirs seen) w = (seen', w') \<Longrightarrow> distinct (map fst seen) \<Longrightarrow>
   all_map E dirs seen seen' \<and> files w' = files w"
proof (induction E dirs seen arbitrary: w rule: scan_data.induct)
  case (1 E seen)
  then show ?case by (auto simp: all_map_def run_simps)
next
  case (2 E name is_dir dirs seen)
  show ?case
  proof (cases "\<not> is_dir \<or> map_of seen name \<noteq> None")
    case True
    with 2 have "all_map E dirs seen seen' \<and> files w' = files w" by simp
    with True show ?thesis by (auto simp: all_map_def domIff)
  next
    case False
    obtain t u where t: "run_state (dir_mtime E (Join [vmsDir E, name])) w = (t, u)" by fastforce
    have u: "files u = files w" using files_dir_mtime [of E "Join [vmsDir E, name]" w] t by simp
    let ?seen = "AList.update name (stopped_vm E name t) seen"
    have "run_state (scan_data E dirs ?seen) u = (seen', w')"
      using 2(3) False t by (simp add: run_simps)
    from 2(2) [OF False this] 2(4) have "all_map E dirs ?seen seen' \<and> files w' = files u"
      by (simp add: distinct_update)
    with False u show ?thesis
      by (auto simp: all_map_def update_conv' split: if_splits) blast
  qed
qed

lemma dir_entries_ok:
  assumes "\<forall>v p. fault E v (ReadDir p) = None" and "run_state (dir_entries E p) w = (Inr dirs, w')"
  shows "files w' = files w \<and>
    set dirs = (case fs_read_dir (files w) p of Inr ds \<Rightarrow> set ds | Inl _ \<Rightarrow> {})"
  using assms
  by (auto simp: dir_entries_def os_ReadDir_def run_os_read run_simps split: sum.splits if_splits)

lemma names_of_map:
  assumes "distinct (map fst seen)" and "\<And>n v. map_of seen n = Some v \<Longrightarrow> f v = n"
  shows "map f (map snd seen) = map fst seen"
  using assms
proof (induction seen)
  case (Cons x seen)
  obtain n v where x: "x = (n, v)" by fastforce
  have "f v = n" using Cons.prems(2) [of n v] x by simp
  moreover have "f u = m" if "map_of seen m = Some u" for m u
  proof (rule Cons.prems(2))
    have "m \<in> fst ` set seen" using that by (metis domI dom_map_of_conv_image_fst)
    then show "map_of (x # seen) m = Some u" using Cons.prems(1) that x by auto
  qed
  ultimately show ?case using Cons x by simp
qed simp

text \<open>The two passes of a list that succeeded.\<close>

lemma listed_passes:
  assumes "\<forall>v p. fault E v (ReadDir p) = None" and "run_state (List_vms E) w = (Inr vms, w')"
  obtains dirs seen seen' where "running_map seen" "all_map E dirs seen seen'" "vms = mset (map snd seen')"
    "(case fs_read_dir (files w') (vmsDir E) of Inr ds \<Rightarrow> {n. (n, True) \<in> set ds} | Inl _ \<Rightarrow> {}) =
     {n. (n, True) \<in> set dirs}"
proof -
  obtain sockets w1 seen w2 dirs w3 seen' where
    d: "run_state (dir_entries E (vmsDir E)) w2 = (Inr dirs, w3)"
    and s: "run_state (scan_sockets E sockets []) w1 = (seen, w2)"
    and s': "run_state (scan_data E dirs seen) w3 = (seen', w')" and vms: "vms = mset (map snd seen')"
    using assms(2) by (auto simp: List_vms_def run_simps split: prod.splits sum.splits)
  have run: "running_map seen" using scan_sockets_map [OF s] by (simp add: running_map_def)
  have all: "all_map E dirs seen seen'" and f: "files w' = files w3"
    using scan_data_map [OF s'] run by (auto simp: running_map_def)
  have "(case fs_read_dir (files w') (vmsDir E) of Inr ds \<Rightarrow> {n. (n, True) \<in> set ds} | Inl _ \<Rightarrow> {}) =
      {n. (n, True) \<in> set dirs}"
    using dir_entries_ok [OF assms(1) d] f by (auto split: sum.splits)
  with run all vms that show thesis by blast
qed

text \<open>What they find, by name.\<close>

lemma listed_names:
  assumes "running_map seen" and "all_map E dirs seen seen'"
  shows "card (vm_Name ` set (map snd seen')) = length seen'"
    and "{n. (n, True) \<in> set dirs} \<subseteq> vm_Name ` set (map snd seen')"
    and "v \<in> set (map snd seen') \<Longrightarrow> vm_client v = None \<Longrightarrow>
      (vm_Name v, True) \<in> set dirs \<and> vm_Status v = ''Stopped''"
proof -
  have name: "vm_Name v = n" if "map_of seen' n = Some v" for n v
    using assms that stopped_vm_fields(1) unfolding all_map_def running_map_def by metis
  have dist: "distinct (map fst seen')" using assms(2) by (simp add: all_map_def)
  have names: "map vm_Name (map snd seen') = map fst seen'" by (rule names_of_map [OF dist name])
  show "card (vm_Name ` set (map snd seen')) = length seen'"
    using names dist by (metis distinct_card length_map set_map)
  show "{n. (n, True) \<in> set dirs} \<subseteq> vm_Name ` set (map snd seen')"
  proof
    fix n
    assume "n \<in> {n. (n, True) \<in> set dirs}"
    then have "n \<in> dom (map_of seen')" using assms(2) unfolding all_map_def by blast
    then have "n \<in> fst ` set seen'" by (simp add: dom_map_of_conv_image_fst)
    also have "fst ` set seen' = vm_Name ` set (map snd seen')" using names by (metis list.set_map)
    finally show "n \<in> vm_Name ` set (map snd seen')" .
  qed
  assume v: "v \<in> set (map snd seen')" and c: "vm_client v = None"
  from v obtain n where "(n, v) \<in> set seen'" by auto
  then have n: "map_of seen' n = Some v" using dist by (rule map_of_is_SomeI [rotated])
  have "map_of seen n \<noteq> Some v" using assms(1) c unfolding running_map_def by blast
  then obtain t where d: "(n, True) \<in> set dirs" and v: "v = stopped_vm E n t"
    using n assms(2) unfolding all_map_def by blast
  have "vm_Status v = ''Stopped''" by (subst v) (rule stopped_vm_fields)
  with d name [OF n] show "(vm_Name v, True) \<in> set dirs \<and> vm_Status v = ''Stopped''" by simp
qed

lemma dir_entries_error: "run_state (dir_entries E p) v = (Inl e, v') \<Longrightarrow> e \<noteq> ENOENT"
  by (auto simp: dir_entries_def run_simps split: prod.splits sum.splits if_splits)


definition listing_world :: world where
  "listing_world = empty_world\<lparr>files := [(''/root/.local/share/knaller/vms'', Dir),
     (''/root/.local/share/knaller/vms/web'', Dir)]\<rparr>"


end
