(* ===== verification/Flags.thy ===== *)
theory Flags
  imports GoText Float64
begin

text \<open>
  The flags of a command: \<open>FlagSet.Parse\<close> of Go's \<open>flag\<close> with \<open>ExitOnError\<close>, and the readers of its
  values in \<open>strconv\<close> (\<open>ParseInt\<close> with base 0, \<open>ParseFloat\<close> of 64 bits, \<open>ParseBool\<close>). A set of flags is
  a map from names to what a value does to the record of the values read so far.
\<close>

section \<open>Flag sets\<close>

datatype 'r flag = Value "string \<Rightarrow> 'r \<Rightarrow> 'r option" | Switch "bool \<Rightarrow> 'r \<Rightarrow> 'r"

definition ParseBool :: "string \<Rightarrow> bool option" where
  "ParseBool s =
     (if s \<in> {''1'', ''t'', ''T'', ''true'', ''TRUE'', ''True''} then Some True
      else if s \<in> {''0'', ''f'', ''F'', ''false'', ''FALSE'', ''False''} then Some False
      else None)"

text \<open>The name and the value, if it has one, of an argument that is a flag.\<close>

definition flag_body :: "string \<Rightarrow> string" where
  "flag_body s = (if has_prefix s ''--'' then drop 2 s else tl s)"

definition is_flag :: "string \<Rightarrow> bool" where
  "is_flag s \<longleftrightarrow> 2 \<le> length s \<and> hd s = CHR ''-'' \<and> s \<noteq> ''--''"

fun flag_parts :: "string \<Rightarrow> string \<times> string option" where
  "flag_parts [] = ([], None)"
| "flag_parts (c # s) = (case cut s ''='' of None \<Rightarrow> (c # s, None) | Some (n, v) \<Rightarrow> (c # n, Some v))"

text \<open>
  \<open>Parse\<close>: the record, or the code the process exits with, 0 after a request for help and 2 after a
  flag that is wrong.
\<close>

definition unknown_flag :: "string \<Rightarrow> int" where
  "unknown_flag name = (if name = ''help'' \<or> name = ''h'' then 0 else 2)"

fun parse_flags :: "(string \<Rightarrow> 'r flag option) \<Rightarrow> string list \<Rightarrow> 'r \<Rightarrow> int + 'r" where
  "parse_flags F [] r = Inr r"
| "parse_flags F (s # args) r =
     (if \<not> is_flag s then Inr r
      else if hd (flag_body s) = CHR ''-'' \<or> hd (flag_body s) = CHR ''='' then Inl 2
      else
        (case flag_parts (flag_body s) of (name, given) \<Rightarrow>
           (case F name of
              None \<Rightarrow> Inl (unknown_flag name)
            | Some (Switch f) \<Rightarrow>
                (case ParseBool (case given of None \<Rightarrow> ''true'' | Some v \<Rightarrow> v) of
                   None \<Rightarrow> Inl 2
                 | Some b \<Rightarrow> parse_flags F args (f b r))
            | Some (Value f) \<Rightarrow>
                (case given of
                   Some v \<Rightarrow> (case f v r of None \<Rightarrow> Inl 2 | Some r \<Rightarrow> parse_flags F args r)
                 | None \<Rightarrow>
                     (case args of
                        [] \<Rightarrow> Inl 2
                      | v # args \<Rightarrow> (case f v r of None \<Rightarrow> Inl 2 | Some r \<Rightarrow> parse_flags F args r))))))"

section \<open>Integers\<close>

text \<open>The value of a digit in a base of up to 36, upper and lower case alike.\<close>

definition digit36 :: "char \<Rightarrow> int option" where
  "digit36 c =
     (let n = int (of_char c) in
      if 48 \<le> n \<and> n \<le> 57 then Some (n - 48)
      else if 97 \<le> n \<and> n \<le> 122 then Some (n - 87)
      else if 65 \<le> n \<and> n \<le> 90 then Some (n - 55)
      else None)"

fun digits_in :: "int \<Rightarrow> int \<Rightarrow> string \<Rightarrow> int option" where
  "digits_in b n [] = Some n"
| "digits_in b n (c # s) =
     (if c = CHR ''_'' then digits_in b n s
      else (case digit36 c of
              None \<Rightarrow> None
            | Some d \<Rightarrow> if b \<le> d then None else digits_in b (n * b + d) s))"

text \<open>\<open>underscoreOK\<close>: underscores stand between digits, or between the prefix of the base and a digit.\<close>

datatype seen = Start_seen | Digit_seen | Underscore_seen | Other_seen

fun underscores_from :: "bool \<Rightarrow> seen \<Rightarrow> string \<Rightarrow> bool" where
  "underscores_from hex saw [] \<longleftrightarrow> saw \<noteq> Underscore_seen"
| "underscores_from hex saw (c # s) \<longleftrightarrow>
     (if is_digit c \<or> hex \<and> (case digit36 c of Some d \<Rightarrow> d < 16 | None \<Rightarrow> False) then underscores_from hex Digit_seen s
      else if c = CHR ''_'' then saw = Digit_seen \<and> underscores_from hex Underscore_seen s
      else saw \<noteq> Underscore_seen \<and> underscores_from hex Other_seen s)"

definition drop_sign :: "string \<Rightarrow> string" where
  "drop_sign s = (if s \<noteq> [] \<and> (hd s = CHR ''-'' \<or> hd s = CHR ''+'') then tl s else s)"

fun base_prefix :: "string \<Rightarrow> int option" where
  "base_prefix (z # c # s) =
     (if z \<noteq> CHR ''0'' then None
      else if c \<in> {CHR ''b'', CHR ''B''} then Some 2
      else if c \<in> {CHR ''o'', CHR ''O''} then Some 8
      else if c \<in> {CHR ''x'', CHR ''X''} then Some 16
      else None)"
| "base_prefix _ = None"

definition underscoreOK :: "string \<Rightarrow> bool" where
  "underscoreOK s =
     (let t = drop_sign s in
      case base_prefix t of
        Some b \<Rightarrow> underscores_from (b = 16) Digit_seen (drop 2 t)
      | None \<Rightarrow> underscores_from False Start_seen t)"

text \<open>\<open>ParseUint(s, 0, 64)\<close> before its check of the range.\<close>

definition parse_uint :: "string \<Rightarrow> int option" where
  "parse_uint s =
     (if s = [] \<or> CHR ''_'' \<in> set s \<and> \<not> underscoreOK s then None
      else if hd s \<noteq> CHR ''0'' then digits_in 10 0 s
      else (case base_prefix s of
              Some b \<Rightarrow> if 3 \<le> length s then digits_in b 0 (drop 2 s) else digits_in 8 0 (tl s)
            | None \<Rightarrow> digits_in 8 0 (tl s)))"

definition ParseInt :: "string \<Rightarrow> int option" where
  "ParseInt s =
     (case parse_uint (drop_sign s) of
        None \<Rightarrow> None
      | Some n \<Rightarrow>
          (let i = (if s \<noteq> [] \<and> hd s = CHR ''-'' then - n else n) in
           if int64_range i then Some i else None))"

section \<open>Floating point\<close>

text \<open>The digits of a mantissa: their value, how many stand behind the point, and what follows.\<close>

record mantissa =
  mant :: int
  frac :: int
  any_digit :: bool
  any_dot :: bool

fun mant_digits :: "int \<Rightarrow> mantissa \<Rightarrow> string \<Rightarrow> mantissa \<times> string" where
  "mant_digits b m [] = (m, [])"
| "mant_digits b m (c # s) =
     (if c = CHR ''_'' then mant_digits b m s
      else if c = CHR ''.'' \<and> \<not> any_dot m then mant_digits b (m\<lparr>any_dot := True\<rparr>) s
      else (case digit36 c of
              Some d \<Rightarrow>
                if d < b then
                  mant_digits b (m\<lparr>mant := mant m * b + d, frac := (if any_dot m then frac m + 1 else frac m),
                    any_digit := True\<rparr>) s
                else (m, c # s)
            | None \<Rightarrow> (m, c # s)))"

text \<open>The digits of an exponent, which is not made larger once it has reached 10000.\<close>

fun exp_digits :: "int \<Rightarrow> string \<Rightarrow> int option" where
  "exp_digits e [] = Some e"
| "exp_digits e (c # s) =
     (if c = CHR ''_'' then exp_digits e s
      else if is_digit c then exp_digits (if e < 10000 then e * 10 + int (digit_val c) else e) s
      else None)"

definition parse_exp :: "string \<Rightarrow> int option" where
  "parse_exp s =
     (let t = drop_sign s in
      if t = [] \<or> \<not> is_digit (hd t) then None
      else map_option (\<lambda>e. if hd s = CHR ''-'' then - e else e) (exp_digits 0 t))"

text \<open>\<open>readFloat\<close> of a whole text without its sign: the mantissa and the exponent of 2 or 10.\<close>

definition read_hex :: "string \<Rightarrow> (int \<times> int) option" where
  "read_hex s =
     (case mant_digits 16 \<lparr> mant = 0, frac = 0, any_digit = False, any_dot = False \<rparr> s of
        (m, c # e) \<Rightarrow>
          if any_digit m \<and> (c = CHR ''p'' \<or> c = CHR ''P'')
          then map_option (\<lambda>x. (mant m, x - 4 * frac m)) (parse_exp e)
          else None
      | (m, []) \<Rightarrow> None)"

definition read_decimal :: "string \<Rightarrow> (int \<times> int) option" where
  "read_decimal s =
     (case mant_digits 10 \<lparr> mant = 0, frac = 0, any_digit = False, any_dot = False \<rparr> s of
        (m, []) \<Rightarrow> if any_digit m then Some (mant m, - frac m) else None
      | (m, c # e) \<Rightarrow>
          if any_digit m \<and> (c = CHR ''e'' \<or> c = CHR ''E'')
          then map_option (\<lambda>x. (mant m, x - frac m)) (parse_exp e)
          else None)"

definition f_decimal :: "int \<Rightarrow> int \<Rightarrow> float64" where
  "f_decimal m x = (if 0 \<le> x then f_round (m * 10 ^ nat x) 0 else f_ratio m (10 ^ nat (- x)))"

definition lowered :: "string \<Rightarrow> string" where
  "lowered s = map (\<lambda>c. let n = (of_char c :: nat) in if 65 \<le> n \<and> n \<le> 90 then char_of (n + 32) else c) s"

text \<open>A finite result; one that overflows is an error of its range.\<close>

definition in_range :: "float64 \<Rightarrow> float64 option" where
  "in_range x = (case x of Fin _ _ \<Rightarrow> Some x | _ \<Rightarrow> None)"

definition ParseFloat :: "string \<Rightarrow> float64 option" where
  "ParseFloat s =
     (let t = drop_sign s; neg = (s \<noteq> [] \<and> hd s = CHR ''-''); sign = (if neg then -1 else 1) in
      if lowered t = ''inf'' \<or> lowered t = ''infinity'' then Some (FInf neg)
      else if lowered s = ''nan'' then Some FNaN
      else if CHR ''_'' \<in> set s \<and> \<not> underscoreOK s then None
      else if 3 \<le> length t \<and> base_prefix t = Some 16 then
        Option.bind (read_hex (drop 2 t)) (\<lambda>(m, x). in_range (f_round (sign * m) x))
      else Option.bind (read_decimal t) (\<lambda>(m, x). in_range (f_decimal (sign * m) x)))"

section \<open>Reading numbers back\<close>

lemma digit36_digit: "is_digit c \<Longrightarrow> digit36 c = Some (int (digit_val c))"
  by (auto simp: digit36_def is_digit_def digit_val_def Let_def)

lemma digit_val_less: "is_digit c \<Longrightarrow> digit_val c < 10"
  by (auto simp: is_digit_def digit_val_def)

lemma digit_not_sign: "is_digit c \<Longrightarrow> c \<noteq> CHR ''-'' \<and> c \<noteq> CHR ''+'' \<and> c \<noteq> CHR ''_'' \<and> c \<noteq> CHR ''.''"
  by (auto simp: is_digit_def)

lemma undec_Cons: "foldl (\<lambda>a c. 10 * a + digit_val c) n s = n * 10 ^ length s + undec s"
proof (induction s rule: rev_induct)
  case Nil
  show ?case by (simp add: undec_def)
qed (simp add: algebra_simps)

lemma digits_in_10: "list_all is_digit s \<Longrightarrow> digits_in 10 (int n) s = Some (int (n * 10 ^ length s + undec s))"
proof (induction s arbitrary: n)
  case (Cons c s)
  then have c: "is_digit c" by simp
  have "digits_in 10 (int n) (c # s) = digits_in 10 (int (10 * n + digit_val c)) s"
    using digit_not_sign [OF c] digit_val_less [OF c] by (simp add: digit36_digit [OF c] mult.commute)
  also have "\<dots> = Some (int ((10 * n + digit_val c) * 10 ^ length s + undec s))"
    using Cons.IH [of "10 * n + digit_val c"] Cons.prems by simp
  also have "(10 * n + digit_val c) * 10 ^ length s + undec s = n * 10 ^ length (c # s) + undec (c # s)"
    using undec_Cons [of "digit_val c" s] by (simp add: undec_def algebra_simps)
  finally show ?case .
qed (simp add: undec_def)

lemma dec_hd: "dec n = c # s \<Longrightarrow> c = CHR ''0'' \<longleftrightarrow> n = 0"
proof (induction n arbitrary: c s rule: dec.induct)
  case (1 n)
  show ?case
  proof (cases "n < 10")
    case True
    then have "of_char c = 48 + n" using "1.prems" of_char_digit [of n] by (auto simp: dec.simps [of n])
    moreover have "c = CHR ''0'' \<longleftrightarrow> of_char c = (48 :: nat)" 
      using of_char_eq_iff [of c "CHR ''0''", where 'a = nat] by auto
    ultimately show ?thesis by auto
  next
    case False
    then obtain s' where "dec (n div 10) = c # s'"
      using "1.prems" by (cases "dec (n div 10)") (auto simp: dec.simps [of n])
    with "1.IH" False show ?thesis by auto
  qed
qed

lemma underscore_not_dec [simp]: "CHR ''_'' \<notin> set (dec n)"
  using dec_digits [of "CHR ''_''" n] by (auto simp: is_digit_def)

lemma list_all_dec: "list_all is_digit (dec n)"
  by (auto simp: list_all_iff dest: dec_digits)

lemma dec_0: "dec 0 = ''0''"
  by code_simp

lemma parse_uint_dec: "parse_uint (dec n) = Some (int n)"
proof (cases "n = 0")
  case True
  then show ?thesis by (simp add: dec_0 parse_uint_def)
next
  case False
  then have "hd (dec n) \<noteq> CHR ''0''" using dec_hd [of n] by (cases "dec n") auto
  then show ?thesis
    using digits_in_10 [OF list_all_dec, of 0 n] by (simp add: parse_uint_def)
qed

lemma drop_sign_dec [simp]: "drop_sign (dec n) = dec n"
proof -
  obtain c s where c: "dec n = c # s" by (cases "dec n") auto
  then have "is_digit c" using dec_digits [of c n] by simp
  then show ?thesis using c digit_not_sign [of c] by (simp add: drop_sign_def)
qed

text \<open>A number written in decimal is read back when it fits 64 bits.\<close>

lemma ParseInt_itoa: "ParseInt (itoa i) = (if int64_range i then Some i else None)"
proof -
  obtain c s where c: "dec (nat i) = c # s" by (cases "dec (nat i)") auto
  then have h: "hd (dec (nat i)) \<noteq> CHR ''-''" using dec_digits [of c "nat i"] digit_not_sign by fastforce
  show ?thesis
  proof (cases "i < 0")
    case True
    then have "drop_sign (itoa i) = dec (nat (- i))" "hd (itoa i) = CHR ''-''" "itoa i \<noteq> []"
      by (simp_all add: itoa_def drop_sign_def)
    with True show ?thesis by (simp add: ParseInt_def parse_uint_dec)
  next
    case False
    then have "itoa i = dec (nat i)" by (simp add: itoa_def)
    with False h show ?thesis by (simp add: ParseInt_def parse_uint_dec)
  qed
qed

lemma ParseInt_range: "ParseInt s = Some i \<Longrightarrow> int64_range i"
  by (auto simp: ParseInt_def Let_def split: option.splits if_splits)

lemma mant_digits_append:
  "list_all is_digit s \<Longrightarrow>
   mant_digits 10 m (s @ t) =
   mant_digits 10 (m\<lparr>mant := mant m * 10 ^ length s + int (undec s),
     frac := (if any_dot m then frac m + int (length s) else frac m), any_digit := any_digit m \<or> s \<noteq> []\<rparr>) t"
proof (induction s arbitrary: m)
  case (Cons c s)
  then have c: "is_digit c" by simp
  have u: "int (undec (c # s)) = int (digit_val c) * 10 ^ length s + int (undec s)"
    using undec_Cons [of "digit_val c" s] by (simp add: undec_def)
  show ?case
    using Cons digit_not_sign [OF c] digit_val_less [OF c]
    by (simp add: digit36_digit [OF c] u algebra_simps)
qed (simp add: undec_def)

text \<open>What a decimal number without exponent says.\<close>

lemma read_decimal_digits:
  "list_all is_digit s \<Longrightarrow> s \<noteq> [] \<Longrightarrow> read_decimal s = Some (int (undec s), 0)"
  "list_all is_digit s \<Longrightarrow> list_all is_digit t \<Longrightarrow> s \<noteq> [] \<or> t \<noteq> [] \<Longrightarrow>
   read_decimal (s @ ''.'' @ t) = Some (int (undec (s @ t)), - int (length t))"
proof -
  show "list_all is_digit s \<Longrightarrow> s \<noteq> [] \<Longrightarrow> read_decimal s = Some (int (undec s), 0)"
    using mant_digits_append [of s "\<lparr> mant = 0, frac = 0, any_digit = False, any_dot = False \<rparr>" "[]"]
    by (simp add: read_decimal_def)
  have "undec (s @ t) = undec s * 10 ^ length t + undec t"
    using undec_Cons [of "undec s" t] by (simp add: undec_def)
  then show "list_all is_digit s \<Longrightarrow> list_all is_digit t \<Longrightarrow> s \<noteq> [] \<or> t \<noteq> [] \<Longrightarrow>
      read_decimal (s @ ''.'' @ t) = Some (int (undec (s @ t)), - int (length t))"
    using mant_digits_append [of s "\<lparr> mant = 0, frac = 0, any_digit = False, any_dot = False \<rparr>" "''.'' @ t"]
      mant_digits_append [of t "\<lparr> mant = int (undec s), frac = 0, any_digit = s \<noteq> [], any_dot = True \<rparr>" "[]"]
    by (auto simp: read_decimal_def)
qed

definition plain_digit :: "char \<Rightarrow> bool" where
  "plain_digit c \<longleftrightarrow> is_digit c \<or> c = CHR ''.''"

lemma ParseFloat_plain:
  assumes "s \<noteq> []" and "list_all plain_digit s"
  shows "ParseFloat s = Option.bind (read_decimal s) (\<lambda>(m, x). in_range (f_decimal m x))"
proof -
  obtain c t where s: "s = c # t" using assms(1) by (cases s) auto
  have low: "(if 65 \<le> (of_char c :: nat) \<and> (of_char c :: nat) \<le> 90 then char_of ((of_char c :: nat) + 32) else c) = c"
    if "plain_digit c" for c
    using that by (auto simp: plain_digit_def is_digit_def)
  have c: "c \<noteq> CHR ''-''" "c \<noteq> CHR ''+''" "c \<noteq> CHR ''i''" "c \<noteq> CHR ''n''"
    using assms(2) s by (auto simp: plain_digit_def is_digit_def)
  have "CHR ''_'' \<notin> set s"
    using assms(2) by (auto simp: list_all_iff plain_digit_def is_digit_def)
  moreover have "base_prefix s \<noteq> Some 16"
  proof (cases t)
    case (Cons d u)
    then have "plain_digit d" using assms(2) s by simp
    then have "d \<noteq> CHR ''x''" "d \<noteq> CHR ''X''" by (auto simp: plain_digit_def is_digit_def)
    then show ?thesis by (simp add: s Cons)
  qed (simp add: s)
  moreover have "lowered s \<noteq> ''inf''" "lowered s \<noteq> ''infinity''" "lowered s \<noteq> ''nan''"
    using low [of c] assms(2) c s by (auto simp: lowered_def Let_def split: if_splits)
  moreover have "drop_sign s = s" using c s by (simp add: drop_sign_def)
  ultimately show ?thesis using c s by (simp add: ParseFloat_def case_prod_unfold)
qed

lemma plain_dec: "list_all plain_digit (dec n)"
  using list_all_dec [of n] by (auto simp: list_all_iff plain_digit_def)

text \<open>Integers of up to 53 bits are read back exactly.\<close>

lemma ParseFloat_dec: "n < 2 ^ 53 \<Longrightarrow> ParseFloat (dec n) = Some (Fin (int n) 0)"
proof -
  assume "n < 2 ^ 53"
  then have "f_round (int n) 0 = Fin (int n) 0" using f_of_int_exact [of "int n"] by (simp add: f_of_int_def)
  then show ?thesis
    using read_decimal_digits(1) [OF list_all_dec, of n]
    by (simp add: ParseFloat_plain plain_dec f_decimal_def in_range_def)
qed

section \<open>Command lines\<close>

text \<open>A setting of a flag: a value behind it, a value joined with \<open>=\<close>, or a switch turned on.\<close>

datatype setting = Give string string | Join_eq string string | Turn_on string

fun setting_words :: "setting \<Rightarrow> string list" where
  "setting_words (Give n v) = [''--'' @ n, v]"
| "setting_words (Join_eq n v) = [''--'' @ n @ ''='' @ v]"
| "setting_words (Turn_on n) = [''--'' @ n]"

fun setting_name :: "setting \<Rightarrow> string" where
  "setting_name (Give n v) = n"
| "setting_name (Join_eq n v) = n"
| "setting_name (Turn_on n) = n"

fun apply_setting :: "(string \<Rightarrow> 'r flag option) \<Rightarrow> setting \<Rightarrow> 'r \<Rightarrow> 'r option" where
  "apply_setting F (Turn_on n) r = (case F n of Some (Switch f) \<Rightarrow> Some (f True r) | _ \<Rightarrow> None)"
| "apply_setting F (Give n v) r = (case F n of Some (Value f) \<Rightarrow> f v r | _ \<Rightarrow> None)"
| "apply_setting F (Join_eq n v) r =
     (case F n of
        Some (Value f) \<Rightarrow> f v r
      | Some (Switch f) \<Rightarrow> map_option (\<lambda>b. f b r) (ParseBool v)
      | None \<Rightarrow> None)"

fun apply_settings :: "(string \<Rightarrow> 'r flag option) \<Rightarrow> setting list \<Rightarrow> 'r \<Rightarrow> 'r option" where
  "apply_settings F [] r = Some r"
| "apply_settings F (s # ss) r = Option.bind (apply_setting F s r) (apply_settings F ss)"

definition flag_word :: "string \<Rightarrow> bool" where
  "flag_word n \<longleftrightarrow> n \<noteq> [] \<and> hd n \<noteq> CHR ''-'' \<and> CHR ''='' \<notin> set n"

definition fits :: "(string \<Rightarrow> 'r flag option) \<Rightarrow> setting \<Rightarrow> bool" where
  "fits F s \<longleftrightarrow> flag_word (setting_name s) \<and>
     (case s of
        Give n v \<Rightarrow> (\<exists>f. F n = Some (Value f))
      | Join_eq n v \<Rightarrow> F n \<noteq> None
      | Turn_on n \<Rightarrow> (\<exists>f. F n = Some (Switch f)))"

lemma flag_parts_word:
  assumes "flag_word n"
  shows "flag_parts n = (n, None)" and "flag_parts (n @ CHR ''='' # v) = (n, Some v)"
proof -
  obtain c t where n: "n = c # t" using assms by (auto simp: flag_word_def neq_Nil_conv)
  then have "CHR ''='' \<notin> set t" using assms by (simp add: flag_word_def)
  with n cut_None [of "CHR ''=''" t "[]"] cut_append [of "CHR ''=''" t "[]" v]
  show "flag_parts n = (n, None)" "flag_parts (n @ CHR ''='' # v) = (n, Some v)" by simp_all
qed

lemma flag_word_body:
  assumes "flag_word n"
  shows "is_flag (''--'' @ n @ t)" and "flag_body (''--'' @ n @ t) = n @ t"
    and "hd (n @ t) \<noteq> CHR ''-''" and "hd (n @ t) \<noteq> CHR ''=''"
proof -
  obtain c m where n: "n = c # m" using assms by (auto simp: flag_word_def neq_Nil_conv)
  then have "c \<noteq> CHR ''-''" "c \<noteq> CHR ''=''" using assms by (auto simp: flag_word_def)
  with n show "is_flag (''--'' @ n @ t)" "hd (n @ t) \<noteq> CHR ''-''" "hd (n @ t) \<noteq> CHR ''=''"
    by (simp_all add: is_flag_def)
  show "flag_body (''--'' @ n @ t) = n @ t" by (simp add: flag_body_def)
qed

lemma parse_setting:
  assumes "fits F s"
  shows "parse_flags F (setting_words s @ args) r =
    (case apply_setting F s r of None \<Rightarrow> Inl 2 | Some r' \<Rightarrow> parse_flags F args r')"
proof -
  have n: "flag_word (setting_name s)" using assms by (simp add: fits_def)
  note body = flag_word_body [OF n, where t = "[]", simplified] flag_word_body [OF n]
  show ?thesis
  proof (cases s)
    case (Give n v)
    with assms obtain f where "F n = Some (Value f)" by (auto simp: fits_def)
    with Give body flag_parts_word(1) [of n] n show ?thesis by simp
  next
    case (Join_eq n v)
    with assms obtain x where "F n = Some x" by (auto simp: fits_def)
    with Join_eq body(5-8) [where t = "CHR ''='' # v"] flag_parts_word(2) [of n v] n show ?thesis
      by (cases x) (auto split: option.splits)
  next
    case (Turn_on n)
    with assms obtain f where "F n = Some (Switch f)" by (auto simp: fits_def)
    with Turn_on body flag_parts_word(1) [of n] n show ?thesis by (simp add: ParseBool_def)
  qed
qed

text \<open>A command line of settings applies them in their order; a value that cannot be read ends it.\<close>

lemma parse_settings:
  "list_all (fits F) ss \<Longrightarrow>
   parse_flags F (concat (map setting_words ss) @ args) r =
   (case apply_settings F ss r of None \<Rightarrow> Inl 2 | Some r' \<Rightarrow> parse_flags F args r')"
proof (induction ss arbitrary: r)
  case (Cons s ss)
  have "parse_flags F (concat (map setting_words (s # ss)) @ args) r =
      (case apply_setting F s r of None \<Rightarrow> Inl 2
       | Some r' \<Rightarrow> parse_flags F (concat (map setting_words ss) @ args) r')"
    using parse_setting [of F s "concat (map setting_words ss) @ args" r] Cons.prems by simp
  with Cons show ?case by (simp split: option.split)
qed simp

text \<open>Everything behind the first argument that is no flag is left unread.\<close>

lemma parse_stray:
  assumes "list_all (fits F) ss" and "\<not> is_flag s"
  shows "parse_flags F (concat (map setting_words ss) @ s # args) r = parse_flags F (concat (map setting_words ss)) r"
  using parse_settings [OF assms(1), of "s # args" r] parse_settings [OF assms(1), of "[]" r] assms(2)
  by (simp split: option.split)

text \<open>What every flag of a set keeps holds of what is parsed.\<close>

lemma parse_flags_keeps:
  assumes "P r"
    and "\<And>n f v r r'. F n = Some (Value f) \<Longrightarrow> f v r = Some r' \<Longrightarrow> P r \<Longrightarrow> P r'"
    and "\<And>n f b r. F n = Some (Switch f) \<Longrightarrow> P r \<Longrightarrow> P (f b r)"
  shows "case parse_flags F args r of Inl n \<Rightarrow> n = 0 \<or> n = 2 | Inr r' \<Rightarrow> P r'"
  using assms(1)
proof (induction args arbitrary: r rule: length_induct)
  case (1 args)
  show ?case
  proof (cases args)
    case Nil
    with 1 show ?thesis by simp
  next
    case (Cons s rest)
    show ?thesis
    proof (cases "is_flag s")
      case False
      with Cons "1.prems" show ?thesis by simp
    next
      case True
      obtain name given where parts: "flag_parts (flag_body s) = (name, given)" by fastforce
      have "(\<exists>n. parse_flags F args r = Inl n \<and> (n = 0 \<or> n = 2)) \<or>
          (\<exists>rest' r2. parse_flags F args r = parse_flags F rest' r2 \<and> P r2 \<and> length rest' < length args)"
        using True parts Cons
        by (auto simp: unknown_flag_def split: option.splits flag.splits list.splits)
          (metis "1.prems" assms(2,3) lessI less_SucI)+
      then show ?thesis using "1.IH" by auto
    qed
  qed
qed

end
