(* ===== verification/Cli.thy ===== *)
theory Cli
  imports Lifecycle Flags
begin

text \<open>
  The command line (\<open>internal/cli\<close> and \<open>cmd/knaller/main.go\<close>): the flags, the checks made on them and
  the call of the library behind each command. What the commands print is in \<open>Output\<close>.
\<close>

section \<open>Flags\<close>

text \<open>A set with the one string flag \<open>n\<close>.\<close>

definition string_flag :: "string \<Rightarrow> string \<Rightarrow> string list \<Rightarrow> int + string" where
  "string_flag n v args = parse_flags (map_of [(n, Value (\<lambda>v _. Some v))]) args v"

text \<open>The port flag appends a mapping to the list.\<close>

definition portList_Set :: "string \<Rightarrow> PortMapping list \<Rightarrow> err + PortMapping list" where
  "portList_Set val p =
     (case cut val '':'' of
        None \<Rightarrow> Inl (ErrMsg (''invalid port mapping '' @ quote val @ '', expected HOST:GUEST''))
      | Some (host, guest) \<Rightarrow>
          (case atoi host of
             None \<Rightarrow> Inl (ErrMsg (''invalid host port '' @ quote host))
           | Some h \<Rightarrow>
               (case atoi guest of
                  None \<Rightarrow> Inl (ErrMsg (''invalid guest port '' @ quote guest))
                | Some g \<Rightarrow> Inr (p @ [\<lparr> Host = h, Guest = g \<rparr>]))))"

definition expandHome :: "env \<Rightarrow> string \<Rightarrow> string" where
  "expandHome E path = (if has_prefix path ''~/'' then Join [home E, drop 2 path] else path)"

section \<open>Commands\<close>

text \<open>What the flags of \<open>knaller start\<close> say, once parsed.\<close>

record start_flags =
  flag_name :: string
  flag_kernel :: string
  flag_rootfs :: string
  flag_cpus :: float64
  flag_mem :: int
  flag_netBw :: float64
  flag_diskBw :: int
  flag_diskIOPS :: int
  flag_ports :: "PortMapping list"
  flag_fromSnapshot :: string
  flag_fcBin :: string
  flag_pastaBin :: string
  flag_detach :: bool
  flag_verbose :: bool

text \<open>Flags of the kinds the start command has: a text, an integer, a real number and a switch.\<close>

definition string_value :: "(string \<Rightarrow> 'r \<Rightarrow> 'r) \<Rightarrow> 'r flag" where
  "string_value u = Value (\<lambda>v r. Some (u v r))"

definition int_value :: "(int \<Rightarrow> 'r \<Rightarrow> 'r) \<Rightarrow> 'r flag" where
  "int_value u = Value (\<lambda>v r. map_option (\<lambda>i. u i r) (ParseInt v))"

definition float_value :: "(float64 \<Rightarrow> 'r \<Rightarrow> 'r) \<Rightarrow> 'r flag" where
  "float_value u = Value (\<lambda>v r. map_option (\<lambda>x. u x r) (ParseFloat v))"

definition port_value :: "start_flags flag" where
  "port_value = Value (\<lambda>v f.
     (case portList_Set v (flag_ports f) of Inl e \<Rightarrow> None | Inr p \<Rightarrow> Some (f\<lparr>flag_ports := p\<rparr>)))"

definition start_defaults :: start_flags where
  "start_defaults =
     \<lparr> flag_name = [], flag_kernel = ''~/.local/share/knaller/vmlinux'',
       flag_rootfs = ''~/.local/share/knaller/rootfs.ext4'', flag_cpus = Fin 1 0, flag_mem = 1024,
       flag_netBw = Fin 0 0, flag_diskBw = 0, flag_diskIOPS = 0, flag_ports = [], flag_fromSnapshot = [],
       flag_fcBin = ''firecracker'', flag_pastaBin = ''pasta'', flag_detach = False, flag_verbose = False \<rparr>"

definition start_set :: "(string \<times> start_flags flag) list" where
  "start_set =
     [(''name'', string_value (\<lambda>v f. f\<lparr>flag_name := v\<rparr>)),
      (''kernel'', string_value (\<lambda>v f. f\<lparr>flag_kernel := v\<rparr>)),
      (''rootfs'', string_value (\<lambda>v f. f\<lparr>flag_rootfs := v\<rparr>)),
      (''cpus'', float_value (\<lambda>v f. f\<lparr>flag_cpus := v\<rparr>)),
      (''mem'', int_value (\<lambda>v f. f\<lparr>flag_mem := v\<rparr>)),
      (''network-bandwidth'', float_value (\<lambda>v f. f\<lparr>flag_netBw := v\<rparr>)),
      (''disk-bandwidth'', int_value (\<lambda>v f. f\<lparr>flag_diskBw := v\<rparr>)),
      (''disk-iops'', int_value (\<lambda>v f. f\<lparr>flag_diskIOPS := v\<rparr>)),
      (''port'', port_value),
      (''from-snapshot'', string_value (\<lambda>v f. f\<lparr>flag_fromSnapshot := v\<rparr>)),
      (''firecracker'', string_value (\<lambda>v f. f\<lparr>flag_fcBin := v\<rparr>)),
      (''pasta'', string_value (\<lambda>v f. f\<lparr>flag_pastaBin := v\<rparr>)),
      (''detach'', Switch (\<lambda>b f. f\<lparr>flag_detach := b\<rparr>)),
      (''verbose'', Switch (\<lambda>b f. f\<lparr>flag_verbose := b\<rparr>))]"

definition start_config :: "env \<Rightarrow> start_flags \<Rightarrow> Config" where
  "start_config E f = zero_Config
     \<lparr> Name := flag_name f, Kernel := expandHome E (flag_kernel f),
       RootFS := expandHome E (flag_rootfs f), CPUs := flag_cpus f, Memory := flag_mem f,
       NetworkMbps := flag_netBw f, DiskMBps := flag_diskBw f, DiskIOPS := flag_diskIOPS f,
       Ports := flag_ports f, SnapshotID := flag_fromSnapshot f, FirecrackerBin := flag_fcBin f,
       PastaBin := flag_pastaBin f, Detach := flag_detach f,
       Stdout := (if flag_verbose f then Some (Writer 1) else None),
       Stderr := (if flag_verbose f then Some (Writer 2) else None) \<rparr>"

definition name_required :: err where
  "name_required = ErrMsg ''--name is required''"

text \<open>
  A goroutine waits for an interrupt and then asks the guest to shut down, once, while the command
  itself waits for the VM to end and removes its socket. The moment at which it comes to run, if
  it does before the command returns, is the argument \<open>i\<close>.
\<close>

datatype interrupt = Never | WhileWaiting | AfterExit | AfterRemoval

definition on_interrupt :: "env \<Rightarrow> VM \<Rightarrow> bool \<Rightarrow> world \<Rightarrow> world" where
  "on_interrupt E vm now w = (if now then snd (run_state (vm_Stop E vm) w) else w)"

definition await_exit :: "env \<Rightarrow> VM \<Rightarrow> interrupt \<Rightarrow> world \<Rightarrow> world option" where
  "await_exit E vm i w =
     map_option (\<lambda>(_, w).
         on_interrupt E vm (i = AfterRemoval)
           (snd (run_state (os_Remove E (vm_SocketPath vm)) (on_interrupt E vm (i = AfterExit) w))))
       (vm_Wait E vm (on_interrupt E vm (i = WhileWaiting) w))"

definition Start :: "env \<Rightarrow> start_flags \<Rightarrow> interrupt \<Rightarrow> world \<Rightarrow> ((err + unit) \<times> world) option" where
  "Start E f i w =
     (if flag_name f = [] then Some (Inl name_required, w)
      else
        (case run_state (Run E (start_config E f)) w of
           (Inl e, w) \<Rightarrow> Some (Inl e, w)
         | (Inr vm, w) \<Rightarrow>
             if flag_detach f then Some (run_state (WaitForSSH E vm 30000000000) w)
             else map_option (Pair (Inr ())) (await_exit E vm i w)))"

text \<open>A command ends the process while it reads its flags, or returns.\<close>

datatype outcome = Exits int | Returns "err + unit"

definition with_flag :: "string \<Rightarrow> err \<Rightarrow> string list \<Rightarrow> (string \<Rightarrow> unit go) \<Rightarrow> outcome prog" where
  "with_flag n absent args m =
     (case string_flag n [] args of
        Inl n \<Rightarrow> ret (Exits n)
      | Inr v \<Rightarrow> do { r \<leftarrow> (if v = [] then err absent else m v); ret (Returns r) })"

definition cli_Stop :: "env \<Rightarrow> string list \<Rightarrow> outcome prog" where
  "cli_Stop E args = with_flag ''name'' name_required args (StopVM E)"

definition cli_Rm :: "env \<Rightarrow> string list \<Rightarrow> outcome prog" where
  "cli_Rm E args = with_flag ''name'' name_required args (RemoveVM E)"

definition cli_Pause :: "env \<Rightarrow> string list \<Rightarrow> outcome prog" where
  "cli_Pause E args = with_flag ''name'' name_required args (PauseVM E)"

definition cli_Resume :: "env \<Rightarrow> string list \<Rightarrow> outcome prog" where
  "cli_Resume E args = with_flag ''name'' name_required args (ResumeVM E)"

text \<open>The time it took is printed, and the age of everything that is listed: the clock is read for it.\<close>

fun clock_reads :: "env \<Rightarrow> nat \<Rightarrow> unit prog" where
  "clock_reads E 0 = ret ()"
| "clock_reads E (Suc n) = do { time_Now E; clock_reads E n }"

definition snapshotCreate :: "env \<Rightarrow> string list \<Rightarrow> outcome prog" where
  "snapshotCreate E args = with_flag ''name'' name_required args
     (\<lambda>name. do { time_Now E; on_error (CreateSnapshot E name) err (\<lambda>_. do { time_Now E; ok () }) })"

definition snapshotDelete :: "env \<Rightarrow> string list \<Rightarrow> outcome prog" where
  "snapshotDelete E args = with_flag ''id'' (ErrMsg ''--id is required'') args (DeleteSnapshot E)"

definition snapshotList :: "env \<Rightarrow> outcome prog" where
  "snapshotList E = do {
     r \<leftarrow> on_error (ListSnapshots E) err (\<lambda>ss. do { clock_reads E (length ss); ok () });
     ret (Returns r) }"

definition cli_Snapshot :: "env \<Rightarrow> string list \<Rightarrow> outcome prog" where
  "cli_Snapshot E args =
     (case args of
        [] \<Rightarrow> snapshotCreate E args
      | a # rest \<Rightarrow>
          if a = ''ls'' then snapshotList E
          else if a = ''delete'' \<or> a = ''rm'' then snapshotDelete E rest
          else snapshotCreate E args)"

definition cli_List :: "env \<Rightarrow> outcome prog" where
  "cli_List E = do {
     r \<leftarrow> on_error (List_vms E) err (\<lambda>vms. do { clock_reads E (size vms); ok () });
     ret (Returns r) }"

text \<open>The start command, its flags read; it may not come to an end.\<close>

type_synonym ending = "world \<Rightarrow> (outcome \<times> world) option"

definition cli_Start :: "env \<Rightarrow> interrupt \<Rightarrow> string list \<Rightarrow> ending" where
  "cli_Start E i args w =
     (case parse_flags (map_of start_set) args start_defaults of
        Inl n \<Rightarrow> Some (Exits n, w)
      | Inr f \<Rightarrow> map_option (\<lambda>(r, w). (Returns r, w)) (Start E f i w))"

definition ends :: "outcome prog \<Rightarrow> ending" where
  "ends m w = Some (run_state m w)"

text \<open>The table of \<open>dispatch\<close>; \<open>version\<close> prints a line.\<close>

definition cmds :: "env \<Rightarrow> interrupt \<Rightarrow> (string \<times> (string list \<Rightarrow> ending)) list" where
  "cmds E i =
     [(''start'', cli_Start E i), (''stop'', \<lambda>args. ends (cli_Stop E args)),
      (''rm'', \<lambda>args. ends (cli_Rm E args)), (''pause'', \<lambda>args. ends (cli_Pause E args)),
      (''resume'', \<lambda>args. ends (cli_Resume E args)), (''snapshot'', \<lambda>args. ends (cli_Snapshot E args)),
      (''list'', \<lambda>_. ends (cli_List E)), (''ls'', \<lambda>_. ends (cli_List E)),
      (''version'', \<lambda>_. ends (ret (Returns (Inr ()))))]"

definition dispatch :: "env \<Rightarrow> interrupt \<Rightarrow> string list \<Rightarrow> ending" where
  "dispatch E i args =
     (case args of
        [] \<Rightarrow> ends (ret (Returns (Inl (ErrMsg ''no command specified''))))
      | c # rest \<Rightarrow>
          if c = ''help'' then ends (ret (Returns (Inr ())))
          else
            (case map_of (cmds E i) c of
               None \<Rightarrow> ends (ret (Returns (Inl (ErrMsg (''unknown command: '' @ c)))))
             | Some fn \<Rightarrow> fn rest))"

text \<open>The exit code of \<open>main\<close>.\<close>

fun exit_code :: "outcome \<Rightarrow> int" where
  "exit_code (Exits n) = n"
| "exit_code (Returns (Inl e)) = 1"
| "exit_code (Returns (Inr _)) = 0"

section \<open>Ports\<close>

lemma cut_one: "cut s [c] = Some (a, b) \<Longrightarrow> s = a @ [c] @ b \<and> c \<notin> set a"
proof (induction s arbitrary: a)
  case (Cons d s)
  show ?case
  proof (cases "d = c")
    case True
    with Cons.prems show ?thesis by (simp add: cut_def)
  next
    case False
    with Cons.prems obtain a' where "cut s [c] = Some (a', b)" "a = d # a'"
      by (auto simp: cut_def split: option.splits)
    with Cons.IH False show ?thesis by simp
  qed
qed (simp add: cut_def)

lemma no_colon_itoa: "CHR '':'' \<notin> set (itoa i)"
  by (simp add: itoa_def)

lemma atoi_itoa_range: "atoi (itoa i) = (if int64_range i then Some i else None)"
  by (simp add: atoi_def)

text \<open>C34: A port flag is read back as the two numbers it was written with, appended to the ports given so far;
  one that is not two 64-bit numbers around its first colon adds nothing.\<close>
theorem port_flag_round_trip:
  "portList_Set (itoa h @ '':'' @ itoa g) p =
     (if \<not> int64_range h then Inl (ErrMsg (''invalid host port '' @ quote (itoa h)))
      else if \<not> int64_range g then Inl (ErrMsg (''invalid guest port '' @ quote (itoa g)))
      else Inr (p @ [\<lparr> Host = h, Guest = g \<rparr>])) \<and>
   (case portList_Set val p of
      Inr q \<Rightarrow> (\<exists>host guest m. val = host @ '':'' @ guest \<and> CHR '':'' \<notin> set host \<and> q = p @ [m] \<and>
        atoi host = Some (Host m) \<and> atoi guest = Some (Guest m) \<and> int64_range (Host m) \<and> int64_range (Guest m))
    | Inl _ \<Rightarrow> True)"
proof -
  have "portList_Set (itoa h @ '':'' @ itoa g) p =
     (if \<not> int64_range h then Inl (ErrMsg (''invalid host port '' @ quote (itoa h)))
      else if \<not> int64_range g then Inl (ErrMsg (''invalid guest port '' @ quote (itoa g)))
      else Inr (p @ [\<lparr> Host = h, Guest = g \<rparr>]))"
    using cut_append [OF no_colon_itoa, of h "[]" "itoa g"] by (simp add: portList_Set_def atoi_itoa_range)
  moreover have "case portList_Set val p of
      Inr q \<Rightarrow> (\<exists>host guest m. val = host @ '':'' @ guest \<and> CHR '':'' \<notin> set host \<and> q = p @ [m] \<and>
        atoi host = Some (Host m) \<and> atoi guest = Some (Guest m) \<and> int64_range (Host m) \<and> int64_range (Guest m))
    | Inl _ \<Rightarrow> True"
  proof (cases "portList_Set val p")
    case (Inr q)
    then obtain host guest h g where c: "cut val '':'' = Some (host, guest)"
      and n: "atoi host = Some h" "atoi guest = Some g" and q: "q = p @ [\<lparr> Host = h, Guest = g \<rparr>]"
      by (auto simp: portList_Set_def split: option.splits)
    show ?thesis
      unfolding Inr sum.case
      by (intro exI [of _ host] exI [of _ guest] exI [of _ "\<lparr> Host = h, Guest = g \<rparr>"])
        (use cut_one [OF c] n q atoi_int64 in simp)
  qed simp
  ultimately show ?thesis by (rule conjI)
qed

section \<open>Starting\<close>

definition gives :: "('a \<Rightarrow> bool) \<Rightarrow> 'a go \<Rightarrow> bool" where
  "gives Q m \<longleftrightarrow> (\<forall>w a w'. run_state m w = (Inr a, w') \<longrightarrow> Q a)"

lemma givesD: "gives Q m \<Longrightarrow> run_state m w = (Inr a, w') \<Longrightarrow> Q a"
  unfolding gives_def by blast

lemma gives_intros:
  "Q a \<Longrightarrow> gives Q (ok a)" "gives Q (err e)" "\<And>m. (\<And>b. gives Q (k b)) \<Longrightarrow> gives Q (State_Monad.bind m k)"
  "\<And>m. (\<And>e. gives Q (h e)) \<Longrightarrow> (\<And>b. gives Q (l b)) \<Longrightarrow> gives Q (on_error m h l)"
  "(\<And>b. gives Q (l b)) \<Longrightarrow> gives Q (guarded c what n l)"
  "(x = None \<Longrightarrow> gives Q i) \<Longrightarrow> (\<And>b. x = Some b \<Longrightarrow> gives Q (j b)) \<Longrightarrow> gives Q (case x of None \<Rightarrow> i | Some b \<Rightarrow> j b)"
  by (auto simp: gives_def guarded_def run_simps split: prod.splits sum.splits option.splits)

text \<open>The VM a start returns is a child of the program, with the socket and port of its name.\<close>

definition own_vm :: "env \<Rightarrow> string \<Rightarrow> VM \<Rightarrow> bool" where
  "own_vm E name vm \<longleftrightarrow> vm_cmd vm \<noteq> None \<and> vm_Name vm = name \<and>
     vm_SocketPath vm = socket_path E name \<and> vm_Port vm = sshPort name \<and>
     vm_client vm = Some (NewClient (socket_path E name))"

lemma vm_network_port: "SSHPort (vm_network name snap) = sshPort name"
  by (simp add: vm_network_def deriveNetwork_def Let_def split: option.split)

lemma gives_run_configured: "gives (own_vm E (Name cfg)) (run_configured E cfg)"
proof -
  have start: "gives (own_vm E (Name cfg)) (started_vm E cfg (socket_path E (Name cfg)) pid c m (sshPort (Name cfg))
      (NewClient (socket_path E (Name cfg))) disk)" for cfg pid c m disk
    unfolding started_vm_def by (intro gives_intros) (simp add: own_vm_def)
  have launch: "gives (own_vm E (Name cfg)) (run_launch E cfg snap (socket_path E (Name cfg)) disk)" for cfg snap disk
    unfolding run_launch_def Let_def vm_network_port by (intro gives_intros start)
  show ?thesis
    unfolding run_configured_def Let_def
    using launch [where cfg = "with_snapshot_ports cfg snap" for snap]
    by (intro gives_intros) (simp add: socket_path_def)
qed

lemma gives_Run:
  assumes "Name cfg \<noteq> []"
  shows "gives (own_vm E (Name cfg)) (Run E cfg)"
  unfolding gives_def
proof (intro allI impI)
  fix w vm w'
  assume r: "run_state (Run E cfg) w = (Inr vm, w')"
  obtain d v where d: "run_state (setDefaults E cfg) w = (d, v)" by fastforce
  with r have "run_state (run_configured E d) v = (Inr vm, w')" by (simp add: Run_def run_monad)
  from givesD [OF gives_run_configured this]
  have "own_vm E (Name d) vm" .
  moreover have "Name d = Name cfg" using d assms by (auto simp: setDefaults_def run_simps)
  ultimately show "own_vm E (Name cfg) vm" by simp
qed

lemma port_found_last:
  "run_state (wait_for_port E port t) w = (Inr (), w') \<Longrightarrow>
   \<exists>es. trace w' = es @ [Dial (''localhost:'' @ itoa port)]"
proof -
  assume "run_state (wait_for_port E port t) w = (Inr (), w')"
  then have "port_answers E (''localhost:'' @ itoa port) (int (clock w) + t) (logged E Now w) = (True, w')"
    by (auto simp: run_wait_for_port split: prod.splits if_splits)
  from ssh_wait.found_by_probe [OF this] obtain v where
    "w' = logged E (Dial (''localhost:'' @ itoa port)) (logged E Now v)"
    by (metis snd_conv snd_dial_probe)
  then show ?thesis by simp
qed

text \<open>The request to shut down, if it is made.\<close>

definition stop_request :: "env \<Rightarrow> string \<Rightarrow> bool \<Rightarrow> event list" where
  "stop_request E name now =
     (if now then [Http (socket_path E name) ''PUT'' ''/actions''
        (json_Marshal (enc_Action \<lparr> ActionType = ''SendCtrlAltDel'' \<rparr>))] else [])"

lemma actions_url: "\<not> bad_url ''/actions''"
  by code_simp

lemma interrupt_trace:
  assumes "own_vm E name vm"
  shows "trace (on_interrupt E vm now w) = trace w @ stop_request E name now"
proof -
  let ?m = "http_do E (socket_path E name) ''PUT'' ''/actions'' (json_Marshal (enc_Action \<lparr> ActionType = ''SendCtrlAltDel'' \<rparr>))"
  have "snd (run_state (vm_Stop E vm) w) = snd (run_state ?m w)"
    using assms by (auto simp: own_vm_def vm_Stop_def StopInstance_def put_def actions_url run_simps
        split: prod.split sum.split)
  then show ?thesis by (simp add: on_interrupt_def stop_request_def)
qed

lemma await_exit_trace:
  assumes "own_vm E name vm"
  shows "case await_exit E vm i w of
     None \<Rightarrow> False
   | Some w' \<Rightarrow> \<exists>pid. trace w' = trace w @ stop_request E name (i = WhileWaiting) @ [WaitChild pid] @
       stop_request E name (i = AfterExit) @ [Remove (socket_path E name)] @ stop_request E name (i = AfterRemoval)"
proof -
  obtain pid where pid: "vm_cmd vm = Some pid" and sock: "vm_SocketPath vm = socket_path E name"
    using assms by (auto simp: own_vm_def)
  have remove: "trace (snd (run_state (os_Remove E p) v)) = trace v @ [Remove p]" for p v
    by (simp add: os_Remove_def)
  show ?thesis
    using pid sock
    by (auto simp: await_exit_def vm_Wait_def interrupt_trace [OF assms] remove split: prod.split)
      (metis trace_env(4) interrupt_trace [OF assms] snd_conv append.assoc append_Cons append_Nil)
qed

lemma start_command_lemma:
  "case Start E f i w of
     None \<Rightarrow> False
   | Some (Inl e, w') \<Rightarrow> (if flag_name f = [] then e = name_required \<and> w' = w else True)
   | Some (Inr _, w') \<Rightarrow> flag_name f \<noteq> [] \<and>
       (if flag_detach f then \<exists>es. trace w' = es @ [Dial (''localhost:'' @ itoa (sshPort (flag_name f)))]
        else \<exists>es pid. trace w' = es @ stop_request E (flag_name f) (i = WhileWaiting) @ [WaitChild pid] @
          stop_request E (flag_name f) (i = AfterExit) @ [Remove (socket_path E (flag_name f))] @
          stop_request E (flag_name f) (i = AfterRemoval))"
proof (cases "flag_name f = []")
  case False
  obtain r v where r: "run_state (Run E (start_config E f)) w = (r, v)" by fastforce
  show ?thesis
  proof (cases r)
    case (Inr vm)
    have "gives (own_vm E (flag_name f)) (Run E (start_config E f))"
      using gives_Run [of "start_config E f" E] False by (simp add: start_config_def)
    from givesD [OF this r [unfolded Inr]] have vm: "own_vm E (flag_name f) vm" .
    show ?thesis
    proof (cases "flag_detach f")
      case True
      obtain s u where s: "run_state (WaitForSSH E vm 30000000000) v = (s, u)" by fastforce
      have st: "Start E f i w = Some (s, u)" using False r Inr True s by (simp add: Start_def)
      show ?thesis
      proof (cases s)
        case (Inr x)
        then show ?thesis
          using port_found_last [of E "vm_Port vm" 30000000000 v u] s vm st False True
          by (simp add: WaitForSSH_def own_vm_def)
      qed (use st False in simp)
    next
      case d: False
      have st: "Start E f i w = map_option (Pair (Inr ())) (await_exit E vm i v)"
        using False r Inr d by (simp add: Start_def)
      show ?thesis
        using await_exit_trace [OF vm, where i = i and w = v] st d False by (cases "await_exit E vm i v") auto
    qed
  qed (use False r in \<open>simp add: Start_def\<close>)
qed (simp add: Start_def)


end
