(* ===== verification/Session.thy ===== *)
theory Session
  imports Direct Cli
begin

text \<open>
  Whole sessions: any sequence of the library's operations by one program. A session is a step
  relation on the world and the VMs the program has in hand, and what holds of every session is
  proved by induction over its steps.
\<close>

section \<open>Paths of the data directory\<close>

definition data_root :: "env \<Rightarrow> string list" where
  "data_root E = [home E, ''.local'', ''share'', ''knaller'']"

lemma data_root_last:
  "list_all plain_name cs \<Longrightarrow> \<exists>es d. data_root E @ cs = es @ [d] \<and> plain_name d"
  by (cases cs rule: rev_cases) (auto simp: data_root_def plain_name_def)

lemma data_root_snoc:
  assumes "list_all plain_name cs" and "plain_name c"
  shows "Join (data_root E @ cs @ [c]) = Join (data_root E @ cs) @ ''/'' @ c"
    and "Join [Join (data_root E @ cs), c] = Join (data_root E @ cs @ [c])"
proof -
  obtain es d where d: "data_root E @ cs = es @ [d]" "plain_name d"
    using data_root_last [OF assms(1)] by blast
  have e: "data_root E @ cs @ [c] = es @ [d, c]" using d(1) by simp
  show "Join (data_root E @ cs @ [c]) = Join (data_root E @ cs) @ ''/'' @ c"
    unfolding e d(1) by (rule Join_snoc_plain [OF d(2) assms(2)])
  show "Join [Join (data_root E @ cs), c] = Join (data_root E @ cs @ [c])"
    unfolding e d(1) by (rule Join_Join) (use d(2) in \<open>simp add: plain_name_def\<close>)
qed

lemma data_path:
  "list_all plain_name cs \<Longrightarrow> Join (data_root E @ cs) = dataDir E @ concat (map (\<lambda>c. ''/'' @ c) cs)"
proof (induction cs rule: rev_induct)
  case (snoc c cs)
  then show ?case using data_root_snoc(1) [of cs c E] by simp
qed (simp add: dataDir_def data_root_def)

text \<open>A path of plain names in the data directory.\<close>

definition data_file :: "env \<Rightarrow> string \<Rightarrow> bool" where
  "data_file E p \<longleftrightarrow> (\<exists>cs. list_all plain_name cs \<and> p = Join (data_root E @ cs))"

lemma data_file_below: "data_file E p \<Longrightarrow> below (dataDir E) p"
proof -
  assume "data_file E p"
  then obtain cs where cs: "list_all plain_name cs" "p = Join (data_root E @ cs)"
    by (auto simp: data_file_def)
  show ?thesis
  proof (cases cs)
    case Nil
    with cs show ?thesis by (simp add: below_def dataDir_def data_root_def)
  next
    case (Cons c ds)
    have "dataDir E \<noteq> ''/''"
      using dataDir_parts(1) [of E] by (auto simp: append_eq_Cons_conv)
    moreover have "p = dataDir E @ ''/'' @ (c @ concat (map (\<lambda>c. ''/'' @ c) ds))"
      using data_path [OF cs(1), of E] cs(2) Cons by simp
    moreover have "Clean p = p" unfolding cs(2) by (rule Clean_Join) (simp_all add: data_root_def)
    ultimately show ?thesis by (intro below_prefix) simp_all
  qed
qed

lemma data_file_Join: "data_file E p \<Longrightarrow> plain_name c \<Longrightarrow> data_file E (Join [p, c])"
proof -
  assume "data_file E p" and c: "plain_name c"
  then obtain cs where cs: "list_all plain_name cs" "p = Join (data_root E @ cs)"
    by (auto simp: data_file_def)
  with c data_root_snoc(2) [OF cs(1) c, of E] show ?thesis
    unfolding data_file_def by (intro exI [of _ "cs @ [c]"]) simp
qed

lemma plain_names:
  "plain_name n \<Longrightarrow> plain_name (n @ ''.socket'')" "plain_name ''vms''" "plain_name ''sockets''"
  "plain_name ''snapshots''" "plain_name ''rootfs.ext4''" "plain_name ''ports.json''"
  "plain_name ''metadata.json''" "plain_name ''firecracker.log''"
  by (auto simp: plain_name_def)

lemma data_files:
  "data_file E (socketDirectory E)" "data_file E (snapshotBaseDir E)"
  "plain_name n \<Longrightarrow> data_file E (vmDataDir E n)"
  "plain_name n \<Longrightarrow> data_file E (socket_path E n)"
  "plain_name n \<Longrightarrow> data_file E (rootfs_path E n)"
  "plain_name n \<Longrightarrow> data_file E (ports_path E n)"
  "plain_name i \<Longrightarrow> data_file E (snapshotDir E i)"
proof -
  have one: "data_file E (Join (data_root E @ [c]))" if "plain_name c" for c
    using that unfolding data_file_def by (intro exI [of _ "[c]"]) simp
  show s: "data_file E (socketDirectory E)" and b: "data_file E (snapshotBaseDir E)"
    using one [OF plain_names(3)] one [OF plain_names(4)]
    by (simp_all add: socketDirectory_def snapshotBaseDir_def data_root_def)
  show v: "data_file E (vmDataDir E n)" if "plain_name n" for n
    using that plain_names(2) unfolding data_file_def
    by (intro exI [of _ "[''vms'', n]"]) (simp add: vmDataDir_def data_root_def)
  show "plain_name n \<Longrightarrow> data_file E (socket_path E n)"
    unfolding socket_path_def by (intro data_file_Join s plain_names)
  show "plain_name n \<Longrightarrow> data_file E (rootfs_path E n)" "plain_name n \<Longrightarrow> data_file E (ports_path E n)"
    unfolding rootfs_path_def ports_path_def by (intro data_file_Join v plain_names; assumption)+
  show "plain_name i \<Longrightarrow> data_file E (snapshotDir E i)"
    unfolding snapshotDir_def by (rule data_file_Join [OF b])
qed

section \<open>Confined calls\<close>

definition disk_tools :: "string set" where
  "disk_tools = {''cp'', ''e2fsck'', ''resize2fs''}"

text \<open>
  The paths a call may change are below the data directory or the cgroup file system, and the commands
  are those the program knows, the disk tools among them with such a path as the one they write.
\<close>

definition writable :: "env \<Rightarrow> string \<Rightarrow> bool" where
  "writable E p \<longleftrightarrow> below (dataDir E) p \<or> below ''/sys/fs/cgroup'' p"

fun confined :: "env \<Rightarrow> event \<Rightarrow> bool" where
  "confined E (WriteFile p d) = writable E p"
| "confined E (MkdirAll p) = writable E p"
| "confined E (Remove p) = writable E p"
| "confined E (RemoveAll p) = writable E p"
| "confined E (Truncate p n) = writable E p"
| "confined E (CreateTrunc p) = writable E p"
| "confined E (OpenWrite p) = (p = ''/dev/null'')"
| "confined E (Exec a) =
     (hd a \<in> net_tools \<or> a = [''resolvectl'', ''dns''] \<or> hd a \<in> disk_tools \<and> writable E (last a))"
| "confined E _ = True"

lemma writable_data: "data_file E p \<Longrightarrow> writable E p"
  by (simp add: writable_def data_file_below)

lemmas writable_files = data_files [THEN writable_data]

lemma writable_log: "plain_name n \<Longrightarrow> writable E (Join [vmDataDir E n, ''firecracker.log''])"
  by (intro writable_data data_file_Join data_files plain_names)

lemma confined_disk: "plain_name name \<Longrightarrow> disk_call E name src sz ev \<Longrightarrow> confined E ev"
  by (auto simp: disk_call_def disk_tools_def writable_files)

lemma calls_confined_disk:
  assumes "plain_name name"
  shows "calls (confined E) (prepareDisk E name base sz)"
    and "calls (confined E) (prepareDiskFromSnapshot E name i)"
  by (rule calls_mono [OF calls_prepareDisk], erule confined_disk [OF assms])
    (rule calls_mono [OF calls_prepareDiskFromSnapshot], erule confined_disk [OF assms])

text \<open>What is known of every result of a step can be used in what follows.\<close>

lemma calls_bind_known:
  assumes "calls P m" and "\<And>w. R (fst (run_state m w))" and "\<And>a. R a \<Longrightarrow> calls P (f a)"
  shows "calls P (State_Monad.bind m f)"
  unfolding calls_def
proof
  fix w
  obtain a v where a: "run_state m w = (a, v)" by fastforce
  then have "R a" using assms(2) [of w] by simp
  obtain b u where b: "run_state (f a) v = (b, u)" by fastforce
  obtain es where es: "trace v = trace w @ es" "list_all P es" using callsE [OF assms(1) a] .
  obtain fs where fs: "trace u = trace v @ fs" "list_all P fs" using callsE [OF assms(3) [OF \<open>R a\<close>] b] .
  show "\<exists>es. trace (snd (run_state (State_Monad.bind m f) w)) = trace w @ es \<and> list_all P es"
    using es fs by (intro exI [of _ "es @ fs"]) (simp add: run_monad a b)
qed

section \<open>Starting\<close>

definition plain_or_empty :: "string \<Rightarrow> bool" where
  "plain_or_empty s \<longleftrightarrow> s = [] \<or> plain_name s"

lemma hex_plain: "c \<in> set (hex_encode bs) \<Longrightarrow> c \<noteq> CHR ''/'' \<and> c \<noteq> CHR ''.''"
  by (drule hex_encode_hex) (auto simp: is_hex_lower_def less_eq_char_def)

lemma plain_hex: "bs \<noteq> [] \<Longrightarrow> plain_name (hex_encode bs)"
proof -
  assume "bs \<noteq> []"
  then have "hex_encode bs \<noteq> []" by (metis length_0_conv length_hex_encode mult_is_0 zero_neq_numeral)
  with hex_plain [of _ bs] show ?thesis
    unfolding plain_name_def by (metis list.set_intros(1))
qed

lemma plain_setDefaults:
  "plain_or_empty (Name cfg) \<Longrightarrow> plain_name (Name (fst (run_state (setDefaults E cfg) w)))"
  by (auto simp: setDefaults_def randomName_def rand_Read_def plain_or_empty_def run_monad intro: plain_hex)

lemma setDefaults_keeps:
  "EscapeCgroupSlice (fst (run_state (setDefaults E cfg) w)) = EscapeCgroupSlice cfg"
  by (simp add: setDefaults_def run_monad split: prod.split)

lemma calls_confined_boot:
  assumes "calls (confined E) cleanup"
  shows "calls (confined E) (run_boot E cfg nc cleanup disk client)"
    and "calls (confined E) (direct_boot E cfg nc cleanup disk client)"
  unfolding run_boot_def direct_boot_def by (intro extends_intros calls_boot_calls assms; simp)+

lemma calls_confined_run_launch:
  assumes "plain_name (Name cfg)"
  shows "calls (confined E) (run_launch E cfg snap (socket_path E (Name cfg)) disk)"
proof -
  have cleanup: "calls (confined E) (run_cleanup E (socket_path E (Name cfg)) (Name cfg) child)" for child
    by (intro extends_intros) (simp_all add: writable_files assms)
  show ?thesis
    unfolding run_launch_def Let_def guarded_def
    by (intro extends_intros calls_boot_calls calls_confined_boot cleanup) (simp_all add: writable_files assms)
qed

lemma calls_confined_run_configured:
  assumes "plain_name (Name cfg)"
  shows "calls (confined E) (run_configured E cfg)"
proof -
  have launch: "calls (confined E)
      (run_launch E (with_snapshot_ports cfg snap) snap (socket_path E (Name cfg)) disk)" for snap disk
    using calls_confined_run_launch [of "with_snapshot_ports cfg snap"] assms by simp
  show ?thesis
    unfolding run_configured_def Let_def snapshot_ports_simps socket_path_def [symmetric]
    by (intro extends_intros calls_confined_disk launch assms) (simp_all add: writable_files assms)
qed

lemma calls_confined_Run: "plain_or_empty (Name cfg) \<Longrightarrow> calls (confined E) (Run E cfg)"
  unfolding Run_def
  by (rule calls_bind_known [where R = "\<lambda>d. plain_name (Name d)"])
    (intro extends_intros, simp, erule plain_setDefaults, erule calls_confined_run_configured)

section \<open>Starting in direct mode\<close>

lemma cgroup_root: "Clean ''/sys/fs/cgroup'' = ''/sys/fs/cgroup''" "path_comps ''/sys/fs/cgroup'' \<noteq> []"
  by (code_simp, code_simp)

lemma cgroup_Join:
  assumes "below ''/sys/fs/cgroup'' p" and p: "Clean p = p" "path_comps p \<noteq> []" and c: "plain_name c"
  shows "Join [p, c] = p @ ''/'' @ c \<and> below ''/sys/fs/cgroup'' (p @ ''/'' @ c) \<and>
    Clean (p @ ''/'' @ c) = p @ ''/'' @ c \<and> path_comps (p @ ''/'' @ c) \<noteq> []"
proof -
  have ne: "p \<noteq> []" using p(1) by (metis Clean_not_Nil)
  have clean: "Clean (p @ ''/'' @ c) = p @ ''/'' @ c"
    using Clean_append_plain [OF ne c] p by simp
  have comps: "path_comps (p @ ''/'' @ c) = path_comps p @ [c]"
    by (rule path_comps_append_plain [OF ne c])
  have join: "Join [p, c] = p @ ''/'' @ c" using ne c clean by (simp add: Join_def)
  obtain q where "p = ''/sys/fs/cgroup'' \<or> p = ''/sys/fs/cgroup/'' @ q"
    using assms(1) p(1) cgroup_root(1) by (auto simp: below_def has_prefix_iff)
  then obtain q where "p @ ''/'' @ c = ''/sys/fs/cgroup'' @ ''/'' @ q" by force
  then have "below ''/sys/fs/cgroup'' (p @ ''/'' @ c)"
    using below_prefix [OF cgroup_root(1) clean] by simp
  with join clean comps show ?thesis by simp
qed

lemma writable_cgroup:
  assumes "plain_name s"
  shows "writable E (Join [''/sys/fs/cgroup'', s])" "writable E (Join [Join [''/sys/fs/cgroup'', s], ''cgroup.procs''])"
proof -
  have root: "below ''/sys/fs/cgroup'' ''/sys/fs/cgroup''" by (simp add: below_def)
  note dir = cgroup_Join [OF root cgroup_root assms]
  have "plain_name ''cgroup.procs''" by (simp add: plain_name_def)
  note procs = cgroup_Join [OF dir [THEN conjunct2, THEN conjunct1]
      dir [THEN conjunct2, THEN conjunct2, THEN conjunct1] dir [THEN conjunct2, THEN conjunct2, THEN conjunct2] this]
  show "writable E (Join [''/sys/fs/cgroup'', s])"
    using dir by (simp add: writable_def)
  show "writable E (Join [Join [''/sys/fs/cgroup'', s], ''cgroup.procs''])"
    using dir procs by (simp add: writable_def)
qed

definition plain_direct :: "Config \<Rightarrow> bool" where
  "plain_direct cfg \<longleftrightarrow> plain_name (Name cfg) \<and> plain_or_empty (EscapeCgroupSlice cfg)"

lemma calls_confined_direct_cleanup:
  "plain_name (Name cfg) \<Longrightarrow> calls (confined E) (direct_cleanup E cfg (socket_path E (Name cfg)))"
  unfolding direct_cleanup_def remove_own_disk_def
  by (intro extends_intros calls_teardown) (simp_all add: writable_files)

lemma calls_confined_escape:
  "plain_or_empty (EscapeCgroupSlice cfg) \<Longrightarrow> calls (confined E) (escape_cgroup E cfg pid)"
  unfolding escape_cgroup_def
  by (cases "EscapeCgroupSlice cfg = []")
    (simp add: extends_intros, simp, intro extends_intros, simp_all add: plain_or_empty_def writable_cgroup)

lemma calls_confined_direct_launch:
  assumes "plain_direct cfg"
  shows "calls (confined E) (direct_launch E cfg snap (socket_path E (Name cfg)) disk)"
proof -
  have n: "plain_name (Name cfg)" and s: "plain_or_empty (EscapeCgroupSlice cfg)"
    using assms by (simp_all add: plain_direct_def)
  have kill: "calls (confined E) (do { proc_Kill E pid; direct_cleanup E cfg (socket_path E (Name cfg)) })" for pid
    by (intro extends_intros calls_confined_direct_cleanup [OF n]) simp
  show ?thesis
    unfolding direct_launch_def Let_def open_log_def guarded_def
    by (intro extends_intros calls_boot_calls calls_confined_boot kill calls_confined_escape
        calls_confined_direct_cleanup n s) (simp_all add: writable_files writable_log n)
qed

lemma calls_confined_direct_configured:
  assumes "plain_direct cfg"
  shows "calls (confined E) (direct_configured E cfg)"
proof -
  have n: "plain_name (Name cfg)" using assms by (simp add: plain_direct_def)
  have p: "plain_direct (with_snapshot_ports cfg snap)" for snap using assms by (simp add: plain_direct_def)
  have launch: "calls (confined E)
      (direct_launch E (with_snapshot_ports cfg snap) snap (socket_path E (Name cfg)) disk)" for snap disk
    using calls_confined_direct_launch [OF p, where snap = snap] by simp
  show ?thesis
    unfolding direct_configured_def Let_def guarded_def direct_disk_def remove_own_disk_def
      snapshot_ports_simps socket_path_def [symmetric]
    by (intro extends_intros calls_confined_disk calls_setupBoxNetns launch n) (simp_all add: writable_files n)
qed

lemma calls_confined_RunDirect:
  assumes "plain_or_empty (Name cfg)" and "plain_or_empty (EscapeCgroupSlice cfg)"
  shows "calls (confined E) (RunDirect E cfg)"
  unfolding RunDirect_def
  by (rule calls_bind_known [where R = plain_direct])
    (intro extends_intros, simp, simp add: plain_direct_def plain_setDefaults setDefaults_keeps assms,
      erule calls_confined_direct_configured)

section \<open>The other operations\<close>

lemma plain_snapshotID: "plain_name (fst (run_state (snapshotID E) w))"
proof -
  obtain b v where b: "run_state (rand_Read E 4) w = (b, v)" by fastforce
  have "CHR ''/'' \<notin> set (hex_encode b)" using hex_plain [of _ b] by blast
  then show ?thesis using b by (simp add: snapshotID_def run_monad plain_name_def)
qed

lemma calls_confined_paused:
  assumes "plain_name i"
  shows "calls (confined E) (snapshot_paused E c i (snapshotDir E i) n v)"
    and "(\<And>h d. hook = Some h \<Longrightarrow> calls (confined E) (h d)) \<Longrightarrow>
      calls (confined E) (raw_paused E c i (snapshotDir E i) n v hook)"
proof -
  have w: "writable E (snapshotDir E i)" "writable E (Join [snapshotDir E i, ''metadata.json''])"
    by (intro writable_data data_file_Join data_files plain_names assms)+
  show "calls (confined E) (snapshot_paused E c i (snapshotDir E i) n v)"
    unfolding snapshot_paused_def client_ops by (intro extends_intros) (simp_all add: w)
  show "calls (confined E) (raw_paused E c i (snapshotDir E i) n v hook)"
    if "\<And>h d. hook = Some h \<Longrightarrow> calls (confined E) (h d)"
    unfolding raw_paused_def client_ops by (intro extends_intros that) (simp_all add: w)
qed

lemma calls_confined_CreateSnapshot: "calls (confined E) (CreateSnapshot E n)"
proof -
  have w: "writable E (snapshotDir E i)" "writable E (Join [snapshotDir E i, ''rootfs.ext4''])" if "plain_name i" for i
    using that by (intro writable_data data_file_Join data_files plain_names; assumption)+
  show ?thesis
    unfolding CreateSnapshot_def Let_def client_ops
    by (intro extends_intros calls_bind_known [where R = plain_name and m = "snapshotID E"]
        plain_snapshotID calls_confined_paused) (simp_all add: w disk_tools_def)
qed

lemma calls_confined_CreateSnapshotRaw:
  assumes "\<And>h d. hook = Some h \<Longrightarrow> calls (confined E) (h d)"
  shows "calls (confined E) (CreateSnapshotRaw E n hook)"
proof -
  have w: "writable E (snapshotDir E i)" if "plain_name i" for i
    using that by (intro writable_data data_files)
  have paused: "calls (confined E) (raw_paused E c i (snapshotDir E i) n v hook)" if "plain_name i" for c i v
    by (rule calls_confined_paused(2) [OF that]) (erule assms)
  show ?thesis
    unfolding CreateSnapshotRaw_def Let_def client_ops
    by (intro extends_intros calls_bind_known [where R = plain_name and m = "snapshotID E"]
        plain_snapshotID paused) (simp_all add: w)
qed

lemma calls_confined_readers:
  "calls (confined E) (GetSnapshot E i)" "calls (confined E) (ListSnapshots E)"
  "calls (confined E) (WaitForSSH E vm t)" "calls (confined E) (vm_Kill E vm)" "calls (confined E) (vm_Stop E vm)"
  "calls (confined E) (StopVM E n)" "calls (confined E) (PauseVM E n)" "calls (confined E) (ResumeVM E n)"
  "calls (confined E) (AdoptVM E n sock pid)"
proof -
  have scan: "calls (confined E) (scan_snapshots E dir es)" for dir es
    by (induction E dir es rule: scan_snapshots.induct) (auto intro!: extends_intros)
  show "calls (confined E) (GetSnapshot E i)"
    unfolding GetSnapshot_def Let_def by (intro extends_intros) simp
  show "calls (confined E) (ListSnapshots E)"
    unfolding ListSnapshots_def Let_def by (intro extends_intros scan) simp
  show "calls (confined E) (WaitForSSH E vm t)" unfolding WaitForSSH_def by (intro extends_intros) simp_all
  show "calls (confined E) (vm_Kill E vm)" unfolding vm_Kill_def by (intro extends_intros) simp_all
  show "calls (confined E) (vm_Stop E vm)" unfolding vm_Stop_def client_ops by (intro extends_intros) simp_all
  show "calls (confined E) (StopVM E n)" "calls (confined E) (PauseVM E n)" "calls (confined E) (ResumeVM E n)"
    unfolding StopVM_def PauseVM_def ResumeVM_def Let_def client_ops by (intro extends_intros; simp)+
  show "calls (confined E) (AdoptVM E n sock pid)"
    unfolding AdoptVM_def Let_def client_ops by (intro extends_intros) simp_all
qed

lemma calls_confined_writers:
  "plain_name i \<Longrightarrow> calls (confined E) (DeleteSnapshot E i)"
  "plain_name n \<Longrightarrow> calls (confined E) (RemoveVM E n)"
  "plain_name (vm_Name vm) \<Longrightarrow> vm_SocketPath vm = socket_path E (vm_Name vm) \<Longrightarrow>
   calls (confined E) (vm_Cleanup E vm)"
proof -
  show "calls (confined E) (DeleteSnapshot E i)" if "plain_name i"
    unfolding DeleteSnapshot_def Let_def by (intro extends_intros) (simp_all add: writable_files that)
  show "calls (confined E) (RemoveVM E n)" if "plain_name n"
    unfolding RemoveVM_def Let_def client_ops socket_path_def [symmetric]
    by (intro extends_intros) (simp_all add: writable_files that)
  show "calls (confined E) (vm_Cleanup E vm)"
    if "plain_name (vm_Name vm)" "vm_SocketPath vm = socket_path E (vm_Name vm)"
    unfolding vm_Cleanup_def Let_def that(2) by (intro extends_intros) (simp_all add: writable_files that(1))
qed

lemma calls_confined_List: "calls (confined E) (List_vms E)"
proof -
  have pid: "calls (confined E) (scan_proc E sock es)" for E sock es
    by (induction E sock es rule: scan_proc.induct) (auto intro!: extends_intros)
  have vm: "calls (confined E) (running_vm E n sock info)" for E n sock info
    unfolding running_vm_def findFirecrackerPID_def Let_def client_ops
    by (intro extends_intros pid) simp_all
  have sockets: "calls (confined E) (scan_sockets E es seen)" for es seen
  proof (induction E es seen rule: scan_sockets.induct)
    case (2 E entry is_dir entries seen)
    have "calls (confined E) (GetInfo E (NewClient sock))" for sock
      unfolding client_ops by (intro extends_intros) simp
    moreover have "calls (confined E) (running_vm E n sock info)" for n sock info
      by (rule vm)
    ultimately show ?case using 2 by (auto simp: Let_def intro!: extends_intros)
  qed (simp add: extends_intros)
  have data: "calls (confined E) (scan_data E es seen)" for es seen
    by (induction E es seen rule: scan_data.induct) (auto intro!: extends_intros)
  have dir: "calls (confined E) (dir_entries E p)" for p
    unfolding dir_entries_def by (intro extends_intros) simp
  show ?thesis
    unfolding List_vms_def Let_def by (intro extends_intros sockets data dir)
qed

section \<open>The VMs in hand\<close>

text \<open>A VM whose socket is where its name says.\<close>

definition placed :: "env \<Rightarrow> VM \<Rightarrow> bool" where
  "placed E vm \<longleftrightarrow> vm_SocketPath vm = socket_path E (vm_Name vm)"

lemma own_placed: "own_vm E n vm \<Longrightarrow> placed E vm"
  by (simp add: own_vm_def placed_def)

lemma gives_weaken: "gives Q m \<Longrightarrow> (\<And>a. Q a \<Longrightarrow> R a) \<Longrightarrow> gives R m"
  unfolding gives_def by blast

lemma placed_started:
  "gives (placed E) (started_vm E cfg (socket_path E (Name cfg)) pid c m p client disk)"
  unfolding started_vm_def by (intro gives_intros) (simp add: placed_def)

lemma gives_placed_Run: "gives (placed E) (Run E cfg)"
  unfolding Run_def by (intro gives_intros gives_weaken [OF gives_run_configured own_placed])

lemma gives_placed_RunDirect: "gives (placed E) (RunDirect E cfg)"
proof -
  have launch: "gives (placed E) (direct_launch E cfg snap (socket_path E (Name cfg)) disk)" for cfg snap disk
    unfolding direct_launch_def Let_def by (intro gives_intros placed_started)
  have "gives (placed E) (direct_configured E cfg)" for cfg
    unfolding direct_configured_def Let_def
    using launch [where cfg = "with_snapshot_ports cfg snap" for snap]
    by (intro gives_intros) (simp add: socket_path_def)
  then show ?thesis unfolding RunDirect_def by (intro gives_intros)
qed

lemma gives_placed_AdoptVM: "gives (placed E) (AdoptVM E n (socket_path E n) pid)"
  unfolding AdoptVM_def Let_def
  by (cases "pid \<le> 0") (simp add: gives_intros, simp, intro gives_intros, simp add: placed_def)

definition placed_map :: "env \<Rightarrow> (string \<times> VM) list \<Rightarrow> bool" where
  "placed_map E seen \<longleftrightarrow> (\<forall>(n, vm) \<in> set seen. placed E vm)"

lemma placed_update: "placed_map E seen \<Longrightarrow> placed E vm \<Longrightarrow> placed_map E (AList.update n vm seen)"
  by (induction seen) (auto simp: placed_map_def)

lemma placed_running_vm:
  "run_state (running_vm E n sock info) w = (vm, w') \<Longrightarrow> vm_Name vm = n \<and> vm_SocketPath vm = sock"
  by (auto simp: running_vm_def Let_def run_simps split: prod.splits sum.splits)

lemma placed_scan_sockets:
  "run_state (scan_sockets E entries seen) w = (seen', w') \<Longrightarrow> placed_map E seen \<Longrightarrow> placed_map E seen'"
proof (induction E entries seen arbitrary: w rule: scan_sockets.induct)
  case (2 E entry is_dir entries seen)
  let ?name = "trim_suffix entry ''.socket''" and ?sock = "Join [socketDirectory E, entry]"
  show ?case
  proof (cases "has_suffix entry ''.socket''")
    case True
    obtain r v where r: "run_state (GetInfo E (NewClient ?sock)) w = (r, v)" by fastforce
    show ?thesis
    proof (cases r)
      case (Inl e)
      with True r 2 show ?thesis by (simp add: Let_def run_on_error)
    next
      case (Inr info)
      obtain vm u where vm: "run_state (running_vm E ?name ?sock info) v = (vm, u)" by fastforce
      have "entry = ?name @ ''.socket''" using True by (auto simp: has_suffix_iff)
      then have "placed E vm" using placed_running_vm [OF vm] by (simp add: placed_def socket_path_def)
      moreover have "run_state (scan_sockets E entries (AList.update ?name vm seen)) u = (seen', w')"
        using Inr True r 2(4) vm by (simp add: Let_def run_simps)
      ultimately show ?thesis using 2(3) 2(5) True placed_update by blast
    qed
  qed (use 2 in simp)
qed (simp add: run_simps)

lemma placed_scan_data:
  "run_state (scan_data E dirs seen) w = (seen', w') \<Longrightarrow> placed_map E seen \<Longrightarrow> placed_map E seen'"
proof (induction E dirs seen arbitrary: w rule: scan_data.induct)
  case (2 E name is_dir dirs seen)
  have "placed E (stopped_vm E name t)" for t by (simp add: placed_def stopped_vm_def socket_path_def)
  with 2 placed_update show ?case by (fastforce simp: run_simps split: if_splits prod.splits)
qed (simp add: run_simps)

lemma gives_placed_List: "gives (\<lambda>vms. \<forall>vm \<in># vms. placed E vm) (List_vms E)"
  unfolding gives_def
proof (intro allI impI)
  fix w vms w'
  assume "run_state (List_vms E) w = (Inr vms, w')"
  then obtain sockets w1 seen w2 dirs w3 seen' where
    s: "run_state (scan_sockets E sockets []) w1 = (seen, w2)"
    "run_state (scan_data E dirs seen) w3 = (seen', w')" and vms: "vms = mset (map snd seen')"
    by (auto simp: List_vms_def run_simps split: prod.splits sum.splits)
  then have "placed_map E seen'" using placed_scan_sockets placed_scan_data by (metis list.set(1) empty_iff placed_map_def)
  with vms show "\<forall>vm \<in># vms. placed E vm" by (auto simp: placed_map_def)
qed

section \<open>Sessions\<close>

text \<open>
  The operations a program calls, with \<open>hook\<close> the function that runs while a raw snapshot holds the VM.
\<close>

datatype action =
    Do_Run Config | Do_RunDirect Config | Do_Adopt string int | Do_List
  | Do_WaitForSSH VM int | Do_Kill VM | Do_Stop VM | Do_Cleanup VM
  | Do_Remove string | Do_StopVM string | Do_PauseVM string | Do_ResumeVM string
  | Do_Snapshot string | Do_SnapshotRaw string "(string \<Rightarrow> unit go) option"
  | Do_DeleteSnapshot string | Do_GetSnapshot string | Do_ListSnapshots
  | Do_Teardown string string

fun new_vm :: "err + VM \<Rightarrow> VM set" where
  "new_vm (Inr vm) = {vm}"
| "new_vm (Inl e) = {}"

text \<open>What an operation does, and the VMs it puts in the program's hand.\<close>

fun perform :: "env \<Rightarrow> action \<Rightarrow> VM set prog" where
  "perform E (Do_Run cfg) = do { r \<leftarrow> Run E cfg; ret (new_vm r) }"
| "perform E (Do_RunDirect cfg) = do { r \<leftarrow> RunDirect E cfg; ret (new_vm r) }"
| "perform E (Do_Adopt n pid) = do { r \<leftarrow> AdoptVM E n (socket_path E n) pid; ret (new_vm r) }"
| "perform E Do_List = do { r \<leftarrow> List_vms E; ret (case r of Inl _ \<Rightarrow> {} | Inr vms \<Rightarrow> set_mset vms) }"
| "perform E (Do_WaitForSSH vm t) = do { WaitForSSH E vm t; ret {} }"
| "perform E (Do_Kill vm) = do { vm_Kill E vm; ret {} }"
| "perform E (Do_Stop vm) = do { vm_Stop E vm; ret {} }"
| "perform E (Do_Cleanup vm) = do { vm_Cleanup E vm; ret {} }"
| "perform E (Do_Remove n) = do { RemoveVM E n; ret {} }"
| "perform E (Do_StopVM n) = do { StopVM E n; ret {} }"
| "perform E (Do_PauseVM n) = do { PauseVM E n; ret {} }"
| "perform E (Do_ResumeVM n) = do { ResumeVM E n; ret {} }"
| "perform E (Do_Snapshot n) = do { CreateSnapshot E n; ret {} }"
| "perform E (Do_SnapshotRaw n hook) = do { CreateSnapshotRaw E n hook; ret {} }"
| "perform E (Do_DeleteSnapshot i) = do { DeleteSnapshot E i; ret {} }"
| "perform E (Do_GetSnapshot i) = do { GetSnapshot E i; ret {} }"
| "perform E Do_ListSnapshots = do { ListSnapshots E; ret {} }"
| "perform E (Do_Teardown netns vethHost) = do { TeardownBoxNetns E netns vethHost; ret {} }"

text \<open>
  What the caller has to see to, since the program does not: names and identifiers that enter a path
  are plain, a hook stays within bounds itself, and a VM is one in hand.
\<close>

fun allowed :: "env \<Rightarrow> VM set \<Rightarrow> action \<Rightarrow> bool" where
  "allowed E H (Do_Run cfg) = plain_or_empty (Name cfg)"
| "allowed E H (Do_RunDirect cfg) = (plain_or_empty (Name cfg) \<and> plain_or_empty (EscapeCgroupSlice cfg))"
| "allowed E H (Do_WaitForSSH vm t) = (vm \<in> H)"
| "allowed E H (Do_Kill vm) = (vm \<in> H)"
| "allowed E H (Do_Stop vm) = (vm \<in> H)"
| "allowed E H (Do_Cleanup vm) = (vm \<in> H \<and> plain_name (vm_Name vm))"
| "allowed E H (Do_Remove n) = plain_name n"
| "allowed E H (Do_DeleteSnapshot i) = plain_name i"
| "allowed E H (Do_SnapshotRaw n hook) = (\<forall>h d. hook = Some h \<longrightarrow> calls (confined E) (h d))"
| "allowed E H _ = True"

inductive session :: "env \<Rightarrow> world \<Rightarrow> world \<Rightarrow> VM set \<Rightarrow> bool" for E :: env and w0 :: world where
  session_start: "session E w0 w0 {}"
| session_step: "session E w0 w H \<Longrightarrow> allowed E H a \<Longrightarrow> run_state (perform E a) w = (vs, w') \<Longrightarrow>
    session E w0 w' (H \<union> vs)"
| session_wait: "session E w0 w H \<Longrightarrow> vm \<in> H \<Longrightarrow> vm_Wait E vm w = Some (r, w') \<Longrightarrow> session E w0 w' H"

lemma calls_perform:
  assumes "allowed E H a" and "\<forall>vm \<in> H. placed E vm"
  shows "calls (confined E) (perform E a)"
proof (cases a)
  case (Do_SnapshotRaw n hook)
  with assms show ?thesis
    using calls_confined_CreateSnapshotRaw [of hook E n] by (auto intro!: extends_intros)
next
  case (Do_Cleanup vm)
  with assms have "calls (confined E) (vm_Cleanup E vm)"
    by (intro calls_confined_writers) (auto simp: placed_def)
  with Do_Cleanup show ?thesis by (auto intro!: extends_intros)
next
  case (Do_Teardown n v)
  have "calls (confined E) (teardownBoxNetns E n v)" by (rule calls_teardown) simp
  with Do_Teardown show ?thesis by (auto simp: TeardownBoxNetns_def intro!: extends_intros)
qed (use assms in \<open>auto intro!: extends_intros calls_confined_Run calls_confined_RunDirect calls_confined_readers
       calls_confined_writers calls_confined_List calls_confined_CreateSnapshot\<close>)

lemma new_vm_mem [simp]: "vm \<in> new_vm r \<longleftrightarrow> r = Inr vm"
  by (cases r) auto

lemma placed_perform:
  "run_state (perform E a) w = (vs, w') \<Longrightarrow> vm \<in> vs \<Longrightarrow> placed E vm"
  by (cases a) (auto simp: run_monad split: prod.splits sum.splits
      dest: givesD [OF gives_placed_Run] givesD [OF gives_placed_RunDirect] givesD [OF gives_placed_AdoptVM]
        givesD [OF gives_placed_List])

lemma wait_rounds_trace:
  "\<exists>es. trace (wait_rounds E pid n w) = trace w @ es \<and> list_all (confined E) es"
proof (induction n arbitrary: w)
  case (Suc n)
  let ?v = "snd (run_state (time_Sleep E 100000000) (snd (run_state (syscall_Kill E pid Sig0) w)))"
  obtain es where "trace (wait_rounds E pid n ?v) = trace ?v @ es" "list_all (confined E) es"
    using Suc [of ?v] by blast
  then show ?case by (intro exI [of _ "[SendSignal pid Sig0, Sleep 100000000] @ es"]) simp
qed simp

lemma wait_trace:
  assumes "vm_Wait E vm w = Some (r, w')"
  shows "\<exists>es. trace w' = trace w @ es \<and> list_all (confined E) es"
proof (cases "vm_cmd vm")
  case (Some pid)
  then have "w' = snd (run_state (cmd_Wait E pid) w)" using assms by (simp add: vm_Wait_def)
  then show ?thesis by (intro exI [of _ "[WaitChild pid]"]) simp
next
  case None
  show ?thesis
  proof (cases "vm_PID vm \<le> 0")
    case True
    then show ?thesis using assms None by (simp add: vm_Wait_def)
  next
    case False
    then have "wait_gone E (vm_PID vm) w = Some w'" using assms None by (auto simp: vm_Wait_def)
    from wait_gone_only [OF this] obtain n where
      n: "w' = snd (run_state (syscall_Kill E (vm_PID vm) Sig0) (wait_rounds E (vm_PID vm) n w))" by blast
    obtain es where "trace (wait_rounds E (vm_PID vm) n w) = trace w @ es" "list_all (confined E) es"
      using wait_rounds_trace by blast
    then show ?thesis unfolding n by (intro exI [of _ "es @ [SendSignal (vm_PID vm) Sig0]"]) simp
  qed
qed


text \<open>A session that adopts a running VM.\<close>

definition adopt_env :: env where
  "adopt_env = calm_env\<lparr>serve := \<lambda>w _ _ _ _. (Inr (200, json_Marshal (enc_InstanceInfo zero_InstanceInfo)), files w)\<rparr>"

definition adopt_world :: world where
  "adopt_world = empty_world\<lparr>files := [(Clean (socket_path adopt_env ''web''), Socket)]\<rparr>"

lemma adopt_env_simps:
  "home adopt_env = ''/root''" "fault adopt_env w ev = None" "signalled adopt_env w i sg = None"
  "serve adopt_env w sock meth path body = (Inr (200, json_Marshal (enc_InstanceInfo zero_InstanceInfo)), files w)"
  by (simp_all add: adopt_env_def)

lemma root_url: "\<not> bad_url ''/''"
  by code_simp

lemma adopt_info:
  "fs_lookup (files w) sock = Some Socket \<Longrightarrow>
   \<exists>w'. run_state (GetInfo adopt_env (NewClient sock)) w = (Inr zero_InstanceInfo, w')"
  by (simp add: GetInfo_def get_def root_url http_do_def adopt_env_simps run_simps instance_info.decode_marshal)

lemma socket_path_clean: "socket_path adopt_env ''web'' = ''/root/.local/share/knaller/sockets/web.socket''"
  by (simp add: socket_path_def socketDirectory_def adopt_env_simps Join_def) code_simp

lemma adopted:
  "\<exists>vm w'. run_state (AdoptVM adopt_env ''web'' (socket_path adopt_env ''web'') 42) adopt_world = (Inr vm, w')"
proof -
  let ?p = "socket_path adopt_env ''web''"
  have "\<not> (Clean ?p = ''/'' \<or> Clean ?p = ''.'')" unfolding socket_path_clean by code_simp
  then have sock: "fs_lookup (files adopt_world) ?p = Some Socket"
    by (simp add: fs_lookup_def adopt_world_def)
  let ?v = "logged adopt_env (SendSignal 42 Sig0) adopt_world"
  let ?u = "logged adopt_env (Stat ?p) ?v"
  have k: "run_state (syscall_Kill adopt_env 42 Sig0) adopt_world = (Inr (), ?v)"
    by (simp add: syscall_Kill_def adopt_env_simps)
  have st: "run_state (os_Stat adopt_env ?p) ?v = (Inr Socket, ?u)"
    by (simp add: os_Stat_def os_read_def fs_stat_def adopt_env_simps sock)
  obtain x where x: "run_state (GetInfo adopt_env (NewClient ?p)) ?u = (Inr zero_InstanceInfo, x)"
    using adopt_info [of ?u ?p] sock by auto
  show ?thesis
    using k st x by (simp add: AdoptVM_def Let_def run_simps split: prod.split)
qed


end
