(* ===== verification/Removal.thy ===== *)
theory Removal
  imports Session
begin

text \<open>
  Removing a VM and listing VMs together: what was removed is not listed any more, and nothing of
  another VM is touched.
\<close>

section \<open>Calls that leave the files alone\<close>

text \<open>Nothing fails, and a server changes no file when it is only asked for information.\<close>

definition quiet :: "env \<Rightarrow> bool" where
  "quiet E \<longleftrightarrow> (\<forall>w ev. fault E w ev = None) \<and> (\<forall>w sock path. snd (serve E w sock ''GET'' path []) = files w)"

definition still :: "'a prog \<Rightarrow> bool" where
  "still m \<longleftrightarrow> (\<forall>w. files (snd (run_state m w)) = files w)"

lemma stillD: "still m \<Longrightarrow> run_state m w = (r, w') \<Longrightarrow> files w' = files w"
  by (metis still_def snd_conv)

lemma still_intros:
  "still (ret a)" "\<And>m. still m \<Longrightarrow> (\<And>a. still (k a)) \<Longrightarrow> still (State_Monad.bind m k)"
  "\<And>m. still m \<Longrightarrow> (\<And>e. still (h e)) \<Longrightarrow> (\<And>a. still (l a)) \<Longrightarrow> still (on_error m h l)"
  "still (os_ReadFile E p)" "still (os_ReadDir E p)" "still (os_Stat E p)" "still (dir_mtime E p)"
  by (auto simp: still_def run_simps os_ReadFile_def os_ReadDir_def os_Stat_def run_os_read dir_mtime_def
      split: prod.split sum.split) (metis snd_conv)+

lemma still_if: "still m \<Longrightarrow> still n \<Longrightarrow> still (if b then m else n)"
  by simp

lemma still_get: "quiet E \<Longrightarrow> still (get E c path d zero)"
proof -
  assume q: "quiet E"
  have "still (http_do E (socketPath c) ''GET'' path [])"
    using q by (auto simp: still_def http_do_def quiet_def split: option.split node.split prod.split) (metis snd_conv)
  then show ?thesis
    by (auto simp: get_def split: prod.split intro!: still_intros still_if)
qed

lemma still_GetInfo: "quiet E \<Longrightarrow> still (GetInfo E c)"
  unfolding GetInfo_def by (rule still_get)

lemma still_scan_proc: "still (scan_proc E sock entries)"
  by (induction E sock entries rule: scan_proc.induct) (auto intro!: still_intros)

lemma still_running_vm: "quiet E \<Longrightarrow> still (running_vm E name sock info)"
  unfolding running_vm_def findFirecrackerPID_def GetVMConfig_def Let_def
  by (intro still_intros still_get still_scan_proc) (auto split: prod.split intro!: still_intros still_scan_proc)

section \<open>A VM that is gone\<close>

text \<open>A directory entry that ends in \<open>.socket\<close> names the VM whose socket it is.\<close>

lemma entry_socket:
  "has_suffix entry ''.socket'' \<Longrightarrow> Join [socketDirectory E, entry] = socket_path E (trim_suffix entry ''.socket'')"
  by (auto simp: socket_path_def has_suffix_iff)

lemma not_answered:
  "run_state (GetInfo E (NewClient sock)) w = (Inr info, w') \<Longrightarrow> fs_lookup (files w) sock = Some Socket"
  by (auto simp: GetInfo_def get_def run_simps http_do_def NewClient_def
      split: if_splits prod.splits sum.splits option.splits node.splits)

lemma scan_sockets_gone:
  "quiet E \<Longrightarrow> run_state (scan_sockets E entries seen) w = (seen', w') \<Longrightarrow>
   fs_lookup (files w) (socket_path E n) \<noteq> Some Socket \<Longrightarrow> map_of seen n = None \<Longrightarrow>
   map_of seen' n = None \<and> files w' = files w"
proof (induction E entries seen arbitrary: w rule: scan_sockets.induct)
  case (2 E entry is_dir entries seen)
  let ?name = "trim_suffix entry ''.socket''" and ?sock = "Join [socketDirectory E, entry]"
  show ?case
  proof (cases "has_suffix entry ''.socket''")
    case False
    with "2.prems"(2) have "run_state (scan_sockets E entries seen) w = (seen', w')" by simp
    from 2(1) [OF False "2.prems"(1) this "2.prems"(3,4)] show ?thesis .
  next
    case True
    obtain r v where r: "run_state (GetInfo E (NewClient ?sock)) w = (r, v)" by fastforce
    have v: "files v = files w" by (rule stillD [OF still_GetInfo [OF "2.prems"(1)] r])
    show ?thesis
    proof (cases r)
      case (Inl e)
      with True r "2.prems"(2) have "run_state (scan_sockets E entries seen) v = (seen', w')"
        by (simp add: Let_def run_on_error)
      from 2(2) [OF _ refl refl "2.prems"(1) this _ "2.prems"(4)] True "2.prems"(3) show ?thesis unfolding v by blast
    next
      case (Inr info)
      obtain vm u where vm: "run_state (running_vm E ?name ?sock info) v = (vm, u)" by fastforce
      have u: "files u = files w" using stillD [OF still_running_vm [OF "2.prems"(1)] vm] v by simp
      have ne: "?name \<noteq> n"
      proof
        assume "?name = n"
        then have "?sock = socket_path E n" using entry_socket [OF True, of E] by simp
        then show False using not_answered [OF r [unfolded Inr]] v "2.prems"(3) by simp
      qed
      have seen: "map_of (AList.update ?name vm seen) n = None"
        using ne "2.prems"(4) by (simp add: update_conv')
      from Inr True r vm "2.prems"(2) have "run_state (scan_sockets E entries (AList.update ?name vm seen)) u = (seen', w')"
        by (simp add: Let_def run_simps)
      from 2(3) [OF _ refl refl "2.prems"(1) this _ seen] True "2.prems"(3) show ?thesis unfolding u by blast
    qed
  qed
qed (simp add: run_monad)

lemma still_dir_entries: "still (dir_entries E p)"
  unfolding dir_entries_def by (intro still_intros still_if)

text \<open>A name without a socket and without a directory is not listed.\<close>

lemma not_listed:
  assumes "quiet E" and "run_state (List_vms E) w = (Inr vms, w')"
    and "fs_lookup (files w) (socket_path E n) \<noteq> Some Socket"
    and "fs_lookup (files w) (Join [vmsDir E, n]) \<noteq> Some Dir"
  shows "n \<notin> vm_Name ` set_mset vms"
proof -
  have f: "\<forall>v p. fault E v (ReadDir p) = None" using assms(1) by (simp add: quiet_def)
  obtain sockets w1 seen w2 dirs w3 seen' where
    d0: "run_state (dir_entries E (socketDirectory E)) w = (Inr sockets, w1)"
    and s: "run_state (scan_sockets E sockets []) w1 = (seen, w2)"
    and d: "run_state (dir_entries E (vmsDir E)) w2 = (Inr dirs, w3)"
    and s': "run_state (scan_data E dirs seen) w3 = (seen', w')" and vms: "vms = mset (map snd seen')"
    using assms(2) by (auto simp: List_vms_def run_simps split: prod.splits sum.splits)
  have w1: "files w1 = files w" by (rule stillD [OF still_dir_entries d0])
  have none: "map_of seen n = None" and w2: "files w2 = files w"
    using scan_sockets_gone [OF assms(1) s] assms(3) w1 by auto
  have "(n, True) \<notin> set dirs"
    using dir_entries_ok [OF f d] assms(4) w2 by (auto simp: fs_read_dir_def split: option.splits node.splits)
  have run: "running_map seen" using scan_sockets_map [OF s] by (simp add: running_map_def)
  then have all: "all_map E dirs seen seen'" using scan_data_map [OF s'] by (simp add: running_map_def)
  with none \<open>(n, True) \<notin> set dirs\<close> have gone: "n \<notin> dom (map_of seen')" unfolding all_map_def by auto
  have name: "vm_Name v = m" if "map_of seen' m = Some v" for m v
    using all run that stopped_vm_fields(1) unfolding all_map_def running_map_def by metis
  have "distinct (map fst seen')" using all by (simp add: all_map_def)
  then have "map vm_Name (map snd seen') = map fst seen'" using name by (rule names_of_map)
  then have "fst ` set seen' = vm_Name ` set (map snd seen')" by (metis list.set_map)
  with gone show ?thesis unfolding vms set_mset_mset dom_map_of_conv_image_fst by blast
qed

section \<open>The paths of two VMs\<close>

lemma vm_paths:
  assumes "plain_name n"
  shows "vmDataDir E n = dataDir E @ ''/vms/'' @ n" "socket_path E n = dataDir E @ ''/sockets/'' @ n @ ''.socket''"
    "Join [vmsDir E, n] = vmDataDir E n"
proof -
  have s: "plain_name ''vms''" "plain_name ''sockets''" by (simp_all add: plain_name_def)
  show "vmDataDir E n = dataDir E @ ''/vms/'' @ n"
    using data_path [of "[''vms'', n]" E] assms s by (simp add: vmDataDir_def data_root_def)
  show "Join [vmsDir E, n] = vmDataDir E n"
    using Join_Join [of "''vms''" "[home E, ''.local'', ''share'', ''knaller'']" n]
    by (simp add: vmsDir_def vmDataDir_def)
  have "socket_path E n = Join [home E, ''.local'', ''share'', ''knaller'', ''sockets'', n @ ''.socket'']"
    using Join_Join [of "''sockets''" "[home E, ''.local'', ''share'', ''knaller'']" "n @ ''.socket''"]
    by (simp add: socket_path_def socketDirectory_def)
  then show "socket_path E n = dataDir E @ ''/sockets/'' @ n @ ''.socket''"
    using data_path [of "[''sockets'', n @ ''.socket'']" E] plain_names(1) [OF assms] s by (simp add: data_root_def)
qed

lemma vm_paths_clean:
  assumes "plain_name n"
  shows "Clean (vmDataDir E n) = vmDataDir E n" "Clean (socket_path E n) = socket_path E n"
    "\<not> root_path (vmDataDir E n)" "\<not> root_path (socket_path E n)"
proof -
  show c: "Clean (vmDataDir E n) = vmDataDir E n" "Clean (socket_path E n) = socket_path E n"
    using assms by (simp_all add: vmDataDir_def socket_path_def plain_name_def)
  have "1 < length (vmDataDir E n)" "1 < length (socket_path E n)" by (simp_all add: vm_paths(1,2) [OF assms])
  then show "\<not> root_path (vmDataDir E n)" "\<not> root_path (socket_path E n)"
    unfolding root_path_def c by auto
qed

lemma slash_cut:
  "CHR ''/'' \<notin> set n \<Longrightarrow> CHR ''/'' \<notin> set m \<Longrightarrow> n @ ''/'' @ r = m @ ''/'' @ s \<Longrightarrow> n = m"
proof (induction n arbitrary: m)
  case Nil
  then show ?case by (cases m) auto
next
  case (Cons c n)
  then show ?case by (cases m) auto
qed

text \<open>What belongs to a VM: its directory with everything in it, and its socket.\<close>

definition vm_path :: "env \<Rightarrow> string \<Rightarrow> string \<Rightarrow> bool" where
  "vm_path E n q \<longleftrightarrow> below (vmDataDir E n) q \<or> same_path q (socket_path E n)"

lemma below_plain:
  assumes "plain_name n" and "below (vmDataDir E n) q"
  obtains r where "Clean q @ ''/'' = dataDir E @ ''/vms/'' @ n @ ''/'' @ r"
proof -
  have "vmDataDir E n \<noteq> ''/''" using vm_paths_clean(1,3) [OF assms(1), of E] by (auto simp: root_path_def)
  then consider "Clean q = vmDataDir E n" | r where "Clean q = vmDataDir E n @ ''/'' @ r"
    using assms(2) vm_paths_clean(1) [OF assms(1), of E] by (auto simp: below_def has_prefix_iff)
  then show thesis
    using that [of "[]"] that [of "_ @ ''/''"] by cases (simp_all add: vm_paths(1) [OF assms(1)])
qed

lemma socket_plain:
  "plain_name n \<Longrightarrow> same_path q (socket_path E n) \<Longrightarrow> Clean q = dataDir E @ ''/sockets/'' @ n @ ''.socket''"
  using vm_paths_clean(2) vm_paths(2) by (simp add: same_path_def)

lemma other_vm:
  assumes n: "plain_name n" and m: "plain_name m" and "m \<noteq> n" and q: "vm_path E m q"
  shows "\<not> below (vmDataDir E n) q" "\<not> same_path q (socket_path E n)"
proof -
  have no_slash: "CHR ''/'' \<notin> set n" "CHR ''/'' \<notin> set m" using n m by (simp_all add: plain_name_def)
  have dirs: "\<not> (below (vmDataDir E m) q \<and> below (vmDataDir E n) q)"
    using slash_cut [OF no_slash] \<open>m \<noteq> n\<close> by (auto elim!: below_plain [OF m] below_plain [OF n])
  have mixed: "\<not> (below (vmDataDir E i) q \<and> same_path q (socket_path E j))"
    if "plain_name i" "plain_name j" for i j
    using socket_plain [OF that(2), of q E] by (auto elim!: below_plain [OF that(1)])
  have socks: "\<not> (same_path q (socket_path E m) \<and> same_path q (socket_path E n))"
    using socket_plain [OF m] socket_plain [OF n] \<open>m \<noteq> n\<close> by fastforce
  show "\<not> below (vmDataDir E n) q" "\<not> same_path q (socket_path E n)"
    using q dirs mixed [OF n m] mixed [OF m n] socks by (auto simp: vm_path_def)
qed

section \<open>Removing\<close>

text \<open>What a removal that succeeds has done to the files.\<close>

lemma RemoveVM_files:
  assumes "quiet E" and "run_state (RemoveVM E n) w = (Inr (), w')"
  shows "\<exists>v r u. files v = files w \<and> run_state (os_Remove E (socket_path E n)) v = (r, u) \<and>
    run_state (removeDisk E n) u = (Inr (), w')"
proof -
  obtain e v1 where g: "run_state (GetInfo E (NewClient (socket_path E n))) w = (Inl e, v1)"
    and r: "run_state (on_error (os_Stat E (vmDataDir E n))
             (\<lambda>_. err (ErrMsg (''VM '' @ quote n @ '' not found''))) (\<lambda>_. do {
           os_Remove E (socket_path E n); removeDisk E n })) v1 = (Inr (), w')"
    using assms(2) by (auto simp: RemoveVM_def Let_def run_monad socket_path_def split: prod.splits sum.splits)
  have v1: "files v1 = files w" by (rule stillD [OF still_GetInfo [OF assms(1)] g])
  obtain x v2 where st: "run_state (os_Stat E (vmDataDir E n)) v1 = (x, v2)" by fastforce
  then have "files v2 = files w" using v1 snd_os_Stat [of E "vmDataDir E n" v1] by simp
  then show ?thesis
    using r st by (auto simp: run_on_error run_monad split: prod.splits sum.splits)
qed

lemma removed_lookup:
  assumes "quiet E" and "plain_name n" and "run_state (RemoveVM E n) w = (Inr (), w')"
  shows "fs_lookup (files w') (socket_path E n) \<noteq> Some Socket" "fs_lookup (files w') (vmDataDir E n) = None"
    and "\<not> below (vmDataDir E n) q \<Longrightarrow> \<not> same_path q (socket_path E n) \<Longrightarrow>
      fs_lookup (files w') q = fs_lookup (files w) q"
proof -
  obtain v r u where v: "files v = files w" and r: "run_state (os_Remove E (socket_path E n)) v = (r, u)"
    and d: "run_state (removeDisk E n) u = (Inr (), w')"
    using RemoveVM_files [OF assms(1,3)] by blast
  have tree: "fs_lookup (files w') q =
      (if root_path q then Some Dir else if below (vmDataDir E n) q then None else fs_lookup (files u) q)" for q
  proof -
    obtain fs where "fs_remove_all (files u) (vmDataDir E n) = Inr fs" "files w' = fs"
      using d by (auto simp: removeDisk_def os_RemoveAll_def os_write_ok)
    then show ?thesis using fs_remove_all_lookup [OF _ vmDataDir_not_empty, of "files u" E n fs q] by simp
  qed
  have rm: "case fs_remove (files v) (socket_path E n) of Inl _ \<Rightarrow> files u = files v | Inr fs \<Rightarrow> files u = fs"
    using r assms(1) by (auto simp: os_Remove_def os_write_def quiet_def split: sum.splits)
  have sock: "fs_lookup (files u) q = fs_lookup (files v) q \<or> same_path q (socket_path E n)" for q
  proof (cases "fs_remove (files v) (socket_path E n)")
    case (Inr fs)
    with rm fs_remove_lookup [OF Inr, of q] fs_lookup_root [of q] show ?thesis by (simp add: same_path_def)
  qed (use rm in simp)
  have gone: "fs_lookup (files u) (socket_path E n) \<noteq> Some Socket"
  proof (cases "fs_remove (files v) (socket_path E n)")
    case (Inl e)
    then have "fs_lookup (files v) (socket_path E n) \<noteq> Some Socket" by (auto simp: fs_remove_def)
    with Inl rm show ?thesis by simp
  next
    case (Inr fs)
    with rm fs_remove_lookup [OF Inr, of "socket_path E n"] vm_paths_clean(4) [OF assms(2), of E] show ?thesis by simp
  qed
  show "fs_lookup (files w') (socket_path E n) \<noteq> Some Socket" using tree gone by simp
  show "fs_lookup (files w') (vmDataDir E n) = None"
    using tree vm_paths_clean(3) [OF assms(2), of E] by simp
  show "fs_lookup (files w') q = fs_lookup (files w) q"
    if "\<not> below (vmDataDir E n) q" "\<not> same_path q (socket_path E n)"
    using tree [of q] sock [of q] that v fs_lookup_root [of q] by auto
qed

text \<open>C17: When a VM has been removed, it is not listed any more, neither as running nor as stopped, and
  everything that belongs to another VM, its directory and its socket, is as it was.\<close>
theorem removed_not_listed:
  assumes "quiet E" and "plain_name n" and "run_state (RemoveVM E n) w = (Inr (), w')"
  shows "(case run_state (List_vms E) w' of (Inl _, _) \<Rightarrow> True | (Inr vms, _) \<Rightarrow> n \<notin> vm_Name ` set_mset vms) \<and>
    (\<forall>m q. plain_name m \<and> m \<noteq> n \<and> vm_path E m q \<longrightarrow> fs_lookup (files w') q = fs_lookup (files w) q)"
proof -
  note r = removed_lookup [OF assms]
  have "n \<notin> vm_Name ` set_mset vms" if "run_state (List_vms E) w' = (Inr vms, v)" for vms v
    by (rule not_listed [OF assms(1) that r(1)]) (simp add: vm_paths(3) [OF assms(2)] r(2))
  moreover have "fs_lookup (files w') q = fs_lookup (files w) q" if "plain_name m" "m \<noteq> n" "vm_path E m q" for m q
    by (rule r(3)) (rule other_vm [OF assms(2) that])+
  ultimately show ?thesis by (auto split: prod.split sum.split)
qed

text \<open>Two stopped VMs, one of which is removed.\<close>

definition stopped_world :: world where
  "stopped_world = empty_world\<lparr>files :=
     [(Clean (vmsDir calm_env), Dir), (Clean (vmDataDir calm_env ''web''), Dir), (Clean (vmDataDir calm_env ''db''), Dir),
      (Clean (socket_path calm_env ''web''), Socket)]\<rparr>"

definition dead_env :: env where
  "dead_env = calm_env\<lparr>serve := \<lambda>w _ _ _ _. (Inr (500, []), files w)\<rparr>"

lemma web_removed: "\<not> isl (fst (run_state (RemoveVM dead_env ''web'') stopped_world))"
  by code_simp

lemma removed_not_listed_witness:
  "\<exists>w'. run_state (RemoveVM dead_env ''web'') stopped_world = (Inr (), w') \<and>
     (case run_state (List_vms dead_env) w' of (Inl _, _) \<Rightarrow> True | (Inr vms, _) \<Rightarrow> ''web'' \<notin> vm_Name ` set_mset vms) \<and>
     fs_lookup (files w') (vmDataDir dead_env ''db'') = Some Dir"
proof -
  have q: "quiet dead_env" by (simp add: quiet_def dead_env_def)
  have n: "plain_name ''web''" "plain_name ''db''" by (simp_all add: plain_name_def)
  obtain w' where w': "run_state (RemoveVM dead_env ''web'') stopped_world = (Inr (), w')"
    using run_not_isl [OF web_removed] by auto
  have "vm_path dead_env ''db'' (vmDataDir dead_env ''db'')" by (simp add: vm_path_def)
  then have "fs_lookup (files w') (vmDataDir dead_env ''db'') = fs_lookup (files stopped_world) (vmDataDir dead_env ''db'')"
    using removed_not_listed [OF q n(1) w', THEN conjunct2, rule_format, of "''db''" "vmDataDir dead_env ''db''"] n(2)
    by simp
  moreover have "fs_lookup (files stopped_world) (vmDataDir dead_env ''db'') = Some Dir" by code_simp
  ultimately show ?thesis using w' removed_not_listed [OF q n(1) w', THEN conjunct1] by (intro exI [of _ w']) simp
qed

end
