(* ===== verification/Listing.thy ===== *)
theory Listing
  imports Removal
begin

text \<open>
  Starting a VM and listing VMs together: a VM that \<open>Run\<close> returned is in the list of another process,
  as running and with the same port, as long as its server answers.
\<close>

section \<open>A VM whose server answers is listed\<close>

definition answers :: "env \<Rightarrow> string \<Rightarrow> InstanceInfo \<Rightarrow> bool" where
  "answers E n info \<longleftrightarrow>
     (\<forall>w. fs_lookup (files w) (socket_path E n) = Some Socket \<longrightarrow>
       fst (run_state (GetInfo E (NewClient (socket_path E n))) w) = Inr info)"

definition listed_as :: "env \<Rightarrow> string \<Rightarrow> InstanceInfo \<Rightarrow> VM \<Rightarrow> bool" where
  "listed_as E n info v \<longleftrightarrow>
     vm_Name v = n \<and> vm_SocketPath v = socket_path E n \<and> vm_Status v = InstanceState info \<and>
     vm_Port v = sshPort n \<and> vm_client v = Some (NewClient (socket_path E n))"

lemma running_vm_listed_as:
  "run_state (running_vm E n (socket_path E n) info) w = (vm, w') \<Longrightarrow> listed_as E n info vm"
  by (auto simp: running_vm_def listed_as_def Let_def run_simps split: prod.splits sum.splits)

lemma trim_socket: "trim_suffix (n @ ''.socket'') ''.socket'' = n" "has_suffix (n @ ''.socket'') ''.socket''"
  by simp_all

lemma scan_sockets_finds:
  "quiet E \<Longrightarrow> answers E n info \<Longrightarrow> run_state (scan_sockets E entries seen) w = (seen', w') \<Longrightarrow>
   fs_lookup (files w) (socket_path E n) = Some Socket \<Longrightarrow>
   n @ ''.socket'' \<in> fst ` set entries \<or> (\<exists>v. map_of seen n = Some v \<and> listed_as E n info v) \<Longrightarrow>
   (\<exists>v. map_of seen' n = Some v \<and> listed_as E n info v) \<and> files w' = files w"
proof (induction E entries seen arbitrary: w rule: scan_sockets.induct)
  case (2 E entry is_dir entries seen)
  let ?name = "trim_suffix entry ''.socket''" and ?sock = "Join [socketDirectory E, entry]"
  show ?case
  proof (cases "has_suffix entry ''.socket''")
    case False
    then have "entry \<noteq> n @ ''.socket''" using trim_socket(2) by metis
    then have "n @ ''.socket'' \<in> fst ` set entries \<or> (\<exists>v. map_of seen n = Some v \<and> listed_as E n info v)"
      using "2.prems"(5) by auto
    moreover have "run_state (scan_sockets E entries seen) w = (seen', w')" using False "2.prems"(3) by simp
    ultimately show ?thesis using 2(1) [OF False "2.prems"(1,2) _ "2.prems"(4)] by blast
  next
    case True
    obtain r v where r: "run_state (GetInfo E (NewClient ?sock)) w = (r, v)" by fastforce
    have v: "files v = files w" by (rule stillD [OF still_GetInfo [OF "2.prems"(1)] r])
    have sock: "?sock = socket_path E ?name" by (rule entry_socket [OF True])
    have own: "r = Inr info" if "?name = n"
      using "2.prems"(2,4) r that sock unfolding answers_def by (metis fst_conv)
    have named: "?name = n" if "entry = n @ ''.socket''" using that by simp
    show ?thesis
    proof (cases r)
      case (Inl e)
      with own named have "entry \<noteq> n @ ''.socket''" by auto
      then have "n @ ''.socket'' \<in> fst ` set entries \<or> (\<exists>v. map_of seen n = Some v \<and> listed_as E n info v)"
        using "2.prems"(5) by auto
      moreover have "run_state (scan_sockets E entries seen) v = (seen', w')"
        using True r Inl "2.prems"(3) by (simp add: Let_def run_on_error)
      moreover have "fs_lookup (files v) (socket_path E n) = Some Socket" using "2.prems"(4) v by simp
      ultimately show ?thesis
        using 2(2) [OF _ refl refl "2.prems"(1,2)] True v by fastforce
    next
      case (Inr i)
      obtain vm u where vm: "run_state (running_vm E ?name ?sock i) v = (vm, u)" by fastforce
      have u: "files u = files w" using stillD [OF still_running_vm [OF "2.prems"(1)] vm] v by simp
      let ?seen = "AList.update ?name vm seen"
      have new: "n @ ''.socket'' \<in> fst ` set entries \<or> (\<exists>v. map_of ?seen n = Some v \<and> listed_as E n info v)"
      proof (cases "?name = n")
        case name: True
        then have "i = info" using own Inr by simp
        then have "listed_as E n info vm" using running_vm_listed_as [of E n info v vm u] vm sock name by simp
        then show ?thesis by (simp add: update_conv' name)
      next
        case False
        then show ?thesis using "2.prems"(5) named by (auto simp: update_conv')
      qed
      have "run_state (scan_sockets E entries ?seen) u = (seen', w')"
        using Inr True r vm "2.prems"(3) by (simp add: Let_def run_simps)
      moreover have "fs_lookup (files u) (socket_path E n) = Some Socket" using "2.prems"(4) u by simp
      ultimately show ?thesis
        using 2(3) [OF _ refl refl "2.prems"(1,2) _ _ new] True u by fastforce
    qed
  qed
qed (auto simp: run_monad)

lemma scan_data_keeps:
  "run_state (scan_data E dirs seen) w = (seen', w') \<Longrightarrow> map_of seen n = Some v \<Longrightarrow> map_of seen' n = Some v"
proof (induction E dirs seen arbitrary: w rule: scan_data.induct)
  case (2 E name is_dir dirs seen)
  show ?case
  proof (cases "\<not> is_dir \<or> map_of seen name \<noteq> None")
    case True
    with 2 show ?thesis by simp
  next
    case False
    obtain t u where "run_state (dir_mtime E (Join [vmsDir E, name])) w = (t, u)" by fastforce
    with 2(3) False have "run_state (scan_data E dirs (AList.update name (stopped_vm E name t) seen)) u = (seen', w')"
      by (simp add: run_simps)
    moreover have "map_of (AList.update name (stopped_vm E name t) seen) n = Some v"
      using False 2(4) by (auto simp: update_conv')
    ultimately show ?thesis by (rule 2(2) [OF False])
  qed
qed (simp add: run_monad)

lemma socket_dir_path: "socketDirectory E = dataDir E @ ''/sockets''" "Clean (socketDirectory E) = socketDirectory E"
proof -
  have "plain_name ''sockets''" by (simp add: plain_name_def)
  then show "socketDirectory E = dataDir E @ ''/sockets''"
    using data_path [of "[''sockets'']" E] by (simp add: socketDirectory_def data_root_def)
  show "Clean (socketDirectory E) = socketDirectory E" by (simp add: socketDirectory_def)
qed

text \<open>A socket in the directory is among its entries.\<close>

lemma socket_entry:
  assumes "plain_name n" and "fs_lookup fs (socket_path E n) = Some Socket"
    and "fs_lookup fs (socketDirectory E) = Some Dir"
  obtains ds where "fs_read_dir fs (socketDirectory E) = Inr ds" "n @ ''.socket'' \<in> fst ` set ds"
proof -
  note clean = vm_paths_clean(2) [OF assms(1), of E]
  have p: "socket_path E n = socketDirectory E @ ''/'' @ n @ ''.socket''"
    using vm_paths(2) [OF assms(1), of E] socket_dir_path(1) [of E] by simp
  have "map_of fs (socket_path E n) = Some Socket"
    using assms(2) clean by (auto simp: fs_lookup_def split: if_splits)
  then have key: "(socket_path E n, Socket) \<in> set fs" by (rule map_of_SomeD)
  have "Clean (socketDirectory E) \<noteq> ''/''"
    unfolding socket_dir_path(2) by (auto simp: socket_dir_path(1) append_eq_Cons_conv)
  moreover have "plain_name (n @ ''.socket'')" by (rule plain_names(1) [OF assms(1)])
  ultimately have "child_name (socketDirectory E) (socket_path E n) = Some (n @ ''.socket'')"
    by (simp add: child_name_def Let_def p socket_dir_path(2) has_prefix_iff)
  then have "n @ ''.socket'' \<in> set (child_names fs (socketDirectory E))"
    using key by (force simp: child_names_def List.map_filter_def image_iff)
  with assms(3) that show thesis by (force simp: fs_read_dir_def)
qed

lemma scan_sockets_still: "quiet E \<Longrightarrow> still (scan_sockets E entries seen)"
  by (induction E entries seen rule: scan_sockets.induct)
    (auto simp: Let_def intro!: still_intros still_GetInfo still_running_vm)

text \<open>When both directories are there, a list succeeds.\<close>

lemma list_succeeds:
  assumes "quiet E" and "fs_lookup (files w) (socketDirectory E) = Some Dir" and "fs_lookup (files w) (vmsDir E) = Some Dir"
  shows "\<exists>vms w'. run_state (List_vms E) w = (Inr vms, w')"
proof -
  have dir: "\<exists>ds v'. run_state (dir_entries E p) v = (Inr ds, v') \<and> files v' = files v"
    if "fs_lookup (files v) p = Some Dir" for p v
    using assms(1) that
    by (simp add: dir_entries_def os_ReadDir_def run_os_read run_simps quiet_def fs_read_dir_def logged_def)
  obtain ds w1 where 1: "run_state (dir_entries E (socketDirectory E)) w = (Inr ds, w1)" "files w1 = files w"
    using dir [OF assms(2)] by blast
  obtain seen w2 where 2: "run_state (scan_sockets E ds []) w1 = (seen, w2)" by fastforce
  then have "files w2 = files w" using stillD [OF scan_sockets_still [OF assms(1)] 2] 1 by simp
  then obtain ds' w3 where 3: "run_state (dir_entries E (vmsDir E)) w2 = (Inr ds', w3)"
    using dir [of w2 "vmsDir E"] assms(3) by auto
  obtain seen' w4 where "run_state (scan_data E ds' seen) w3 = (seen', w4)" by fastforce
  with 1 2 3 show ?thesis by (simp add: List_vms_def run_simps)
qed

lemma answering_vm_listed:
  assumes "quiet E" and "plain_name n" and "answers E n info"
    and "fs_lookup (files w) (socket_path E n) = Some Socket" and "fs_lookup (files w) (socketDirectory E) = Some Dir"
    and "run_state (List_vms E) w = (Inr vms, w')"
  shows "\<exists>v \<in># vms. listed_as E n info v"
proof -
  have f: "\<forall>v p. fault E v (ReadDir p) = None" using assms(1) by (simp add: quiet_def)
  obtain sockets w1 seen w2 dirs w3 seen' where
    d0: "run_state (dir_entries E (socketDirectory E)) w = (Inr sockets, w1)"
    and s: "run_state (scan_sockets E sockets []) w1 = (seen, w2)"
    and s': "run_state (scan_data E dirs seen) w3 = (seen', w')" and vms: "vms = mset (map snd seen')"
    using assms(6) by (auto simp: List_vms_def run_simps split: prod.splits sum.splits)
  obtain ds where ds: "fs_read_dir (files w) (socketDirectory E) = Inr ds" "n @ ''.socket'' \<in> fst ` set ds"
    by (rule socket_entry [OF assms(2,4,5)])
  have "files w1 = files w" "set sockets = set ds"
    using dir_entries_ok [OF f d0] ds by auto
  then obtain v where "map_of seen n = Some v" "listed_as E n info v"
    using scan_sockets_finds [OF assms(1,3) s] assms(4) ds(2) by auto
  with scan_data_keeps [OF s'] have "map_of seen' n = Some v" by blast
  then have "v \<in> snd ` set seen'" by (force dest: map_of_SomeD)
  with \<open>listed_as E n info v\<close> show ?thesis by (auto simp: vms)
qed

section \<open>What a start leaves\<close>

text \<open>
  What others do while the program runs leaves directories and sockets in place: the commands it runs,
  the process it starts, the server and those who use the time in which it sleeps.
\<close>

definition lasting :: "node \<Rightarrow> bool" where
  "lasting n \<longleftrightarrow> n = Dir \<or> n = Socket"

definition same_nodes :: "files \<Rightarrow> files \<Rightarrow> bool" where
  "same_nodes fs fs' \<longleftrightarrow> (\<forall>p n. lasting n \<and> fs_lookup fs p = Some n \<longrightarrow> fs_lookup fs' p = Some n)"

definition steady :: "env \<Rightarrow> bool" where
  "steady E \<longleftrightarrow> (\<forall>w.
     (\<forall>argv. same_nodes (files w) (snd (snd (command E w argv)))) \<and>
     (\<forall>argv. same_nodes (files w) (snd (spawned E w argv))) \<and>
     (\<forall>sock meth path body. same_nodes (files w) (snd (serve E w sock meth path body))) \<and>
     (\<forall>d. same_nodes (files w) (meanwhile E w d)))"

text \<open>A program that leaves a node, when it succeeds.\<close>

definition leaves :: "string \<Rightarrow> node \<Rightarrow> 'a prog \<Rightarrow> bool" where
  "leaves p n m \<longleftrightarrow> (\<forall>w. fs_lookup (files w) p = Some n \<longrightarrow> fs_lookup (files (snd (run_state m w))) p = Some n)"

definition leaves_ok :: "string \<Rightarrow> node \<Rightarrow> 'a go \<Rightarrow> bool" where
  "leaves_ok p n m \<longleftrightarrow> (\<forall>w a w'. fs_lookup (files w) p = Some n \<longrightarrow> run_state m w = (Inr a, w') \<longrightarrow>
     fs_lookup (files w') p = Some n)"

definition errs :: "'a go \<Rightarrow> bool" where
  "errs m \<longleftrightarrow> (\<forall>w. isl (fst (run_state m w)))"

lemma leaves_okD: "leaves_ok p n m \<Longrightarrow> run_state m w = (Inr a, w') \<Longrightarrow> fs_lookup (files w) p = Some n \<Longrightarrow>
  fs_lookup (files w') p = Some n"
  unfolding leaves_ok_def by blast

lemma leaves_ok: "leaves p n m \<Longrightarrow> leaves_ok p n m"
  unfolding leaves_def leaves_ok_def by (metis snd_conv)

lemma errs_intros: "errs (err e)" "\<And>m. (\<And>a. errs (k a)) \<Longrightarrow> errs (State_Monad.bind m k)"
  by (auto simp: errs_def run_simps split: prod.split)

lemma leaves_intros:
  "leaves p n (ret a)" "\<And>m. leaves p n m \<Longrightarrow> (\<And>a. leaves p n (k a)) \<Longrightarrow> leaves p n (State_Monad.bind m k)"
  "\<And>m. leaves p n m \<Longrightarrow> (\<And>e. leaves p n (h e)) \<Longrightarrow> (\<And>a. leaves p n (l a)) \<Longrightarrow> leaves p n (on_error m h l)"
  by (auto simp: leaves_def run_simps split: prod.split sum.split dest: sndI)

text \<open>A success is a success of both parts when the handler always fails.\<close>

lemma on_error_success:
  assumes "run_state (on_error m h l) w = (Inr a, w')" and "\<And>e. errs (h e)"
  obtains b v where "run_state m w = (Inr b, v)" "run_state (l b) v = (Inr a, w')"
proof -
  obtain x v where x: "run_state m w = (x, v)" by fastforce
  show thesis
  proof (cases x)
    case (Inl e)
    with assms(1) x have "run_state (h e) v = (Inr a, w')" by (simp add: run_on_error)
    moreover have "isl (fst (run_state (h e) v))" using assms(2) unfolding errs_def by blast
    ultimately show thesis by simp
  next
    case (Inr b)
    with assms(1) x that show thesis by (simp add: run_on_error)
  qed
qed

lemma leaves_ok_on_error:
  assumes "leaves_ok p n m" and "\<And>e. errs (h e)" and "\<And>a. leaves_ok p n (l a)"
  shows "leaves_ok p n (on_error m h l)"
  unfolding leaves_ok_def
proof (intro allI impI)
  fix w a w'
  assume w: "fs_lookup (files w) p = Some n" and r: "run_state (on_error m h l) w = (Inr a, w')"
  obtain b v where "run_state m w = (Inr b, v)" "run_state (l b) v = (Inr a, w')"
    by (rule on_error_success [OF r assms(2)])
  with leaves_okD [OF assms(1) _ w] leaves_okD [OF assms(3)] show "fs_lookup (files w') p = Some n" by blast
qed

lemma leaves_ok_ret: "leaves_ok p n (ok a)" "leaves_ok p n (err e)"
  by (auto simp: leaves_ok_def run_simps)

lemma leaves_ok_bind:
  assumes "leaves p n m" and "\<And>a. leaves_ok p n (k a)"
  shows "leaves_ok p n (State_Monad.bind m k)"
  unfolding leaves_ok_def
proof (intro allI impI)
  fix w a w'
  assume w: "fs_lookup (files w) p = Some n" and r: "run_state (State_Monad.bind m k) w = (Inr a, w')"
  obtain x v where x: "run_state m w = (x, v)" by fastforce
  then have "fs_lookup (files v) p = Some n" using assms(1) w unfolding leaves_def by (metis snd_conv)
  moreover have "run_state (k x) v = (Inr a, w')" using r x by (simp add: run_simps)
  ultimately show "fs_lookup (files w') p = Some n" using leaves_okD [OF assms(2)] by blast
qed

lemma leaves_ok_guarded:
  assumes "leaves_ok p n m" and "\<And>a. leaves_ok p n (l a)"
  shows "leaves_ok p n (guarded c what m l)"
  unfolding guarded_def by (rule leaves_ok_on_error [OF assms(1) _ assms(2)]) (intro errs_intros)

lemma leaves_if: "leaves p n m \<Longrightarrow> leaves p n l \<Longrightarrow> leaves p n (if b then m else l)"
  by simp

lemma leaves_ok_if: "leaves_ok p n m \<Longrightarrow> leaves_ok p n l \<Longrightarrow> leaves_ok p n (if b then m else l)"
  by simp

text \<open>The calls.\<close>

lemma lookup_write_lasting:
  "lasting n \<Longrightarrow> fs_lookup fs p = Some n \<Longrightarrow> fs_write fs q d = Inr fs' \<Longrightarrow> fs_lookup fs' p = Some n"
  using fs_lookup_root [of p fs]
  by (auto simp: fs_write_def fs_lookup_put lasting_def fs_lookup_same [of p q] split: option.splits node.splits if_splits)

lemma lookup_truncate_lasting:
  "lasting n \<Longrightarrow> fs_lookup fs p = Some n \<Longrightarrow> fs_truncate fs q i = Inr fs' \<Longrightarrow> fs_lookup fs' p = Some n"
  using fs_truncate_lookup [of fs q i fs' p] fs_lookup_root [of p fs]
  by (auto simp: lasting_def fs_lookup_same [of p q] split: if_splits)

lemma lookup_mkdirs:
  "fs_lookup fs p = Some n \<Longrightarrow>
   fs_lookup (foldl (\<lambda>fs q. if fs_lookup fs q = None then put_node q Dir fs else fs) fs qs) p = Some n"
proof (induction qs arbitrary: fs)
  case (Cons q qs)
  have "fs_lookup (put_node q Dir fs) p = Some n" if "fs_lookup fs q = None"
    using Cons.prems that fs_lookup_root [of p fs] fs_lookup_same [of p q fs] by (auto simp: fs_lookup_put)
  then show ?case using Cons by simp
qed simp

lemma leaves_write:
  assumes "\<forall>w ev. fault E w ev = None" and "\<And>fs fs'. f fs = Inr fs' \<Longrightarrow> fs_lookup fs p = Some n \<Longrightarrow> fs_lookup fs' p = Some n"
  shows "leaves p n (os_write E ev f)"
  using assms by (auto simp: leaves_def os_write_def split: sum.split)

definition settled :: "env \<Rightarrow> node \<Rightarrow> bool" where
  "settled E n \<longleftrightarrow> quiet E \<and> steady E \<and> lasting n"

lemma leaves_calls:
  assumes "settled E n"
  shows "leaves p n (os_WriteFile E q d)" "leaves p n (os_MkdirAll E q)" "leaves p n (os_Truncate E q i)"
    "leaves p n (os_Stat E q)" "leaves p n (os_ReadFile E q)" "leaves p n (os_OpenWrite E q)" "leaves p n (exec_run E argv)"
    "leaves p n (exec_start E argv b)" "leaves p n (http_do E sock meth path body)" "leaves p n (time_Sleep E t)"
    "leaves p n (time_Now E)" "leaves p n (rand_Read E k)"
proof -
  have f: "\<forall>w ev. fault E w ev = None" and n: "lasting n" and E: "steady E"
    using assms by (auto simp: quiet_def settled_def)
  show "leaves p n (os_WriteFile E q d)" "leaves p n (os_Truncate E q i)"
    unfolding os_WriteFile_def os_Truncate_def
    by (rule leaves_write [OF f]; blast intro: lookup_write_lasting lookup_truncate_lasting n)+
  show "leaves p n (os_MkdirAll E q)"
    unfolding os_MkdirAll_def
    by (rule leaves_write [OF f]) (auto simp: fs_mkdir_all_def lookup_mkdirs simp del: foldl_append split: if_splits)
  show "leaves p n (os_Stat E q)" "leaves p n (os_ReadFile E q)" "leaves p n (os_OpenWrite E q)"
    by (simp_all add: leaves_def os_Stat_def os_ReadFile_def os_OpenWrite_def run_os_read)
  have "same_nodes (files w) (snd (snd (command E w argv)))" "same_nodes (files w) (snd (spawned E w argv))"
    "same_nodes (files w) (snd (serve E w sock meth path body))" "same_nodes (files w) (meanwhile E w t)" for w
    using E by (simp_all add: steady_def)
  then show "leaves p n (exec_run E argv)" "leaves p n (exec_start E argv b)"
    "leaves p n (http_do E sock meth path body)" "leaves p n (time_Sleep E t)"
    using n
    by (auto simp: leaves_def exec_run_def exec_start_def http_do_def time_Sleep_def same_nodes_def
        split: prod.split option.split node.split dest: sndI) (metis snd_conv)+
  show "leaves p n (time_Now E)" "leaves p n (rand_Read E k)" by (simp_all add: leaves_def time_Now_def rand_Read_def)
qed

lemmas leaves_ok_calls = leaves_calls(1-6,8,9) [THEN leaves_ok]

section \<open>The steps of a start\<close>

lemma leaves_ok_request:
  assumes "settled E n"
  shows "leaves_ok p n (put E c path body)" "leaves_ok p n (patch E c path body)"
  unfolding put_def patch_def Let_def
  by (intro leaves_if leaves_ok_if leaves_ok_ret leaves_ok_on_error leaves_ok_calls [OF assms] errs_intros;
      auto intro: leaves_ok_ret split: prod.split)+

lemma leaves_ok_commands:
  assumes "settled E n"
  shows "leaves_ok p n (run_or E argv what)" "leaves_ok p n (run_fsck E dst)"
  unfolding run_or_def run_fsck_def
  by (intro leaves_ok_bind leaves_calls [OF assms]; auto intro: leaves_ok_ret split: prod.split option.split)+

lemma leaves_ok_disk:
  assumes "settled E n"
  shows "leaves_ok p n (prepareDisk E name base sz)" "leaves_ok p n (prepareDiskFromSnapshot E name i)"
  unfolding prepareDisk_def prepareDiskFromSnapshot_def Let_def
  by (intro leaves_if leaves_ok_if leaves_ok_ret leaves_ok_on_error leaves_ok_calls [OF assms] leaves_ok_commands [OF assms]
      errs_intros)+

lemma socket_appears_leaves:
  assumes "settled E n"
  shows "fs_lookup (files w) p = Some n \<longrightarrow> fs_lookup (files (snd (socket_appears E path d w))) p = Some n"
proof (rule socket_wait.rounds_induct [of d _ E path w])
  fix w
  assume round: "int (clock w) < d \<Longrightarrow>
    fs_lookup (files (socket_wait.round_end E path w)) p = Some n \<longrightarrow>
    fs_lookup (files (snd (socket_appears E path d (socket_wait.round_end E path w)))) p = Some n"
  have stat: "files (snd (stat_probe E path (logged E Now w))) = files w" by (simp add: snd_stat_probe logged_def)
  have "fs_lookup (files w) p = Some n \<Longrightarrow> fs_lookup (files (socket_wait.round_end E path w)) p = Some n"
    using leaves_calls(10) [OF assms, of p "100000000"] stat
    unfolding leaves_def socket_wait.round_end_def by simp
  with round show "fs_lookup (files w) p = Some n \<longrightarrow>
      fs_lookup (files (snd (socket_appears E path d w))) p = Some n"
    using stat by (subst socket_wait.loop_cases) (simp add: logged_def)
qed

lemma leaves_ok_wait: "settled E n \<Longrightarrow> leaves_ok p n (waitForSocket E path t)"
  unfolding waitForSocket_def
  by (intro leaves_ok_bind leaves_calls leaves_if leaves_ok_if leaves_ok_ret) (simp_all add: leaves_def socket_appears_leaves)

lemma leaves_nameservers: "settled E n \<Longrightarrow> leaves p n (hostNameservers E)"
proof -
  assume s: "settled E n"
  have "leaves p n (os_Open E q)" for q by (simp add: leaves_def os_Open_def run_os_read)
  moreover have "leaves p n (resolvedUpstreams E)"
    unfolding resolvedUpstreams_def
    by (intro leaves_intros leaves_calls [OF s]) (auto intro: leaves_intros split: prod.split)
  ultimately show ?thesis
    unfolding hostNameservers_def Let_def by (intro leaves_intros leaves_if leaves_ok_if)
qed

lemma leaves_ok_boot: "settled E n \<Longrightarrow> leaves_ok p n (run_boot E cfg nc cleanup disk client)"
  unfolding run_boot_def boot_calls_def SetBootSource_def SetDrive_def SetNetworkInterface_def SetMachineConfig_def
    StartInstance_def
  by (intro leaves_ok_bind leaves_nameservers leaves_ok_guarded leaves_ok_request leaves_ok_ret)

lemma leaves_ok_restore: "settled E n \<Longrightarrow> leaves_ok p n (restore_calls E cleanup client dir disk)"
  unfolding restore_calls_def LoadSnapshot_def PatchDrive_def client_ResumeVM_def
  by (intro leaves_ok_guarded leaves_ok_request leaves_ok_ret)

lemma leaves_ok_started: "settled E n \<Longrightarrow> leaves_ok p n (started_vm E cfg sock pid cpus mem port client disk)"
  unfolding started_vm_def saveVMPorts_def
  by (intro leaves_ok_bind leaves_if leaves_ok_if leaves_intros leaves_calls leaves_ok_ret)

lemma leaves_ok_launch:
  assumes "settled E n"
  shows "leaves_ok p n (run_launch E cfg snap sock disk)"
proof -
  note s = assms
  have "leaves_ok p n (on_error (run_boot E cfg nc cl disk c) err (\<lambda>_. started_vm E cfg sock pid cp m po c disk))"
    "leaves_ok p n (on_error (restore_calls E cl c dir disk) err (\<lambda>_. started_vm E cfg sock pid cp m po c disk))"
    for nc cl c pid cp m po dir
    by (intro leaves_ok_on_error leaves_ok_boot [OF s] leaves_ok_restore [OF s] leaves_ok_started [OF s] errs_intros)+
  then show ?thesis
    unfolding run_launch_def Let_def
    by (intro leaves_ok_guarded leaves_if leaves_ok_if leaves_ok_on_error leaves_ok_calls [OF s] leaves_ok_ret errs_intros
        leaves_ok_wait [OF s]) (auto split: option.split)
qed

section \<open>A started VM\<close>

text \<open>A node that is there when a program succeeds.\<close>

definition makes :: "string \<Rightarrow> node \<Rightarrow> 'a go \<Rightarrow> bool" where
  "makes p n m \<longleftrightarrow> (\<forall>w a w'. run_state m w = (Inr a, w') \<longrightarrow> fs_lookup (files w') p = Some n)"

lemma makesD: "makes p n m \<Longrightarrow> run_state m w = (Inr a, w') \<Longrightarrow> fs_lookup (files w') p = Some n"
  unfolding makes_def by blast

lemma makes_on_error:
  assumes "\<And>e. errs (h e)" and "\<And>a. makes p n (k a)"
  shows "makes p n (on_error m h k)"
  unfolding makes_def
proof (intro allI impI)
  fix w a w'
  assume "run_state (on_error m h k) w = (Inr a, w')"
  then obtain b v where "run_state (k b) v = (Inr a, w')" by (rule on_error_success [OF _ assms(1)])
  then show "fs_lookup (files w') p = Some n" by (rule makesD [OF assms(2)])
qed

lemma makes_first:
  assumes "makes p n m" and "\<And>e. errs (h e)" and "\<And>a. leaves_ok p n (k a)"
  shows "makes p n (on_error m h k)"
  unfolding makes_def
proof (intro allI impI)
  fix w a w'
  assume "run_state (on_error m h k) w = (Inr a, w')"
  then obtain b v where "run_state m w = (Inr b, v)" "run_state (k b) v = (Inr a, w')"
    by (rule on_error_success [OF _ assms(2)])
  then show "fs_lookup (files w') p = Some n" by (metis leaves_okD [OF assms(3)] makesD [OF assms(1)])
qed

lemma makes_guarded: "(\<And>a. makes p n (k a)) \<Longrightarrow> makes p n (guarded c what m k)"
  unfolding guarded_def by (intro makes_on_error errs_intros)

lemma makes_guarded_first:
  "makes p n m \<Longrightarrow> (\<And>a. leaves_ok p n (k a)) \<Longrightarrow> makes p n (guarded c what m k)"
  unfolding guarded_def by (intro makes_first errs_intros)

lemma makes_bind: "(\<And>a. makes p n (k a)) \<Longrightarrow> makes p n (State_Monad.bind m k)"
  by (auto simp: makes_def run_simps split: prod.splits)

text \<open>A request that succeeds went to a socket, which is still there.\<close>

lemma makes_request:
  assumes "settled E Socket"
  shows "makes (socketPath c) Socket (put E c path body)" "makes (socketPath c) Socket (patch E c path body)"
proof -
  have "makes (socketPath c) Socket (http_do E (socketPath c) meth path body)" for meth body
    using assms
    by (auto simp: makes_def http_do_def settled_def steady_def same_nodes_def lasting_def
        split: option.splits node.splits prod.splits) (metis snd_conv)
  then show "makes (socketPath c) Socket (put E c path body)" "makes (socketPath c) Socket (patch E c path body)"
    unfolding put_def patch_def Let_def
    by (auto intro!: makes_first errs_intros leaves_ok_ret split: prod.split)
      (auto simp: makes_def run_simps)
qed

lemma makes_boot: "settled E Socket \<Longrightarrow> makes (socketPath c) Socket (run_boot E cfg nc cleanup disk c)"
  unfolding run_boot_def boot_calls_def SetBootSource_def SetDrive_def SetNetworkInterface_def SetMachineConfig_def
    StartInstance_def
  by (rule makes_bind, rule makes_guarded, rule makes_guarded, rule makes_guarded, rule makes_guarded,
      rule makes_guarded_first, erule makes_request, rule leaves_ok_ret)

lemma makes_restore: "settled E Socket \<Longrightarrow> makes (socketPath c) Socket (restore_calls E cleanup c dir disk)"
  unfolding restore_calls_def client_ResumeVM_def
  by (rule makes_guarded, rule makes_guarded, rule makes_guarded_first, erule makes_request, rule leaves_ok_ret)

lemma makes_launch:
  assumes "settled E Socket"
  shows "makes sock Socket (run_launch E cfg snap sock disk)"
proof -
  have boot: "makes sock Socket (on_error (run_boot E cfg nc cl disk (NewClient sock)) err (\<lambda>_. started_vm E cfg sock pid cp m po c d))"
    for nc cl pid cp m po c d
    using makes_boot [OF assms, of "NewClient sock"]
    by (intro makes_first errs_intros leaves_ok_started [OF assms]) simp
  have restore: "makes sock Socket (on_error (restore_calls E cl (NewClient sock) dir disk) err (\<lambda>_. started_vm E cfg sock pid cp m po c d))"
    for cl dir pid cp m po c d
    using makes_restore [OF assms, of "NewClient sock"]
    by (intro makes_first errs_intros leaves_ok_started [OF assms]) simp
  show ?thesis
    unfolding run_launch_def Let_def
    by (rule makes_guarded, rule makes_guarded, rule makes_guarded)
      (auto simp: boot restore split: option.split)
qed

lemma mkdirs_kind:
  "fs_lookup fs p = None \<or> fs_lookup fs p = Some Dir \<Longrightarrow>
   (let fs' = foldl (\<lambda>fs q. if fs_lookup fs q = None then put_node q Dir fs else fs) fs qs
    in fs_lookup fs' p = None \<or> fs_lookup fs' p = Some Dir)"
proof (induction qs arbitrary: fs)
  case (Cons q qs)
  have "fs_lookup (put_node q Dir fs) p = None \<or> fs_lookup (put_node q Dir fs) p = Some Dir"
    using Cons.prems by (auto simp: fs_lookup_put)
  then show ?case using Cons by (simp add: Let_def)
qed simp

lemma mkdir_all_makes: "fs_mkdir_all fs p = Inr fs' \<Longrightarrow> fs_lookup fs' p = Some Dir"
  using mkdirs_kind [of fs p "ancestors p"]
  by (cases "fs_lookup fs p") (auto simp: fs_mkdir_all_def Let_def not_dir_def fs_lookup_put split: if_splits)

lemma makes_mkdir: "settled E Dir \<Longrightarrow> makes p Dir (os_MkdirAll E p)"
  by (auto simp: makes_def os_MkdirAll_def os_write_ok mkdir_all_makes)

text \<open>Removing a file leaves every other path.\<close>

lemma leaves_remove:
  assumes "settled E n" and "Clean q \<noteq> Clean p"
  shows "leaves p n (os_Remove E q)"
  unfolding os_Remove_def
proof (rule leaves_write)
  show "\<forall>w ev. fault E w ev = None" using assms(1) by (simp add: settled_def quiet_def)
  show "fs_lookup fs' p = Some n" if "fs_remove fs q = Inr fs'" "fs_lookup fs p = Some n" for fs fs'
    using fs_remove_lookup [OF that(1), of p] that(2) assms(2) fs_lookup_root [of p fs] by auto
qed

text \<open>What a start that succeeds leaves: the VM's socket in the directory of sockets.\<close>

lemma started_socket:
  assumes "quiet E" and "steady E" and "plain_name (Name cfg)"
    and "run_state (run_configured E cfg) w = (Inr vm, w')"
  shows "fs_lookup (files w') (socket_path E (Name cfg)) = Some Socket"
    and "fs_lookup (files w') (socketDirectory E) = Some Dir"
proof -
  let ?sock = "socket_path E (Name cfg)"
  have s: "settled E Socket" and d: "settled E Dir" using assms(1,2) by (simp_all add: settled_def lasting_def)
  have name: "Name (with_snapshot_ports cfg snap) = Name cfg" for snap by simp
  have "makes ?sock Socket (run_configured E cfg)"
    unfolding run_configured_def Let_def name socket_path_def [symmetric]
    by (intro makes_on_error makes_bind errs_intros makes_launch [OF s])
  then show "fs_lookup (files w') ?sock = Some Socket" by (rule makesD [OF _ assms(4)])
  have ne: "Clean ?sock \<noteq> Clean (socketDirectory E)"
    using vm_paths(2) [OF assms(3), of E] vm_paths_clean(2) [OF assms(3), of E] socket_dir_path [of E] by simp
  have "makes (socketDirectory E) Dir (run_configured E cfg)"
    unfolding run_configured_def Let_def name socket_path_def [symmetric]
    by (rule makes_on_error, rule errs_intros, rule makes_on_error, rule errs_intros,
        rule makes_first, rule makes_mkdir [OF d], rule errs_intros,
        rule leaves_ok_bind, rule leaves_remove [OF d ne], rule leaves_ok_on_error)
      (auto intro: leaves_ok_disk [OF d] leaves_ok_launch [OF d] errs_intros split: option.split)
  then show "fs_lookup (files w') (socketDirectory E) = Some Dir" by (rule makesD [OF _ assms(4)])
qed


section \<open>A VM that is started and listed\<close>

definition idle_socket :: string where
  "idle_socket = ''/root/.local/share/knaller/sockets/web.socket''"

text \<open>Starting the process makes the socket; the server answers every request.\<close>

definition idle_env :: env where
  "idle_env = calm_env\<lparr>
     spawned := \<lambda>w argv. (Inr 100, if fs_lookup (files w) idle_socket = None then put_node idle_socket Socket (files w) else files w),
     serve := \<lambda>w _ meth _ _.
       (Inr (if meth = ''GET'' then (200, json_Marshal (enc_InstanceInfo zero_InstanceInfo)) else (204, [])), files w)\<rparr>"

definition idle_config :: Config where
  "idle_config = zero_Config\<lparr>Name := ''web'', Kernel := ''/vmlinux'', RootFS := ''/rootfs''\<rparr>"

definition idle_files :: files where
  "idle_files = [(''/vmlinux'', File []), (''/rootfs'', File [])]"

definition idle_made :: files where
  "idle_made = projr (fs_mkdir_all idle_files (socketDirectory idle_env))"

definition idle_disk :: files where
  "idle_disk = projr (fs_mkdir_all idle_made (vmDataDir idle_env ''web''))"

lemma idle_env_simps:
  "home idle_env = ''/root''" "fault idle_env w ev = None" "took idle_env w ev = 0"
  "command idle_env w argv = ([], None, files w)" "meanwhile idle_env w d = files w"
  "spawned idle_env w argv =
     (Inr 100, if fs_lookup (files w) idle_socket = None then put_node idle_socket Socket (files w) else files w)"
  "serve idle_env w sock meth path body =
     (Inr (if meth = ''GET'' then (200, json_Marshal (enc_InstanceInfo zero_InstanceInfo)) else (204, [])), files w)"
  by (simp_all add: idle_env_def)

lemma idle_facts:
  "socket_path idle_env ''web'' = idle_socket" "\<not> root_path idle_socket"
  "\<not> isl (fs_mkdir_all idle_files (socketDirectory idle_env))"
  "\<not> isl (fs_mkdir_all idle_made (vmDataDir idle_env ''web''))"
  "fs_lookup idle_made idle_socket = None" "fs_lookup idle_disk idle_socket = None"
  "fs_lookup idle_files ''/vmlinux'' = Some (File [])" "fs_lookup idle_files ''/rootfs'' = Some (File [])"
  "fs_lookup (put_node idle_socket Socket idle_disk) (vmsDir idle_env) = Some Dir"
  by code_simp+

lemma put_same_nodes: "fs_lookup fs q = None \<Longrightarrow> same_nodes fs (put_node q n fs)"
  unfolding same_nodes_def
proof (intro allI impI, elim conjE)
  fix p m
  assume q: "fs_lookup fs q = None" and p: "fs_lookup fs p = Some m"
  then have "Clean p \<noteq> Clean q" using fs_lookup_same [of p q fs] by auto
  with p show "fs_lookup (put_node q n fs) p = Some m"
    using fs_lookup_root [of p fs] by (auto simp: fs_lookup_put)
qed

lemma idle_steady: "steady idle_env"
  by (simp add: steady_def idle_env_simps put_same_nodes) (simp add: same_nodes_def)

lemma idle_quiet: "quiet idle_env"
  by (simp add: quiet_def idle_env_simps)

lemma idle_answers: "answers idle_env ''web'' zero_InstanceInfo"
  by (simp add: answers_def GetInfo_def get_def root_url http_do_def idle_env_simps run_simps instance_info.decode_marshal)

text \<open>Calls that succeed from a state with the files \<open>fs\<close> and leave the files \<open>fs'\<close>.\<close>

definition goes :: "files \<Rightarrow> 'a go \<Rightarrow> files \<Rightarrow> bool" where
  "goes fs m fs' \<longleftrightarrow> (\<forall>w. files w = fs \<longrightarrow> (\<exists>a w'. run_state m w = (Inr a, w') \<and> files w' = fs'))"

lemma goes_on_error: "goes fs m fs1 \<Longrightarrow> (\<And>a. goes fs1 (k a) fs2) \<Longrightarrow> goes fs (on_error m h k) fs2"
  by (fastforce simp: goes_def run_on_error)

lemma goes_guarded: "goes fs m fs1 \<Longrightarrow> (\<And>a. goes fs1 (k a) fs2) \<Longrightarrow> goes fs (guarded c what m k) fs2"
  unfolding guarded_def by (rule goes_on_error)

lemma goes_bind:
  "(\<And>w. files w = fs \<Longrightarrow> files (snd (run_state m w)) = fs1) \<Longrightarrow> (\<And>a. goes fs1 (k a) fs2) \<Longrightarrow>
   goes fs (State_Monad.bind m k) fs2"
  by (fastforce simp: goes_def run_simps split: prod.split)

lemma goes_ok: "goes fs (ok a) fs"
  by (simp add: goes_def run_simps)

lemma idle_put: "fs_lookup fs idle_socket = Some Socket \<Longrightarrow> \<not> bad_url path \<Longrightarrow>
  goes fs (put idle_env (NewClient idle_socket) path body) fs"
  by (auto simp: goes_def run_put answer_def http_do_def idle_env_simps NewClient_def)

lemma idle_nameservers: "files (snd (run_state (hostNameservers idle_env) w)) = files w"
  by (auto simp: hostNameservers_def resolvedUpstreams_def os_Open_def exec_run_def run_os_read run_simps idle_env_simps
      Let_def split: prod.split sum.split)

lemma idle_wait:
  assumes "fs_lookup fs p = Some n" and "0 < t"
  shows "goes fs (waitForSocket idle_env p t) fs"
  unfolding goes_def
proof (intro allI impI)
  fix w :: world
  assume "files w = fs"
  then have "run_state (os_Stat idle_env p) v = (Inr n, logged idle_env (Stat p) v)" if "files v = fs" for v
    using assms(1) that by (simp add: os_Stat_def run_os_read fs_stat_def idle_env_simps)
  then show "\<exists>a w'. run_state (waitForSocket idle_env p t) w = (Inr a, w') \<and> files w' = fs"
    using \<open>files w = fs\<close> assms(2)
    by (simp add: waitForSocket_def run_simps time_Now_def logged_def idle_env_simps)
      (subst socket_appears.simps, simp add: time_Now_def logged_def idle_env_simps)
qed

lemma on_error_ok: "on_error (ok a) h k = k a"
  by (rule state_ext) (simp add: run_on_error run_simps)

lemma idle_disk_goes:
  "goes idle_files (os_MkdirAll idle_env (socketDirectory idle_env)) idle_made"
  "RootFSSize cfg = 0 \<Longrightarrow> goes idle_made (prepareDisk idle_env ''web'' base (RootFSSize cfg)) idle_disk"
proof -
  have mk: "goes fs (os_MkdirAll idle_env p) (projr (fs_mkdir_all fs p))" if "\<not> isl (fs_mkdir_all fs p)" for fs p
    using that by (auto simp: goes_def os_MkdirAll_def os_write_def idle_env_simps split: sum.split)
  show "goes idle_files (os_MkdirAll idle_env (socketDirectory idle_env)) idle_made"
    using mk [OF idle_facts(3)] by (simp add: idle_made_def)
  have cp: "goes fs (run_or idle_env argv what) fs" for fs argv what
    by (simp add: goes_def run_or_def exec_run_def run_simps idle_env_simps)
  show "RootFSSize cfg = 0 \<Longrightarrow> goes idle_made (prepareDisk idle_env ''web'' base (RootFSSize cfg)) idle_disk"
    using mk [OF idle_facts(4)] unfolding prepareDisk_def Let_def idle_disk_def
    by (auto intro!: goes_on_error cp goes_ok)
qed

lemma idle_launch:
  assumes "Name cfg = ''web''" and "Detach cfg = False" and "Ports cfg = []"
  shows "goes idle_disk (run_launch idle_env cfg None idle_socket disk) (put_node idle_socket Socket idle_disk)"
proof -
  let ?fs = "put_node idle_socket Socket idle_disk"
  have sock: "fs_lookup ?fs idle_socket = Some Socket" using idle_facts(2) by (simp add: fs_lookup_put)
  have spawn: "goes idle_disk (exec_start idle_env argv b) ?fs" for argv b
    by (simp add: goes_def exec_start_def idle_env_simps idle_facts(6))
  have urls: "\<not> bad_url ''/boot-source''" "\<not> bad_url ''/drives/rootfs''" "\<not> bad_url ''/network-interfaces/eth0''"
    "\<not> bad_url ''/machine-config''" "\<not> bad_url ''/actions''" by code_simp+
  have ids: "''/drives/'' @ DriveID (drive_of cfg disk) = ''/drives/rootfs''"
    "''/network-interfaces/'' @ IfaceID (nic_of idle_env cfg nc) = ''/network-interfaces/eth0''" for nc by simp_all
  have boot: "goes ?fs (run_boot idle_env cfg nc cl disk (NewClient idle_socket)) ?fs" for nc cl
    unfolding run_boot_def boot_calls_def SetBootSource_def SetDrive_def SetNetworkInterface_def SetMachineConfig_def
      StartInstance_def ids
    by (rule goes_bind, rule trans [OF idle_nameservers], assumption)
      (rule goes_guarded, rule idle_put [OF sock urls(1)], rule goes_guarded, rule idle_put [OF sock urls(2)],
       rule goes_guarded, rule idle_put [OF sock urls(3)], rule goes_guarded, rule idle_put [OF sock urls(4)],
       rule goes_guarded, rule idle_put [OF sock urls(5)], rule goes_ok)
  have started: "goes ?fs (started_vm idle_env cfg s pid cp m po c d) ?fs" for s pid cp m po c d
    using assms(3) by (simp add: goes_def started_vm_def saveVMPorts_def time_Now_def run_simps)
  show ?thesis
    unfolding run_launch_def Let_def assms(2) option.case if_False
    by (rule goes_guarded, rule goes_ok, rule goes_guarded, rule spawn, rule goes_guarded, rule idle_wait [OF sock], simp,
        rule goes_on_error, rule boot, rule started)
qed

lemma idle_configured:
  assumes "Name cfg = ''web''" "Detach cfg = False" "Ports cfg = []" "SnapshotID cfg = []" "Kernel cfg = ''/vmlinux''"
    "RootFS cfg = ''/rootfs''" "RawDiskPath cfg = []" "RootFSSize cfg = 0" "\<not> f_le (CPUs cfg) (Fin 0 0)" "128 \<le> Memory cfg"
  shows "goes idle_files (run_configured idle_env cfg) (put_node idle_socket Socket idle_disk)"
proof -
  have snap: "load_snapshot idle_env cfg = ok None" using assms(4) by (simp add: load_snapshot_def)
  have ports: "with_snapshot_ports cfg None = cfg" by (simp add: with_snapshot_ports_def)
  have stat: "goes idle_files (os_Stat idle_env p) idle_files" if "fs_lookup idle_files p = Some n" for p n
    using that by (auto simp: goes_def os_Stat_def run_os_read fs_stat_def idle_env_simps)
  have valid: "goes idle_files (validate idle_env cfg) idle_files"
    using assms unfolding validate_def
    by (auto intro!: goes_on_error stat [OF idle_facts(7)] stat [OF idle_facts(8)] goes_ok)
  have rm: "files (snd (run_state (os_Remove idle_env idle_socket) w)) = idle_made" if "files w = idle_made" for w
    using that idle_facts(5) by (simp add: os_Remove_def os_write_def fs_remove_def idle_env_simps)
  show ?thesis
    unfolding run_configured_def snap on_error_ok Let_def ports option.case assms(1) socket_path_def [symmetric] idle_facts(1)
    by (rule goes_on_error, rule valid, rule goes_on_error, rule idle_disk_goes(1), rule goes_bind, erule rm,
        rule goes_on_error, rule idle_disk_goes(2) [OF assms(8)], rule idle_launch [OF assms(1-3)])
qed

lemma idle_run:
  "\<exists>vm w'. run_state (Run idle_env idle_config) (empty_world\<lparr>files := idle_files\<rparr>) = (Inr vm, w') \<and>
     files w' = put_node idle_socket Socket idle_disk"
proof -
  let ?w = "empty_world\<lparr>files := idle_files\<rparr>"
  obtain d v where d: "run_state (setDefaults idle_env idle_config) ?w = (d, v)" by fastforce
  have "files v = idle_files" "Name d = ''web''" "Detach d = False" "Ports d = []" "SnapshotID d = []" "Kernel d = ''/vmlinux''"
    "RootFS d = ''/rootfs''" "RawDiskPath d = []" "RootFSSize d = 0" "\<not> f_le (CPUs d) (Fin 0 0)" "128 \<le> Memory d"
    using d by (auto simp: setDefaults_def idle_config_def zero_Config_def run_simps f_le_def scaled_def)
  from idle_configured [OF this(2-11)] this(1) d show ?thesis
    by (simp add: goes_def Run_def run_simps)
qed


end
