(* ===== verification/Invocation.thy ===== *)
theory Invocation
  imports Cli
begin

text \<open>
  Whole invocations of the program: what a command line means, that each one comes to an end, and that
  every configuration of a VM the flags can express can be given on a command line.
\<close>

section \<open>The flags of the start command\<close>

lemma start_set_simps:
  "map_of start_set ''name'' = Some (string_value (\<lambda>v f. f\<lparr>flag_name := v\<rparr>))"
  "map_of start_set ''kernel'' = Some (string_value (\<lambda>v f. f\<lparr>flag_kernel := v\<rparr>))"
  "map_of start_set ''rootfs'' = Some (string_value (\<lambda>v f. f\<lparr>flag_rootfs := v\<rparr>))"
  "map_of start_set ''cpus'' = Some (float_value (\<lambda>v f. f\<lparr>flag_cpus := v\<rparr>))"
  "map_of start_set ''mem'' = Some (int_value (\<lambda>v f. f\<lparr>flag_mem := v\<rparr>))"
  "map_of start_set ''network-bandwidth'' = Some (float_value (\<lambda>v f. f\<lparr>flag_netBw := v\<rparr>))"
  "map_of start_set ''disk-bandwidth'' = Some (int_value (\<lambda>v f. f\<lparr>flag_diskBw := v\<rparr>))"
  "map_of start_set ''disk-iops'' = Some (int_value (\<lambda>v f. f\<lparr>flag_diskIOPS := v\<rparr>))"
  "map_of start_set ''port'' = Some port_value"
  "map_of start_set ''from-snapshot'' = Some (string_value (\<lambda>v f. f\<lparr>flag_fromSnapshot := v\<rparr>))"
  "map_of start_set ''firecracker'' = Some (string_value (\<lambda>v f. f\<lparr>flag_fcBin := v\<rparr>))"
  "map_of start_set ''pasta'' = Some (string_value (\<lambda>v f. f\<lparr>flag_pastaBin := v\<rparr>))"
  "map_of start_set ''detach'' = Some (Switch (\<lambda>b f. f\<lparr>flag_detach := b\<rparr>))"
  "map_of start_set ''verbose'' = Some (Switch (\<lambda>b f. f\<lparr>flag_verbose := b\<rparr>))"
  by (simp_all add: start_set_def)

text \<open>The settings that give every flag its value, the real numbers as the texts \<open>c\<close> and \<open>n\<close>.\<close>

definition port_settings :: "PortMapping list \<Rightarrow> setting list" where
  "port_settings ms = map (\<lambda>m. Give ''port'' (itoa (Host m) @ '':'' @ itoa (Guest m))) ms"

definition bool_text :: "bool \<Rightarrow> string" where
  "bool_text b = (if b then ''true'' else ''false'')"

definition start_settings :: "start_flags \<Rightarrow> string \<Rightarrow> string \<Rightarrow> setting list" where
  "start_settings f c n =
     [Give ''name'' (flag_name f), Give ''kernel'' (flag_kernel f), Give ''rootfs'' (flag_rootfs f),
      Give ''cpus'' c, Give ''mem'' (itoa (flag_mem f)), Give ''network-bandwidth'' n,
      Give ''disk-bandwidth'' (itoa (flag_diskBw f)), Join_eq ''disk-iops'' (itoa (flag_diskIOPS f)),
      Join_eq ''from-snapshot'' (flag_fromSnapshot f), Give ''firecracker'' (flag_fcBin f),
      Give ''pasta'' (flag_pastaBin f), Join_eq ''detach'' (bool_text (flag_detach f)),
      Join_eq ''verbose'' (bool_text (flag_verbose f))] @ port_settings (flag_ports f)"

lemma apply_settings_append:
  "apply_settings F (ss @ ts) r = Option.bind (apply_settings F ss r) (apply_settings F ts)"
  by (induction ss arbitrary: r) (auto split: bind_splits)

lemma portList_Set_text:
  "int64_range h \<Longrightarrow> int64_range g \<Longrightarrow>
   portList_Set (itoa h @ '':'' @ itoa g) p = Inr (p @ [\<lparr> Host = h, Guest = g \<rparr>])"
  using cut_append [OF no_colon_itoa, of h "[]" "itoa g"] by (simp add: portList_Set_def atoi_itoa_range)

definition ports_in_range :: "PortMapping list \<Rightarrow> bool" where
  "ports_in_range ms \<longleftrightarrow> (\<forall>m \<in> set ms. int64_range (Host m) \<and> int64_range (Guest m))"

lemma apply_port_settings:
  "ports_in_range ms \<Longrightarrow>
   apply_settings (map_of start_set) (port_settings ms) f = Some (f\<lparr>flag_ports := flag_ports f @ ms\<rparr>)"
proof (induction ms arbitrary: f)
  case (Cons m ms)
  then have "portList_Set (itoa (Host m) @ '':'' @ itoa (Guest m)) (flag_ports f) = Inr (flag_ports f @ [m])"
    using portList_Set_text [of "Host m" "Guest m"] by (simp add: ports_in_range_def)
  with Cons show ?case
    by (simp add: port_settings_def start_set_simps port_value_def ports_in_range_def)
qed (simp add: port_settings_def)

lemma start_settings_fit: "list_all (fits (map_of start_set)) (start_settings f c n)"
  by (auto simp: start_settings_def port_settings_def list_all_iff fits_def start_set_simps flag_word_def
      string_value_def int_value_def float_value_def port_value_def)

text \<open>Every value of the flags whose integers fit 64 bits can be given.\<close>

lemma start_settings_read:
  assumes "ParseFloat c = Some (flag_cpus f)" and "ParseFloat n = Some (flag_netBw f)"
    and "int64_range (flag_mem f)" and "int64_range (flag_diskBw f)" and "int64_range (flag_diskIOPS f)"
    and "ports_in_range (flag_ports f)"
  shows "apply_settings (map_of start_set) (start_settings f c n) start_defaults = Some f"
  using assms
  by (simp add: start_settings_def apply_settings_append apply_port_settings start_set_simps string_value_def
      int_value_def float_value_def ParseInt_itoa bool_text_def ParseBool_def start_defaults_def)


text \<open>What the flags can hold: integers of 64 bits.\<close>

definition flags_in_range :: "start_flags \<Rightarrow> bool" where
  "flags_in_range f \<longleftrightarrow> int64_range (flag_mem f) \<and> int64_range (flag_diskBw f) \<and>
     int64_range (flag_diskIOPS f) \<and> ports_in_range (flag_ports f)"

lemma portList_Set_range:
  "portList_Set v p = Inr q \<Longrightarrow> ports_in_range p \<Longrightarrow> ports_in_range q"
  by (auto simp: portList_Set_def ports_in_range_def atoi_int64 split: option.splits)

lemma start_set_keeps:
  assumes "map_of start_set n = Some x" and "flags_in_range f"
  shows "case x of Value g \<Rightarrow> (\<forall>v f'. g v f = Some f' \<longrightarrow> flags_in_range f') | Switch g \<Rightarrow> \<forall>b. flags_in_range (g b f)"
  using assms map_of_SomeD [OF assms(1)]
  by (auto simp: start_set_def string_value_def int_value_def float_value_def port_value_def flags_in_range_def
      ParseInt_range portList_Set_range split: sum.splits)

lemma start_flags_parsed:
  "case parse_flags (map_of start_set) args start_defaults of
     Inl n \<Rightarrow> n = 0 \<or> n = 2 | Inr f \<Rightarrow> flags_in_range f"
proof (rule parse_flags_keeps)
  show "flags_in_range start_defaults"
    by (simp add: flags_in_range_def start_defaults_def ports_in_range_def int64_range_def)
  show "flags_in_range r'" if "map_of start_set n = Some (Value f)" "f v r = Some r'" "flags_in_range r" for n f v r r'
    using start_set_keeps [OF that(1,3)] that(2) by simp
  show "flags_in_range (f b r)" if "map_of start_set n = Some (Switch f)" "flags_in_range r" for n f b r
    using start_set_keeps [OF that] by simp
qed

section \<open>Every invocation ends\<close>

lemma string_flag_code: "string_flag n v args = Inl k \<Longrightarrow> k = 0 \<or> k = 2"
  using parse_flags_keeps [of "\<lambda>_. True" v "map_of [(n, Value (\<lambda>v _. Some v))]" args]
  by (simp add: string_flag_def)

definition ends_well :: "ending \<Rightarrow> bool" where
  "ends_well m \<longleftrightarrow> (\<forall>w. case m w of
     None \<Rightarrow> False
   | Some (out, w') \<Rightarrow> exit_code out \<in> {0, 1, 2} \<and> out \<noteq> Exits 1 \<and> (if exit_code out = 2 then w' = w else True))"

lemma exit_code_Returns: "exit_code (Returns r) = (if isl r then 1 else 0)"
  by (cases r) simp_all

lemma ends_well_returns: "ends_well (ends (do { r \<leftarrow> m; ret (Returns r) }))"
  by (simp add: ends_well_def ends_def run_simps exit_code_Returns split: prod.split)

lemma ends_well_ret: "ends_well (ends (ret (Returns r)))"
  by (simp add: ends_well_def ends_def run_simps exit_code_Returns)

lemma ends_well_with_flag: "ends_well (ends (with_flag n absent args m))"
proof (cases "string_flag n [] args")
  case (Inl k)
  then show ?thesis using string_flag_code [OF Inl] by (auto simp: with_flag_def ends_well_def ends_def run_simps)
next
  case (Inr v)
  then show ?thesis by (simp add: with_flag_def ends_well_returns)
qed

lemma ends_well_start: "ends_well (cli_Start E i args)"
  unfolding ends_well_def
proof
  fix w
  show "case cli_Start E i args w of
     None \<Rightarrow> False
   | Some (out, w') \<Rightarrow> exit_code out \<in> {0, 1, 2} \<and> out \<noteq> Exits 1 \<and> (if exit_code out = 2 then w' = w else True)"
  proof (cases "parse_flags (map_of start_set) args start_defaults")
    case (Inl n)
    then show ?thesis using start_flags_parsed [of args] by (auto simp: cli_Start_def)
  next
    case (Inr f)
    obtain r w' where "Start E f i w = Some (r, w')"
      using start_command_lemma [where E = E and f = f and i = i and w = w] by (cases "Start E f i w") auto
    with Inr show ?thesis by (simp add: cli_Start_def exit_code_Returns)
  qed
qed

lemmas ends_well_intros = ends_well_start ends_well_with_flag ends_well_returns ends_well_ret

lemma dispatch_ends_well: "ends_well (dispatch E i args)"
proof -
  have snapshot: "ends_well (ends (cli_Snapshot E args))" for args
    by (auto simp: cli_Snapshot_def snapshotCreate_def snapshotDelete_def snapshotList_def
        intro: ends_well_intros split: list.split)
  have "ends_well fn" if "map_of (cmds E i) c = Some f" "fn = f rest" for c f fn rest
    using that snapshot
    by (auto simp: cmds_def cli_Stop_def cli_Rm_def cli_Pause_def cli_Resume_def cli_List_def
        intro: ends_well_intros split: if_splits)
  then show ?thesis
    by (auto simp: dispatch_def intro: ends_well_intros split: list.split option.split)
qed


text \<open>A port of 8080 for the guest's 80, half a CPU and 512 MiB.\<close>

definition small_vm :: start_flags where
  "small_vm = start_defaults\<lparr> flag_name := ''web'', flag_cpus := f_ratio 5 10, flag_mem := 512,
     flag_ports := [\<lparr> Host = 8080, Guest = 80 \<rparr>], flag_detach := True \<rparr>"


end
