(* ===== verification/Rounding.thy ===== *)
theory Rounding
  imports Complex_Main Float64
begin

text \<open>How far a rounded result is from the exact one: the operations of \<open>Float64\<close> over the reals.\<close>

section \<open>Values\<close>

fun f_val :: "float64 \<Rightarrow> real" where
  "f_val (Fin m e) = of_int m * 2 powr of_int e"
| "f_val _ = 0"

definition finite_float :: "float64 \<Rightarrow> bool" where
  "finite_float x = (case x of Fin _ _ \<Rightarrow> True | _ \<Rightarrow> False)"

lemma int_bits_bounds: "0 < n \<Longrightarrow> 2 ^ nat (int_bits n - 1) \<le> n \<and> n < 2 ^ nat (int_bits n) \<and> 1 \<le> int_bits n"
proof (induction n rule: int_bits.induct)
  case (1 n)
  show ?case
  proof (cases "n = 1")
    case True
    then show ?thesis by (simp add: int_bits.simps)
  next
    case False
    with 1 have h: "2 ^ nat (int_bits (n div 2) - 1) \<le> n div 2" "n div 2 < 2 ^ nat (int_bits (n div 2))"
      "1 \<le> int_bits (n div 2)" by auto
    have b: "int_bits n = 1 + int_bits (n div 2)" using 1 by (simp add: int_bits.simps [of n])
    have "nat (int_bits n - 1) = Suc (nat (int_bits (n div 2) - 1))" "nat (int_bits n) = Suc (nat (int_bits (n div 2)))"
      using b h(3) by auto
    then have "2 ^ nat (int_bits n - 1) = 2 * (2 :: int) ^ nat (int_bits (n div 2) - 1)"
      "2 ^ nat (int_bits n) = 2 * (2 :: int) ^ nat (int_bits (n div 2))" by simp_all
    moreover have "2 * (n div 2) \<le> n" "n < 2 * (n div 2 + 1)" by simp_all
    ultimately show ?thesis using h b by linarith
  qed
qed

lemma half_even_error: "\<bar>half_even a k * 2 ^ k - a\<bar> * 2 \<le> 2 ^ k"
proof -
  let ?q = "a div 2 ^ k" and ?r = "a mod 2 ^ k"
  have a: "a = ?q * 2 ^ k + ?r" by (simp add: div_mult_mod_eq)
  have r: "0 \<le> ?r" "?r < 2 ^ k" by simp_all
  show ?thesis
  proof (cases "2 * ?r < 2 ^ k \<or> (2 * ?r = 2 ^ k \<and> even ?q)")
    case True
    then have "half_even a k * 2 ^ k - a = - ?r" using a by (simp add: half_even_def Let_def)
    with True r show ?thesis by auto
  next
    case False
    then have "half_even a k * 2 ^ k - a = 2 ^ k - ?r" using a by (simp add: half_even_def Let_def algebra_simps)
    moreover have "0 < 2 ^ k - ?r" using r(2) by linarith
    ultimately have "\<bar>half_even a k * 2 ^ k - a\<bar> = 2 ^ k - ?r" by (simp only: abs_of_pos)
    moreover have "(2 ^ k - r') * 2 \<le> 2 ^ k" if "2 ^ k \<le> 2 * r'" for r' :: int using that by simp
    moreover have "2 ^ k \<le> 2 * ?r" using False by auto
    ultimately show ?thesis by (simp only:)
  qed
qed

text \<open>
  A result that does not overflow is within one part in 2 to the 53 of the exact value, if that is not
  so small that digits are lost.
\<close>

lemma f_round_error:
  assumes "finite_float (f_round m e)" and "m = 0 \<or> - 1074 \<le> e + (int_bits \<bar>m\<bar> - 53)"
  shows "\<bar>f_val (f_round m e) - of_int m * 2 powr of_int e\<bar> \<le> \<bar>of_int m * 2 powr of_int e\<bar> / 2 ^ 53"
proof -
  define k where "k = max (int_bits \<bar>m\<bar> - 53) (- 1074 - e)"
  define q where "q = (if k \<le> 0 then \<bar>m\<bar> else half_even \<bar>m\<bar> (nat k))"
  define e' where "e' = (if k \<le> 0 then e else e + k)"
  have r: "f_round m e = Fin (sgn m * q) e'"
    using assms(1) by (auto simp: f_round_def Let_def finite_float_def k_def [symmetric] q_def [symmetric] e'_def [symmetric]
        split: if_splits)
  show ?thesis
  proof (cases "m = 0 \<or> k \<le> 0")
    case True
    then have "f_val (f_round m e) = of_int m * 2 powr of_int e"
      by (auto simp: r q_def e'_def sgn_if)
    then show ?thesis by simp
  next
    case False
    have m: "0 < \<bar>m\<bar>" and k: "0 < k" using False by auto
    have kb: "k = int_bits \<bar>m\<bar> - 53" using assms(2) m k by (auto simp: k_def)
    have b: "(2 :: real) ^ (nat k + 52) \<le> \<bar>of_int m\<bar>"
    proof -
      have "nat (int_bits \<bar>m\<bar> - 1) = nat k + 52" using kb k by simp
      then have "(2 :: int) ^ (nat k + 52) \<le> \<bar>m\<bar>" using int_bits_bounds [OF m] by simp
      then have "real_of_int (2 ^ (nat k + 52)) \<le> real_of_int \<bar>m\<bar>" by (simp only: of_int_le_iff)
      then show ?thesis by simp
    qed
    have "real_of_int (\<bar>q * 2 ^ nat k - \<bar>m\<bar>\<bar> * 2) \<le> real_of_int (2 ^ nat k)"
      using half_even_error [of "\<bar>m\<bar>" "nat k"] k unfolding q_def by (simp only: of_int_le_iff) simp
    then have err: "\<bar>of_int q * 2 ^ nat k - \<bar>of_int m\<bar>\<bar> \<le> 2 ^ nat k / (2 :: real)" by simp
    have pw: "2 powr real_of_int e' = 2 ^ nat k * 2 powr real_of_int e"
      using k by (simp add: e'_def powr_add powr_real_of_int)
    have "f_val (f_round m e) - of_int m * 2 powr of_int e =
        of_int (sgn m) * (of_int q * 2 ^ nat k - \<bar>of_int m\<bar>) * 2 powr of_int e"
      using m by (cases "0 < m") (simp_all add: r pw algebra_simps)
    then have "\<bar>f_val (f_round m e) - of_int m * 2 powr of_int e\<bar> =
        \<bar>of_int q * 2 ^ nat k - \<bar>of_int m\<bar>\<bar> * 2 powr of_int e"
      using m by (auto simp: abs_mult sgn_if)
    also have "\<dots> \<le> 2 ^ nat k / 2 * 2 powr of_int e" using err by (intro mult_right_mono) simp_all
    also have "\<dots> = 2 ^ (nat k + 52) / 2 ^ 53 * 2 powr of_int e" by (simp add: power_add)
    also have "\<dots> \<le> \<bar>of_int m\<bar> / 2 ^ 53 * 2 powr of_int e" using b by (intro mult_right_mono divide_right_mono) simp_all
    finally show ?thesis by (simp add: abs_mult)
  qed
qed

lemma error_sum:
  fixes v a b p :: real
  assumes "\<bar>v - a\<bar> \<le> \<bar>a\<bar> / 2 ^ 53" and "\<bar>a - b\<bar> \<le> p" and "p \<le> b / 2 ^ 60" and "0 \<le> a"
  shows "\<bar>v - b\<bar> \<le> b / 2 ^ 52"
proof -
  have "v \<le> a + a / 9007199254740992" "a - a / 9007199254740992 \<le> v" "a \<le> b + p" "b - p \<le> a"
    "p \<le> b / 1152921504606846976"
    using assms abs_ge_self [of "v - a"] abs_ge_minus_self [of "v - a"] abs_ge_self [of "a - b"]
      abs_ge_minus_self [of "a - b"] by simp_all
  then have "v \<le> b + b / 4503599627370496" "b - b / 4503599627370496 \<le> v" using assms(4) by linarith+
  then have "\<bar>v - b\<bar> \<le> b / 4503599627370496" by (intro abs_leI) linarith+
  then show ?thesis by simp
qed

lemma f_ratio_error:
  assumes "0 < d" and "0 < m" and "finite_float (f_ratio m d)" and "\<bar>int_bits d - int_bits m\<bar> \<le> 900"
  shows "\<bar>f_val (f_ratio m d) - of_int m / of_int d\<bar> \<le> of_int m / of_int d / 2 ^ 52"
proof -
  define k where "k = nat (int_bits d - int_bits m + 60)"
  define q where "q = m * 2 ^ k div d"
  define r where "r = m * 2 ^ k mod d"
  define x where "x = 2 * q + (if r = 0 then 0 else 1)"
  have fr: "f_ratio m d = f_round x (- int k - 1)"
    using assms(2) by (simp add: f_ratio_def Let_def k_def q_def r_def x_def)
  have qr: "m * 2 ^ k = q * d + r" "0 \<le> r" "r < d"
    using assms(1) by (simp_all add: q_def r_def)
  have close: "\<bar>of_int x - 2 * (of_int m * 2 ^ k / of_int d)\<bar> \<le> (1 :: real)"
  proof -
    have "real_of_int (m * 2 ^ k) = real_of_int (q * d + r)" using qr(1) by simp
    then have "2 * (of_int m * 2 ^ k / of_int d) = (2 * of_int q + 2 * (of_int r / of_int d) :: real)"
      using assms(1) by (simp add: field_simps)
    moreover have "0 \<le> (of_int r / of_int d :: real)" "(of_int r / of_int d :: real) < 1" using qr assms(1) by simp_all
    ultimately show ?thesis by (auto simp: x_def abs_if)
  qed
  define y where "y = real_of_int m * 2 ^ k / of_int d"
  have big: "2 ^ 59 \<le> y"
  proof -
    have m: "2 ^ nat (int_bits m - 1) \<le> m" "1 \<le> int_bits m" and d: "d < 2 ^ nat (int_bits d)" "1 \<le> int_bits d"
      using int_bits_bounds [OF assms(2)] int_bits_bounds [OF assms(1)] by auto
    have "59 + nat (int_bits d) \<le> nat (int_bits m - 1) + k" using m(2) d(2) by (simp add: k_def)
    then have "2 ^ 59 * 2 ^ nat (int_bits d) \<le> (2 :: int) ^ nat (int_bits m - 1) * 2 ^ k"
      by (simp only: power_add [symmetric] power_increasing_iff)
    also have "\<dots> \<le> m * 2 ^ k" using m(1) by (rule mult_right_mono) simp
    finally have "2 ^ 59 * d \<le> m * 2 ^ k" using d(1) by (smt (verit) mult_left_mono zero_le_power)
    then have "real_of_int (2 ^ 59 * d) \<le> real_of_int (m * 2 ^ k)" by (simp only: of_int_le_iff)
    then show ?thesis using assms(1) by (simp add: y_def pos_le_divide_eq)
  qed
  have xy: "\<bar>of_int x - 2 * y\<bar> \<le> 1" using close by (simp add: y_def)
  then have "2 * y - 1 \<le> of_int x" by (simp add: abs_le_iff)
  moreover have "(1 :: real) \<le> 2 ^ 59" by simp
  ultimately have "2 ^ 59 \<le> real_of_int x" using big by linarith
  then have x: "2 ^ 59 \<le> x" by (metis of_int_le_iff of_int_numeral of_int_power)
  have bits: "60 \<le> int_bits x"
  proof (rule ccontr)
    assume "\<not> 60 \<le> int_bits x"
    then have "nat (int_bits x) \<le> 59" by simp
    then have "(2 :: int) ^ nat (int_bits x) \<le> 2 ^ 59" by (rule power_increasing) simp
    moreover have "0 < x" using x by (rule less_le_trans [rotated]) simp
    ultimately show False using int_bits_bounds [of x] x by linarith
  qed
  have k: "int k \<le> 960" using assms(4) unfolding k_def by linarith
  define p where "p = 2 powr real_of_int (- int k - 1)"
  have p: "0 < p" "2 * y * p = of_int m / of_int d"
  proof -
    have "p = 1 / (2 ^ k * 2)" by (simp add: p_def powr_diff powr_minus powr_realpow field_simps)
    then show "0 < p" "2 * y * p = of_int m / of_int d" by (simp_all add: y_def)
  qed
  have "\<bar>f_val (f_ratio m d) - of_int x * p\<bar> \<le> \<bar>of_int x * p\<bar> / 2 ^ 53"
    unfolding fr p_def by (rule f_round_error) (use assms(3) fr bits k x in auto)
  moreover have "\<bar>of_int x * p - 2 * y * p\<bar> \<le> p"
    using mult_right_mono [OF xy, of p] p(1) by (simp add: abs_mult left_diff_distrib flip: left_diff_distrib)
  moreover have "p \<le> 2 * y * p / 2 ^ 60" using mult_right_mono [OF big, of p] p(1) by simp
  moreover have "0 \<le> of_int x * p" using x p(1) by simp
  ultimately show ?thesis unfolding p(2) [symmetric] by (rule error_sum)
qed

section \<open>Results that do not overflow\<close>

lemma int_bits_mono: "0 \<le> a \<Longrightarrow> a < 2 ^ k \<Longrightarrow> int_bits a \<le> int k"
  by (rule int_bits_le)

lemma int_div_less: "0 < d \<Longrightarrow> a < i * d \<Longrightarrow> a div d < (i :: int)"
proof (rule ccontr)
  assume d: "0 < d" "a < i * d" and "\<not> a div d < i"
  then have "i * d \<le> (a div d) * d" by (intro mult_right_mono) simp_all
  also have "\<dots> \<le> a" using d(1) pos_mod_sign [of d a] div_mult_mod_eq [of a d] by linarith
  finally show False using d(2) by simp
qed

lemma half_even_le: "half_even a k \<le> a div 2 ^ k + 1"
  by (simp add: half_even_def Let_def)

lemma half_even_nonneg: "0 \<le> a \<Longrightarrow> 0 \<le> half_even a k"
  by (simp add: half_even_def Let_def pos_imp_zdiv_nonneg_iff)

lemma f_round_finite:
  assumes "int_bits \<bar>m\<bar> + e \<le> 1023"
  shows "finite_float (f_round m e)"
proof -
  define k where "k = max (int_bits \<bar>m\<bar> - 53) (- 1074 - e)"
  define q where "q = (if k \<le> 0 then \<bar>m\<bar> else half_even \<bar>m\<bar> (nat k))"
  define e' where "e' = (if k \<le> 0 then e else e + k)"
  have b: "\<bar>m\<bar> < 2 ^ nat (int_bits \<bar>m\<bar>)" "0 \<le> int_bits \<bar>m\<bar>"
    using int_bits_bounds [of "\<bar>m\<bar>"] by (cases "m = 0"; simp add: int_bits.simps [of 0])+
  have "int_bits q + e' \<le> 1024"
  proof (cases "k \<le> 0")
    case True
    then show ?thesis using assms by (simp add: q_def e'_def)
  next
    case False
    let ?n = "nat (int_bits \<bar>m\<bar> - k)"
    have "\<bar>m\<bar> < 2 ^ (?n + nat k)"
    proof -
      have "nat (int_bits \<bar>m\<bar>) \<le> ?n + nat k" using False b(2) by simp
      then have "(2 :: int) ^ nat (int_bits \<bar>m\<bar>) \<le> 2 ^ (?n + nat k)" by (rule power_increasing) simp
      with b(1) show ?thesis by linarith
    qed
    then have "\<bar>m\<bar> div 2 ^ nat k < 2 ^ ?n" by (intro int_div_less) (simp_all add: power_add)
    then have "q \<le> 2 ^ ?n" using half_even_le [of "\<bar>m\<bar>" "nat k"] False by (simp add: q_def)
    also have "(2 :: int) ^ ?n < 2 ^ Suc ?n" by simp
    finally have "int_bits q \<le> int (Suc ?n)" using int_bits_le by blast
    moreover have "int (Suc ?n) + e' \<le> 1024"
    proof (cases "k \<le> int_bits \<bar>m\<bar>")
      case True
      then show ?thesis using assms False by (simp add: e'_def)
    next
      case k: False
      then have "k = - 1074 - e" using b(2) by (auto simp: k_def)
      with k False show ?thesis by (simp add: e'_def)
    qed
    ultimately show ?thesis by linarith
  qed
  then show ?thesis
    by (simp add: f_round_def Let_def finite_float_def k_def [symmetric] q_def [symmetric] e'_def [symmetric])
qed

lemma f_ratio_finite:
  assumes "0 < d" and "0 < m" and "\<bar>int_bits d - int_bits m\<bar> \<le> 900"
  shows "finite_float (f_ratio m d)"
proof -
  define k where "k = nat (int_bits d - int_bits m + 60)"
  define x where "x = 2 * (m * 2 ^ k div d) + (if m * 2 ^ k mod d = 0 then 0 else 1)"
  have fr: "f_ratio m d = f_round x (- int k - 1)"
    using assms(2) by (simp add: f_ratio_def Let_def k_def x_def)
  have b: "m < 2 ^ nat (int_bits m)" "1 \<le> int_bits m" "2 ^ nat (int_bits d - 1) \<le> d" "1 \<le> int_bits d"
    using int_bits_bounds [OF assms(1)] int_bits_bounds [OF assms(2)] by auto
  let ?n = "nat (int_bits m + int k - int_bits d + 1)"
  have n: "nat (int_bits m) + k = ?n + nat (int_bits d - 1)" unfolding k_def using b(2,4) assms(3) by linarith
  have "m * 2 ^ k < 2 ^ nat (int_bits m) * 2 ^ k" using b(1) by simp
  also have "\<dots> = 2 ^ ?n * 2 ^ nat (int_bits d - 1)" using n by (simp add: power_add [symmetric])
  also have "\<dots> \<le> 2 ^ ?n * d" using b(3) by simp
  finally have "m * 2 ^ k div d < 2 ^ ?n" using assms(1) by (intro int_div_less)
  then have x: "x < 2 ^ Suc ?n" by (auto simp: x_def)
  have "0 \<le> x" using assms by (simp add: x_def pos_imp_zdiv_nonneg_iff)
  then have "int_bits \<bar>x\<bar> \<le> int (Suc ?n)" using int_bits_le [OF x] by simp
  then have "int_bits \<bar>x\<bar> + (- int k - 1) \<le> 1023" using assms(3) b by linarith
  then show ?thesis unfolding fr by (rule f_round_finite)
qed

lemmas f_ratio_close = f_ratio_error [OF _ _ f_ratio_finite]

section \<open>Sums and quotients\<close>

lemma f_of_int_val: "\<bar>n\<bar> < 2 ^ 53 \<Longrightarrow> f_val (f_of_int n) = of_int n"
  by (simp add: f_of_int_exact)

lemma f_round_exponent: "f_round m e = Fin q e' \<Longrightarrow> e \<le> e'"
proof -
  assume r: "f_round m e = Fin q e'"
  define k where "k = max (int_bits \<bar>m\<bar> - 53) (- 1074 - e)"
  have "e' = (if k \<le> 0 then e else e + k)"
    using r unfolding f_round_def Let_def k_def [symmetric] by (auto split: if_splits)
  then show "e \<le> e'" by (simp split: if_splits)
qed

lemma f_ratio_exponent:
  "f_ratio m d = Fin q e' \<Longrightarrow> 0 < m \<Longrightarrow> \<bar>int_bits d - int_bits m\<bar> \<le> 900 \<Longrightarrow> - 961 \<le> e'"
  unfolding f_ratio_def Let_def by (drule f_round_exponent) (auto simp: abs_if split: if_splits)

lemma int_bits_nonneg: "0 \<le> int_bits n"
  using int_bits_bounds [of n] by (cases "0 < n") (auto simp: int_bits.simps [of n])

lemma scaled_val: "g \<le> e \<Longrightarrow> of_int (scaled g a e) * 2 powr of_int g = (of_int a * 2 powr of_int e :: real)"
proof -
  assume "g \<le> e"
  then have "(2 :: real) ^ nat (e - g) = 2 powr of_int (e - g)" using powr_real_of_int [of 2 "e - g"] by simp
  then show ?thesis by (simp add: scaled_def powr_diff)
qed

lemma f_add_error:
  assumes "- 1021 \<le> e" and "- 1021 \<le> f" and "finite_float (f_add (Fin a e) (Fin b f))"
  shows "\<bar>f_val (f_add (Fin a e) (Fin b f)) - (f_val (Fin a e) + f_val (Fin b f))\<bar>
    \<le> \<bar>f_val (Fin a e) + f_val (Fin b f)\<bar> / 2 ^ 53"
proof -
  let ?g = "min e f"
  let ?m = "scaled ?g a e + scaled ?g b f"
  have "of_int ?m * 2 powr of_int ?g = f_val (Fin a e) + f_val (Fin b f)"
    by (simp add: distrib_right scaled_val)
  moreover have "\<bar>f_val (f_round ?m ?g) - of_int ?m * 2 powr of_int ?g\<bar> \<le> \<bar>of_int ?m * 2 powr of_int ?g\<bar> / 2 ^ 53"
    by (rule f_round_error) (use assms int_bits_nonneg [of "\<bar>?m\<bar>"] in auto)
  ultimately show ?thesis by simp
qed

text \<open>The text that a whole number of units and a part of a unit make: rounded down.\<close>

lemma f_trunc_val:
  assumes "of_int n \<le> f_val (Fin m e)" and "f_val (Fin m e) < of_int n + 1" and "0 \<le> n"
  shows "f_trunc m e = n"
proof (cases "0 \<le> e")
  case True
  then have "(2 :: real) powr of_int e = of_int (2 ^ nat e)" by (simp add: powr_real_of_int)
  then have "of_int n \<le> real_of_int (m * 2 ^ nat e)" "real_of_int (m * 2 ^ nat e) < of_int (n + 1)"
    using assms by simp_all
  then have "n \<le> m * 2 ^ nat e" "m * 2 ^ nat e < n + 1" by (simp_all only: of_int_le_iff of_int_less_iff)
  then show ?thesis using True by (simp add: f_trunc_def)
next
  case False
  have p: "(2 :: real) powr of_int e = 1 / of_int (2 ^ nat (- e))"
    using False by (simp add: powr_real_of_int inverse_eq_divide)
  have "real_of_int (n * 2 ^ nat (- e)) \<le> real_of_int m" "real_of_int m < real_of_int ((n + 1) * 2 ^ nat (- e))"
    using assms(1,2) by (simp_all add: p field_simps)
  then have nm: "n * 2 ^ nat (- e) \<le> m" "m < (n + 1) * 2 ^ nat (- e)" by (simp_all only: of_int_le_iff of_int_less_iff)
  have "0 \<le> n * 2 ^ nat (- e)" using assms(3) by simp
  then have "0 \<le> m" using nm by linarith
  moreover have "m div 2 ^ nat (- e) = n" using nm by (subst div_eq_bounds) (simp_all add: algebra_simps)
  ultimately show ?thesis using False by (cases "m = 0") (simp_all add: f_trunc_def)
qed

section \<open>Exact results and quotients\<close>

lemma half_even_exact: "2 ^ k dvd a \<Longrightarrow> half_even a k = a div 2 ^ k"
  by (simp add: half_even_def Let_def)

lemma int_bits_shift: "0 < n \<Longrightarrow> int_bits (n * 2 ^ j) = int_bits n + int j"
proof (induction j)
  case (Suc j)
  then have "0 < n * 2 ^ j" by simp
  then have "int_bits (2 * (n * 2 ^ j)) = 1 + int_bits (n * 2 ^ j)"
    by (subst int_bits.simps) (simp add: not_le del: zero_less_mult_iff)
  then show ?case using Suc by (simp add: mult.left_commute)
qed simp

text \<open>A value of at most 53 bits is not rounded.\<close>

lemma f_round_shifted:
  assumes "0 \<le> n" and "n < 2 ^ 53" and "- 1000 \<le> e" and "e \<le> 0" and "int j + e \<le> 900"
  shows "finite_float (f_round (n * 2 ^ j) e)" and "f_val (f_round (n * 2 ^ j) e) = of_int n * 2 ^ j * 2 powr of_int e"
proof -
  have "finite_float (f_round (n * 2 ^ j) e) \<and>
      f_val (f_round (n * 2 ^ j) e) = of_int n * 2 ^ j * 2 powr of_int e"
  proof (cases "n = 0")
    case True
    then show ?thesis by (simp add: f_round_def Let_def finite_float_def int_bits.simps [of 0] half_even_def)
  next
    case False
    have b: "int_bits n \<le> 53" using int_bits_le [of n 53] assms(2) by simp
    have pos: "0 < n * 2 ^ j" using False assms(1) by simp
    have bits: "int_bits \<bar>n * 2 ^ j\<bar> = int_bits n + int j" using int_bits_shift [of n j] False assms(1) by simp
    have fin: "finite_float (f_round (n * 2 ^ j) e)"
      by (rule f_round_finite) (use bits b assms(5) in linarith)
    define k where "k = max (int_bits \<bar>n * 2 ^ j\<bar> - 53) (- 1074 - e)"
    have k: "k \<le> int j" unfolding k_def bits using b assms(3) by linarith
    show ?thesis
    proof (cases "k \<le> 0")
      case True
      then have "f_round (n * 2 ^ j) e = Fin (n * 2 ^ j) e"
        using fin pos unfolding f_round_def Let_def k_def [symmetric]
        by (auto simp: finite_float_def sgn_1_pos split: if_splits)
      then show ?thesis using fin by simp
    next
      case shift: False
      then have j: "j = nat k + (j - nat k)" using k by linarith
      have d: "n * 2 ^ j = (n * 2 ^ (j - nat k)) * 2 ^ nat k" by (subst j) (simp add: power_add)
      then have h: "half_even \<bar>n * 2 ^ j\<bar> (nat k) = n * 2 ^ (j - nat k)"
        using half_even_exact [of "nat k" "n * 2 ^ j"] pos by (simp only: abs_of_pos dvd_triv_right) simp
      then have r: "f_round (n * 2 ^ j) e = Fin (n * 2 ^ (j - nat k)) (e + k)"
        using fin shift pos unfolding f_round_def Let_def k_def [symmetric]
        by (auto simp: finite_float_def sgn_1_pos split: if_splits)
      have "(2 :: real) powr of_int (e + k) = 2 powr of_int e * 2 ^ nat k"
        using shift by (simp add: powr_add powr_real_of_int)
      then have "f_val (f_round (n * 2 ^ j) e) = of_int n * (2 ^ (j - nat k) * 2 ^ nat k) * 2 powr of_int e"
        by (simp add: r)
      also have "(2 :: real) ^ (j - nat k) * 2 ^ nat k = 2 ^ j" using j by (metis add.commute power_add)
      finally show ?thesis using fin by simp
    qed
  qed
  then show "finite_float (f_round (n * 2 ^ j) e)"
    "f_val (f_round (n * 2 ^ j) e) = of_int n * 2 ^ j * 2 powr of_int e" by simp_all
qed

lemma int_bits_powr: "0 < n \<Longrightarrow> 2 powr of_int (int_bits n - 1) \<le> real_of_int n"
proof -
  assume "0 < n"
  then have b: "2 ^ nat (int_bits n - 1) \<le> n" "1 \<le> int_bits n" using int_bits_bounds [of n] by auto
  then have "real_of_int (2 ^ nat (int_bits n - 1)) \<le> of_int n" by (simp only: of_int_le_iff)
  then show ?thesis using powr_real_of_int [of 2 "int_bits n - 1"] b(2) by simp
qed

lemma small_bits:
  assumes "0 < m" and "real_of_int m * 2 powr of_int e < 2 ^ 60"
  shows "int_bits m + e \<le> 60"
proof -
  have "2 powr of_int (int_bits m - 1) * 2 powr of_int e \<le> real_of_int m * 2 powr of_int e"
    by (rule mult_right_mono [OF int_bits_powr [OF assms(1)]]) simp
  then have "2 powr of_int (int_bits m - 1) * 2 powr of_int e < (2 :: real) ^ 60" using assms(2) by (rule le_less_trans)
  then have "(2 :: real) powr of_int (int_bits m - 1 + e) < 2 powr of_int 60" unfolding of_int_add powr_add by simp
  then have "int_bits m - 1 + e < 60" by (subst (asm) powr_less_cancel_iff) simp_all
  then show ?thesis by simp
qed

text \<open>A sum of values that are not negative, and small.\<close>

lemma f_add_finite:
  assumes "0 \<le> a" and "0 \<le> b" and "of_int a * 2 powr of_int e + of_int b * 2 powr of_int f < (2 :: real) ^ 60"
    and "e \<le> 0"
  shows "finite_float (f_add (Fin a e) (Fin b f))"
proof -
  let ?g = "min (min e f) 0"
  let ?m = "scaled (min e f) a e + scaled (min e f) b f"
  have m: "0 \<le> ?m" using assms by (simp add: scaled_def)
  have v: "of_int ?m * 2 powr of_int (min e f) = of_int a * 2 powr of_int e + of_int b * (2 powr of_int f :: real)"
    by (simp add: distrib_right scaled_val)
  have "int_bits \<bar>?m\<bar> + min e f \<le> 1023"
    using small_bits [of ?m "min e f"] v m assms(3,4) by (cases "?m = 0") (auto simp: int_bits.simps [of 0])
  then show ?thesis by (simp add: f_round_finite)
qed

lemma f_round_0: "- 1000 \<le> e \<Longrightarrow> f_round 0 e = Fin 0 e"
  by (simp add: f_round_def Let_def int_bits.simps [of 0])

lemma f_ratio_0: "0 < d \<Longrightarrow> d < 2 ^ 53 \<Longrightarrow> \<exists>e. f_ratio 0 d = Fin 0 e \<and> - 1000 \<le> e \<and> e \<le> 0"
proof -
  assume "0 < d" "d < 2 ^ 53"
  then have "int_bits d \<le> 53" using int_bits_le [of d 53] by simp
  moreover define e where "e = - int (nat (int_bits d - int_bits \<bar>0\<bar> + 60)) - 1"
  ultimately have e: "- 1000 \<le> e" "e \<le> 0" by (simp_all add: int_bits.simps [of 0])
  have "f_ratio 0 d = f_round 0 e" by (simp add: f_ratio_def e_def)
  then show ?thesis using f_round_0 [OF e(1)] e by auto
qed

lemma int_bits_near:
  assumes "0 < a" and "0 < b" and "a \<le> b * 2 ^ k"
  shows "int_bits a \<le> int_bits b + int k"
proof -
  have "b < 2 ^ nat (int_bits b)" "1 \<le> int_bits b" using int_bits_bounds [of b] assms(2) by auto
  then have "b * 2 ^ k < 2 ^ nat (int_bits b) * 2 ^ k" by (intro mult_strict_right_mono) simp_all
  then have "a < 2 ^ (nat (int_bits b) + k)" using assms(3) by (simp only: power_add)
  then show ?thesis using int_bits_le \<open>1 \<le> int_bits b\<close> by fastforce
qed

lemma within_factor: "a \<le> p * 2 ^ k \<Longrightarrow> p \<le> b \<Longrightarrow> a \<le> b * (2 ^ k :: int)"
  by (rule order_trans [OF _ mult_right_mono]) simp_all

lemma f_div_close:
  assumes "1 \<le> f_val (Fin m e)" and "f_val (Fin m e) \<le> 2 ^ 60" and "1 \<le> d" and "d < 2 ^ 30"
  shows "\<bar>f_val (f_div (Fin m e) (Fin d 0)) - f_val (Fin m e) / of_int d\<bar> \<le> f_val (Fin m e) / of_int d / 2 ^ 52"
    and "finite_float (f_div (Fin m e) (Fin d 0))"
proof -
  let ?a = "m * 2 ^ nat e" and ?b = "d * 2 ^ nat (- e)"
  have p: "(2 :: real) powr of_int e = 2 ^ nat e / 2 ^ nat (- e)"
    by (cases "0 \<le> e") (use powr_real_of_int [of 2 e] powr_real_of_int [of 2 "- e"] in
      \<open>simp_all add: powr_minus field_simps\<close>)
  have v: "f_val (Fin m e) = real_of_int ?a / of_int (2 ^ nat (- e))" by (simp add: p)
  have bounds: "2 ^ nat (- e) \<le> ?a" "?a \<le> 2 ^ nat (- e) * 2 ^ 60"
  proof -
    have "real_of_int (2 ^ nat (- e)) \<le> of_int ?a" "real_of_int ?a \<le> of_int (2 ^ nat (- e) * 2 ^ 60)"
      using assms(1,2) unfolding v by (simp_all add: field_simps)
    then show "2 ^ nat (- e) \<le> ?a" "?a \<le> 2 ^ nat (- e) * 2 ^ 60" by (simp_all only: of_int_le_iff)
  qed
  have a: "0 < ?a" by (rule order.strict_trans2 [OF _ bounds(1)]) simp
  have b: "0 < ?b" using assms(3) by simp
  have q: "2 ^ nat (- e) \<le> ?b" "?b \<le> 2 ^ nat (- e) * 2 ^ 60" using assms(3,4) by simp_all
  have bits: "\<bar>int_bits ?b - int_bits ?a\<bar> \<le> 900"
    using int_bits_near [OF a b within_factor [OF bounds(2) q(1)]] int_bits_near [OF b a within_factor [OF q(2) bounds(1)]]
    by linarith
  have eq: "f_div (Fin m e) (Fin d 0) = f_ratio ?a ?b" using assms(3) by simp
  have r: "real_of_int ?a / of_int ?b = f_val (Fin m e) / of_int d" unfolding v by simp
  show "\<bar>f_val (f_div (Fin m e) (Fin d 0)) - f_val (Fin m e) / of_int d\<bar> \<le> f_val (Fin m e) / of_int d / 2 ^ 52"
    using f_ratio_close [OF b a b a bits bits] unfolding eq r .
  show "finite_float (f_div (Fin m e) (Fin d 0))" using f_ratio_finite [OF b a bits] unfolding eq .
qed

end
