(* ===== verification/Output.thy ===== *)
theory Output
  imports Invocation Rounding
begin

text \<open>
  What the commands print: the table of VMs, the table of snapshots, the ages in them, the lines that
  report what was done, the version and the usage text. A name is counted by its bytes, and has
  neither a tab nor a line break.
\<close>

section \<open>Ages\<close>

text \<open>Go's division cuts towards zero.\<close>

definition go_quot :: "int \<Rightarrow> int \<Rightarrow> int" where
  "go_quot a b = sgn a * sgn b * (\<bar>a\<bar> div \<bar>b\<bar>)"

definition go_rem :: "int \<Rightarrow> int \<Rightarrow> int" where
  "go_rem a b = a - b * go_quot a b"

text \<open>\<open>Duration.Seconds\<close>, \<open>Minutes\<close> and \<open>Hours\<close>, by their unit.\<close>

definition dur_float :: "int \<Rightarrow> int \<Rightarrow> float64" where
  "dur_float unit d = f_add (f_of_int (go_quot d unit)) (f_div (f_of_int (go_rem d unit)) (f_of_int unit))"

definition sec_ns :: int where "sec_ns = 1000000000"
definition min_ns :: int where "min_ns = 60 * sec_ns"
definition hour_ns :: int where "hour_ns = 60 * min_ns"
definition day_ns :: int where "day_ns = 24 * hour_ns"

definition formatDuration :: "env \<Rightarrow> int \<Rightarrow> string" where
  "formatDuration E d =
     (let int_of = f_to_int (wide_int E) in
      if d < min_ns then itoa (int_of (dur_float sec_ns d)) @ ''s''
      else if d < hour_ns then itoa (int_of (dur_float min_ns d)) @ ''m''
      else if d < 24 * hour_ns then itoa (int_of (dur_float hour_ns d)) @ ''h''
      else itoa (int_of (f_div (dur_float hour_ns d) (f_of_int 24))) @ ''d'')"

text \<open>\<open>time.Since\<close>: a difference that does not fit 64 bits is the nearest one that does.\<close>

definition time_Since :: "nat \<Rightarrow> int \<Rightarrow> int" where
  "time_Since now t = max (- (2 ^ 63)) (min (2 ^ 63 - 1) (instant now - t))"

section \<open>Numbers\<close>

text \<open>
  The shortest decimal digits that are read back as a value (\<open>strconv.FormatFloat\<close> with precision -1):
  for a growing number of digits the two decimals next to the value are tried. The result is the
  digits and the place of the point.
\<close>

definition dec_point :: "int \<Rightarrow> int \<Rightarrow> int" where
  "dec_point num den =
     (if den \<le> num then int (length (dec (nat (num div den))))
      else 1 - int (length (dec (nat ((den - 1) div num)))))"

fun shortest :: "float64 \<Rightarrow> int \<Rightarrow> int \<Rightarrow> int \<Rightarrow> nat \<Rightarrow> nat \<Rightarrow> int \<times> int" where
  "shortest x num den dp n fuel =
     (let a = num * 10 ^ nat (int n - dp); b = den * 10 ^ nat (dp - int n);
          f = a div b;
          reads = (\<lambda>c. f_eq (f_decimal c (dp - int n)) x);
          near = (if 2 * (a mod b) \<le> b then f else f + 1) in
      if reads near then (near, dp - int n)
      else if reads f then (f, dp - int n)
      else if reads (f + 1) then (f + 1, dp - int n)
      else (case fuel of 0 \<Rightarrow> (near, dp - int n) | Suc k \<Rightarrow> shortest x num den dp (Suc n) k))"

declare shortest.simps [simp del]

text \<open>The digits without zeros at the end, and the exponent of the first one.\<close>

definition trim_zeros :: "string \<Rightarrow> string" where
  "trim_zeros s = rev (dropWhile (\<lambda>c. c = CHR ''0'') (rev s))"

definition g_digits :: "string \<Rightarrow> int \<Rightarrow> string" where
  "g_digits ds dp =
     (if dp \<le> 0 then ''0.'' @ replicate (nat (- dp)) (CHR ''0'') @ ds
      else if int (length ds) \<le> dp then ds @ replicate (nat dp - length ds) (CHR ''0'')
      else take (nat dp) ds @ ''.'' @ drop (nat dp) ds)"

definition g_exponent :: "string \<Rightarrow> int \<Rightarrow> string" where
  "g_exponent ds e =
     take 1 ds @ (if length ds \<le> 1 then [] else ''.'' @ drop 1 ds) @ ''e'' @ (if e < 0 then ''-'' else ''+'') @
     (if \<bar>e\<bar> < 10 then ''0'' else []) @ dec (nat \<bar>e\<bar>)"

text \<open>\<open>%g\<close>\<close>

fun fmt_g :: "float64 \<Rightarrow> string" where
  "fmt_g FNaN = ''NaN''"
| "fmt_g (FInf s) = (if s then ''-Inf'' else ''+Inf'')"
| "fmt_g (Fin m e) =
     (if m = 0 then ''0''
      else
        (let num = \<bar>m\<bar> * 2 ^ nat e; den = 2 ^ nat (- e);
             (c, x) = shortest (Fin \<bar>m\<bar> e) num den (dec_point num den) 1 16;
             ds = dec (nat c); dp = int (length ds) + x; ds = trim_zeros ds in
         (if m < 0 then ''-'' else []) @
         (if dp - 1 < -4 \<or> 6 \<le> dp - 1 then g_exponent ds (dp - 1) else g_digits ds dp)))"

section \<open>Tables\<close>

text \<open>
  \<open>text/tabwriter\<close> with a minimal width of 4 and 4 blanks of padding, for rows of one length: every
  cell but the last of a row is filled to the width of its column.
\<close>

definition column_width :: "string list list \<Rightarrow> nat \<Rightarrow> nat" where
  "column_width rows j = fold max (map (\<lambda>r. length (r ! j) + 4) rows) 4"

fun table_line :: "(nat \<Rightarrow> nat) \<Rightarrow> nat \<Rightarrow> string list \<Rightarrow> string" where
  "table_line w j [] = []"
| "table_line w j [c] = c"
| "table_line w j (c # cs) = c @ replicate (w j - length c) (CHR '' '') @ table_line w (Suc j) cs"

definition newline :: string where
  "newline = [CHR 0x0A]"

definition table :: "string list list \<Rightarrow> string" where
  "table rows = concat (map (\<lambda>r. table_line (column_width rows) 0 r @ newline) rows)"

definition list_header :: "string list" where
  "list_header = [''NAME'', ''STATUS'', ''VCPUS'', ''MEMORY'', ''SSH'', ''PID'', ''AGE'']"

definition list_row :: "env \<Rightarrow> nat \<Rightarrow> VM \<Rightarrow> string list" where
  "list_row E now v =
     [vm_Name v, vm_Status v, fmt_g (vm_CPUs v), itoa (vm_Memory v) @ ''MiB'', ''localhost:'' @ itoa (vm_Port v),
      (if vm_PID v > 0 then itoa (vm_PID v) else []), formatDuration E (time_Since now (vm_StartedAt v))]"

definition snapshot_header :: "string list" where
  "snapshot_header = [''ID'', ''VM'', ''VCPUS'', ''MEMORY'', ''AGE'']"

definition snapshot_row :: "env \<Rightarrow> nat \<Rightarrow> Snapshot \<Rightarrow> string list" where
  "snapshot_row E now s =
     [ID s, VMName s, itoa (VCPUs s), itoa (SnapMemory s) @ ''MiB'',
      formatDuration E (time_Since now (CreatedAt s))]"

text \<open>The clock is read for each row.\<close>

fun table_rows :: "env \<Rightarrow> (nat \<Rightarrow> 'a \<Rightarrow> string list) \<Rightarrow> 'a list \<Rightarrow> string list list prog" where
  "table_rows E row [] = ret []"
| "table_rows E row (x # xs) = do {
     now \<leftarrow> time_Now E;
     rows \<leftarrow> table_rows E row xs;
     ret (row now x # rows) }"

section \<open>Commands and their output\<close>

text \<open>
  Each command once more, with the lines it prints on the two streams when it is done. The texts of
  package \<open>flag\<close> about a wrong command line and the progress lines of a snapshot are left out.
\<close>

datatype stream = Out | Err

type_synonym said = "(stream \<times> string) list"

definition printing :: "string \<Rightarrow> err \<Rightarrow> string list \<Rightarrow> (string \<Rightarrow> said go) \<Rightarrow> (outcome \<times> said) prog" where
  "printing n absent args m =
     (case string_flag n [] args of
        Inl k \<Rightarrow> ret (Exits k, [])
      | Inr v \<Rightarrow>
          on_error (if v = [] then err absent else m v)
            (\<lambda>e. ret (Returns (Inl e), [])) (\<lambda>said. ret (Returns (Inr ()), said)))"

definition then_say :: "unit go \<Rightarrow> said \<Rightarrow> said go" where
  "then_say m said = on_error m err (\<lambda>_. ok said)"

definition print_Stop :: "env \<Rightarrow> string list \<Rightarrow> (outcome \<times> said) prog" where
  "print_Stop E args = printing ''name'' name_required args
     (\<lambda>n. then_say (StopVM E n) [(Out, ''Sent shutdown signal to VM '' @ quote n @ newline)])"

definition print_Rm :: "env \<Rightarrow> string list \<Rightarrow> (outcome \<times> said) prog" where
  "print_Rm E args = printing ''name'' name_required args
     (\<lambda>n. then_say (RemoveVM E n) [(Out, ''Removed VM '' @ quote n @ newline)])"

definition print_Pause :: "env \<Rightarrow> string list \<Rightarrow> (outcome \<times> said) prog" where
  "print_Pause E args = printing ''name'' name_required args
     (\<lambda>n. then_say (PauseVM E n) [(Out, ''VM '' @ quote n @ '' paused'' @ newline)])"

definition print_Resume :: "env \<Rightarrow> string list \<Rightarrow> (outcome \<times> said) prog" where
  "print_Resume E args = printing ''name'' name_required args
     (\<lambda>n. then_say (ResumeVM E n) [(Out, ''VM '' @ quote n @ '' resumed'' @ newline)])"

text \<open>\<open>Duration.Round\<close> to a millisecond and \<open>Duration.String\<close> of whole milliseconds.\<close>

definition round_ms :: "nat \<Rightarrow> nat" where
  "round_ms d = (let r = d mod 1000000 in if 2 * r < 1000000 then d div 1000000 else d div 1000000 + 1)"

definition three_digits :: "nat \<Rightarrow> string" where
  "three_digits n = replicate (3 - length (dec n)) (CHR ''0'') @ dec n"

definition ms_text :: "nat \<Rightarrow> string" where
  "ms_text ms =
     (if ms = 0 then ''0s''
      else if ms < 1000 then dec ms @ ''ms''
      else
        (let f = trim_zeros (three_digits (ms mod 1000)); s = ms div 1000;
             secs = dec (s mod 60) @ (if f = [] then [] else ''.'' @ f) @ ''s'' in
         if s < 60 then secs
         else if s < 3600 then dec (s div 60) @ ''m'' @ secs
         else dec (s div 3600) @ ''h'' @ dec (s div 60 mod 60) @ ''m'' @ secs))"

definition print_snapshotCreate :: "env \<Rightarrow> string list \<Rightarrow> (outcome \<times> said) prog" where
  "print_snapshotCreate E args = printing ''name'' name_required args
     (\<lambda>name. do {
        start \<leftarrow> time_Now E;
        on_error (CreateSnapshot E name) err (\<lambda>id. do {
          now \<leftarrow> time_Now E;
          ok [(Err, ''Snapshot '' @ id @ '' created from VM '' @ quote name @ '' ('' @
            ms_text (round_ms (now - start)) @ '')'' @ newline)] }) })"

definition print_snapshotDelete :: "env \<Rightarrow> string list \<Rightarrow> (outcome \<times> said) prog" where
  "print_snapshotDelete E args = printing ''id'' (ErrMsg ''--id is required'') args
     (\<lambda>id. then_say (DeleteSnapshot E id) [(Err, ''Snapshot '' @ id @ '' deleted'' @ newline)])"

definition print_snapshotList :: "env \<Rightarrow> (outcome \<times> said) prog" where
  "print_snapshotList E =
     on_error (ListSnapshots E) (\<lambda>e. ret (Returns (Inl e), [])) (\<lambda>snapshots. do {
       rows \<leftarrow> table_rows E (snapshot_row E) snapshots;
       ret (Returns (Inr ()), [(Out, table (snapshot_header # rows))]) })"

definition print_Snapshot :: "env \<Rightarrow> string list \<Rightarrow> (outcome \<times> said) prog" where
  "print_Snapshot E args =
     (case args of
        [] \<Rightarrow> print_snapshotCreate E args
      | a # rest \<Rightarrow>
          if a = ''ls'' then print_snapshotList E
          else if a = ''delete'' \<or> a = ''rm'' then print_snapshotDelete E rest
          else print_snapshotCreate E args)"

text \<open>The VMs come in the order \<open>order\<close> in which Go goes through the map that holds them.\<close>

definition print_List :: "env \<Rightarrow> (VM multiset \<Rightarrow> VM list) \<Rightarrow> (outcome \<times> said) prog" where
  "print_List E order =
     on_error (List_vms E) (\<lambda>e. ret (Returns (Inl e), [])) (\<lambda>vms. do {
       rows \<leftarrow> table_rows E (list_row E) (order vms);
       ret (Returns (Inr ()), [(Out, table (list_header # rows))]) })"

section \<open>The start command\<close>

definition net_info :: "start_flags \<Rightarrow> string" where
  "net_info f =
     (if f_less (Fin 0 0) (flag_netBw f) then ''net: '' @ fmt_g (flag_netBw f) @ '' Mbps'' else ''net: unlimited'')"

definition disk_info :: "start_flags \<Rightarrow> string" where
  "disk_info f =
     (if flag_diskBw f > 0 \<or> flag_diskIOPS f > 0 then
        ''disk: '' @ join '', ''
          ((if flag_diskBw f > 0 then [itoa (flag_diskBw f) @ '' MB/s''] else []) @
           (if flag_diskIOPS f > 0 then [itoa (flag_diskIOPS f) @ '' IOPS''] else []))
      else ''disk: unlimited'')"

definition started_line :: "start_flags \<Rightarrow> VM \<Rightarrow> string" where
  "started_line f vm =
     newline @ ''VM '' @ quote (vm_Name vm) @
     (if flag_fromSnapshot f \<noteq> [] then
        '' started from snapshot '' @ flag_fromSnapshot f @ '' ('' @ fmt_g (vm_CPUs vm) @ '' vCPUs, '' @
        itoa (vm_Memory vm) @ '' MiB)'' @ newline
      else
        '' started ('' @ fmt_g (vm_CPUs vm) @ '' vCPUs, '' @ itoa (vm_Memory vm) @ '' MiB, '' @ net_info f @
        '', '' @ disk_info f @ '')'' @ newline)"

definition ssh_line :: "VM \<Rightarrow> string" where
  "ssh_line vm = ''  ssh -p '' @ itoa (vm_Port vm) @ '' root@localhost'' @ newline"

text \<open>An interrupt after the removal of the socket is one before the last line.\<close>

definition print_Start ::
  "env \<Rightarrow> start_flags \<Rightarrow> interrupt \<Rightarrow> world \<Rightarrow> (((err + unit) \<times> said) \<times> world) option" where
  "print_Start E f i w =
     (if flag_name f = [] then Some ((Inl name_required, []), w)
      else
        (case run_state (Run E (start_config E f)) w of
           (Inl e, w) \<Rightarrow> Some ((Inl e, []), w)
         | (Inr vm, w) \<Rightarrow>
             if flag_detach f then
               (case run_state (WaitForSSH E vm 30000000000) w of
                  (Inl e, w) \<Rightarrow>
                    Some ((Inl e, [(Err, started_line f vm), (Err, ''Waiting for VM to boot...''),
                      (Err, '' failed'' @ newline)]), w)
                | (Inr _, w) \<Rightarrow>
                    Some ((Inr (), [(Err, started_line f vm), (Err, ''Waiting for VM to boot...''),
                      (Err, '' ready'' @ newline), (Err, ssh_line vm),
                      (Err, ''  knaller stop --name '' @ vm_Name vm @ newline @ newline)]), w))
             else
               map_option
                 (Pair (Inr (),
                   [(Err, started_line f vm), (Err, ssh_line vm),
                    (Err, ''  Press Ctrl+C to stop'' @ newline @ newline)] @
                   (if i = Never then [] else [(Err, newline @ ''Shutting down VM...'' @ newline)]) @
                   [(Err, newline @ ''VM stopped.'' @ newline)]))
                 (await_exit E vm i w)))"

end
