(* ===== verification/Program.thy ===== *)
theory Program
  imports Output
begin

text \<open>
  The whole program with its output (\<open>cmd/knaller/main.go\<close>), and its relation to the commands of \<open>Cli\<close>,
  which leave the output out.
\<close>

text \<open>What the linker sets.\<close>

record build =
  version :: string
  commit :: string
  date :: string

definition dev_build :: build where
  "dev_build = \<lparr> version = ''dev'', commit = ''unknown'', date = ''unknown'' \<rparr>"

definition print_Version :: "build \<Rightarrow> said" where
  "print_Version b =
     [(Out, ''knaller '' @ version b @ '' (commit: '' @ commit b @ '', built: '' @ date b @ '')'' @ newline)]"

definition usage :: said where
  "usage = map (\<lambda>l. (Err, l @ newline))
     [''Usage: knaller <command> [flags]'',
      [],
      ''Commands:'',
      ''  start             Start a microVM (connect via SSH)'',
      ''  stop              Stop a running microVM'',
      ''  rm                Remove a stopped microVM'',
      ''  pause             Pause a running microVM'',
      ''  resume            Resume a paused microVM'',
      ''  snapshot          Create a VM snapshot'',
      ''  snapshot ls       List all snapshots'',
      ''  snapshot delete   Delete a snapshot'',
      ''  list              List running microVMs'',
      ''  ls                Alias for list'',
      ''  version           Print version information'',
      ''  help              Show this help'',
      [],
      ''Use knaller <command> --help for more information about a command.'']"

text \<open>A command with its output; it may not come to an end.\<close>

type_synonym speaking = "world \<Rightarrow> ((outcome \<times> said) \<times> world) option"

definition speaks :: "(outcome \<times> said) prog \<Rightarrow> speaking" where
  "speaks m w = Some (run_state m w)"

definition print_cli_Start :: "env \<Rightarrow> interrupt \<Rightarrow> string list \<Rightarrow> speaking" where
  "print_cli_Start E i args w =
     (case parse_flags (map_of start_set) args start_defaults of
        Inl n \<Rightarrow> Some ((Exits n, []), w)
      | Inr f \<Rightarrow> map_option (\<lambda>((r, said), w). ((Returns r, said), w)) (print_Start E f i w))"

definition print_cmds ::
  "env \<Rightarrow> (VM multiset \<Rightarrow> VM list) \<Rightarrow> build \<Rightarrow> interrupt \<Rightarrow> (string \<times> (string list \<Rightarrow> speaking)) list" where
  "print_cmds E order b i =
     [(''start'', print_cli_Start E i), (''stop'', \<lambda>args. speaks (print_Stop E args)),
      (''rm'', \<lambda>args. speaks (print_Rm E args)), (''pause'', \<lambda>args. speaks (print_Pause E args)),
      (''resume'', \<lambda>args. speaks (print_Resume E args)), (''snapshot'', \<lambda>args. speaks (print_Snapshot E args)),
      (''list'', \<lambda>_. speaks (print_List E order)), (''ls'', \<lambda>_. speaks (print_List E order)),
      (''version'', \<lambda>_. speaks (ret (Returns (Inr ()), print_Version b)))]"

definition print_dispatch ::
  "env \<Rightarrow> (VM multiset \<Rightarrow> VM list) \<Rightarrow> build \<Rightarrow> interrupt \<Rightarrow> string list \<Rightarrow> speaking" where
  "print_dispatch E order b i args =
     (case args of
        [] \<Rightarrow> speaks (ret (Returns (Inl (ErrMsg ''no command specified'')), usage))
      | c # rest \<Rightarrow>
          if c = ''help'' then speaks (ret (Returns (Inr ()), usage))
          else
            (case map_of (print_cmds E order b i) c of
               None \<Rightarrow> speaks (ret (Returns (Inl (ErrMsg (''unknown command: '' @ c))), usage))
             | Some fn \<Rightarrow> fn rest))"

text \<open>
  \<open>main\<close>: the exit code and everything that was printed. The text of an error of package \<open>os\<close> names the
  call and the file as well, so that it is the argument \<open>report\<close>.
\<close>

definition main ::
  "env \<Rightarrow> (VM multiset \<Rightarrow> VM list) \<Rightarrow> build \<Rightarrow> (err \<Rightarrow> string) \<Rightarrow> interrupt \<Rightarrow> string list \<Rightarrow> world \<Rightarrow>
   ((int \<times> said) \<times> world) option" where
  "main E order b report i args w =
     map_option
       (\<lambda>((out, said), w).
          ((exit_code out,
            (case out of
               Returns (Inl e) \<Rightarrow> said @ [(Err, ''error: '' @ report e @ newline)]
             | _ \<Rightarrow> said)), w))
       (print_dispatch E order b i args w)"

section \<open>Printing changes nothing else\<close>

text \<open>
  A command with its output does what the command does, and prints on the standard output only when it
  succeeds.
\<close>

definition agrees :: "speaking \<Rightarrow> ending \<Rightarrow> bool" where
  "agrees p m \<longleftrightarrow>
     (\<forall>w. map_option (\<lambda>((out, said), w). (out, w)) (p w) = m w \<and>
       (\<forall>out said w'. p w = Some ((out, said), w') \<longrightarrow> exit_code out \<noteq> 0 \<longrightarrow> Out \<notin> fst ` set said))"

definition quiet_error :: "outcome \<times> said \<Rightarrow> bool" where
  "quiet_error r \<longleftrightarrow> exit_code (fst r) \<noteq> 0 \<longrightarrow> Out \<notin> fst ` set (snd r)"

lemma agreesI:
  assumes "\<And>w. map_prod fst id (run_state p w) = run_state m w" and "\<And>w. quiet_error (fst (run_state p w))"
  shows "agrees (speaks p) (ends m)"
  unfolding agrees_def speaks_def ends_def
proof (intro allI conjI impI)
  fix w
  show "map_option (\<lambda>((out, said), w). (out, w)) (Some (run_state p w)) = Some (run_state m w)"
    using assms(1) [of w] by (cases "run_state p w") (auto simp: map_prod_def split: prod.splits)
  fix out said w'
  assume "Some (run_state p w) = Some ((out, said), w')" "exit_code out \<noteq> 0"
  then show "Out \<notin> fst ` set said" using assms(2) [of w] by (simp add: quiet_error_def)
qed

lemma agrees_ret: "(exit_code out \<noteq> 0 \<Longrightarrow> Out \<notin> fst ` set said) \<Longrightarrow> agrees (speaks (ret (out, said))) (ends (ret out))"
  by (rule agreesI) (auto simp: run_simps quiet_error_def)

text \<open>A step with output and the step without it.\<close>

definition silent :: "said go \<Rightarrow> unit go \<Rightarrow> bool" where
  "silent p m \<longleftrightarrow> (\<forall>w. map_prod (map_sum id (\<lambda>_. ())) id (run_state p w) = run_state m w)"

lemma silent_then_say: "silent (then_say m said) m"
  by (auto simp: silent_def then_say_def run_simps split: prod.split sum.split)

lemma agrees_printing:
  assumes "\<And>v. silent (p v) (m v)"
  shows "agrees (speaks (printing n absent args p)) (ends (with_flag n absent args m))"
proof (cases "string_flag n [] args")
  case (Inl k)
  then show ?thesis by (simp add: printing_def with_flag_def agrees_ret)
next
  case (Inr v)
  have m: "run_state (m v) w = map_prod (map_sum id (\<lambda>_. ())) id (run_state (p v) w)" for w
    using assms [of v] by (simp add: silent_def)
  show ?thesis
    by (rule agreesI)
      (auto simp: Inr printing_def with_flag_def run_simps m quiet_error_def split: prod.split sum.split)
qed

lemma run_table_rows:
  "run_state (table_rows E row xs) w = (rows, w') \<Longrightarrow> run_state (clock_reads E (length xs)) w = ((), w')"
  by (induction xs arbitrary: rows w) (auto simp: run_simps split: prod.splits)

lemma agrees_listing:
  assumes "\<And>xs. length (order xs) = n xs"
  shows "agrees
    (speaks (on_error m (\<lambda>e. ret (Returns (Inl e), []))
      (\<lambda>xs. do { rows \<leftarrow> table_rows E row (order xs); ret (Returns (Inr ()), said rows) })))
    (ends (do { r \<leftarrow> on_error m err (\<lambda>xs. do { clock_reads E (n xs); ok () }); ret (Returns r) }))"
  by (rule agreesI)
    (auto simp: run_simps quiet_error_def assms dest: run_table_rows split: prod.splits sum.splits)

lemma agrees_List:
  assumes "\<And>M. mset (order M) = M"
  shows "agrees (speaks (print_List E order)) (ends (cli_List E))"
proof -
  have "length (order M) = size M" for M using assms [of M] by (metis size_mset)
  then show ?thesis unfolding print_List_def cli_List_def by (rule agrees_listing)
qed

lemma agrees_snapshotList: "agrees (speaks (print_snapshotList E)) (ends (snapshotList E))"
  unfolding print_snapshotList_def snapshotList_def by (rule agrees_listing [where order = "\<lambda>xs. xs"]) simp

lemma agrees_snapshotCreate: "agrees (speaks (print_snapshotCreate E args)) (ends (snapshotCreate E args))"
  unfolding print_snapshotCreate_def snapshotCreate_def
  by (rule agrees_printing) (auto simp: silent_def run_simps split: prod.split sum.split)

lemmas agrees_flagged = agrees_printing [OF silent_then_say]

lemma agrees_Snapshot: "agrees (speaks (print_Snapshot E args)) (ends (cli_Snapshot E args))"
  using agrees_snapshotList agrees_snapshotCreate agrees_flagged
  by (auto simp: print_Snapshot_def cli_Snapshot_def print_snapshotDelete_def snapshotDelete_def split: list.split)

lemma print_Start_erased:
  "map_option (\<lambda>((r, said), w). (r, w)) (print_Start E f i w) = Start E f i w"
  by (auto simp: print_Start_def Start_def option.map_comp comp_def split: prod.split sum.split)

lemma print_Start_error:
  "print_Start E f i w = Some ((Inl e, said), w') \<Longrightarrow> Out \<notin> fst ` set said"
  by (auto simp: print_Start_def split: prod.splits sum.splits if_splits)

lemma agrees_Start: "agrees (print_cli_Start E i args) (cli_Start E i args)"
proof (cases "parse_flags (map_of start_set) args start_defaults")
  case (Inl n)
  then show ?thesis by (simp add: agrees_def print_cli_Start_def cli_Start_def)
next
  case (Inr f)
  show ?thesis
    unfolding agrees_def
  proof (intro allI conjI impI)
    fix w
    show "map_option (\<lambda>((out, said), w). (out, w)) (print_cli_Start E i args w) = cli_Start E i args w"
      using print_Start_erased [of E f i w, symmetric]
      by (auto simp: print_cli_Start_def cli_Start_def Inr option.map_comp comp_def case_prod_unfold)
    fix out said w'
    assume "print_cli_Start E i args w = Some ((out, said), w')" "exit_code out \<noteq> 0"
    then obtain e where "print_Start E f i w = Some ((Inl e, said), w')"
      by (auto simp: print_cli_Start_def Inr exit_code_Returns split: if_splits) (metis isl_def)
    then show "Out \<notin> fst ` set said" by (rule print_Start_error)
  qed
qed

lemmas agrees_commands = agrees_Start agrees_List agrees_Snapshot agrees_ret agrees_flagged

lemma agrees_dispatch:
  assumes "\<And>M. mset (order M) = M"
  shows "agrees (print_dispatch E order b i args) (dispatch E i args)"
proof (cases args)
  case Nil
  then show ?thesis by (auto simp: print_dispatch_def dispatch_def usage_def intro: agrees_ret)
next
  case (Cons c rest)
  have "rel_option (\<lambda>p m. agrees (p rest) (m rest)) (map_of (print_cmds E order b i) c) (map_of (cmds E i) c)"
    using agrees_Start agrees_List [OF assms] agrees_Snapshot agrees_flagged
    by (auto simp: print_cmds_def cmds_def print_Stop_def cli_Stop_def print_Rm_def cli_Rm_def print_Pause_def
        cli_Pause_def print_Resume_def cli_Resume_def intro: agrees_ret)
  then show ?thesis
    by (auto simp: Cons print_dispatch_def dispatch_def usage_def intro: agrees_ret
        split: option.split elim: option.rel_cases)
qed



end
