(* ===== verification/Tables.thy ===== *)
theory Tables
  imports Output
begin

text \<open>
  The tables that are printed: every column starts at the same place in all lines, and shows of a VM
  what the library found.
\<close>

definition column_start :: "(nat \<Rightarrow> nat) \<Rightarrow> nat \<Rightarrow> nat" where
  "column_start w j = sum_list (map w [0..<j])"

lemma table_line_cell:
  assumes "k < length cs" and "\<And>i. i < length cs \<Longrightarrow> length (cs ! i) + 4 \<le> w (j + i)"
  shows "\<exists>rest. drop (sum_list (map w [j..<j + k])) (table_line w j cs) = cs ! k @ rest \<and>
    (Suc k < length cs \<longrightarrow> take 4 rest = ''    '')"
  using assms
proof (induction cs arbitrary: j k)
  case (Cons c cs)
  show ?case
  proof (cases cs)
    case Nil
    with Cons.prems show ?thesis by simp
  next
    case (Cons d ds)
    let ?pad = "replicate (w j - length c) (CHR '' '')"
    have line: "table_line w j (c # cs) = c @ ?pad @ table_line w (Suc j) cs" using Cons by simp
    have w: "length c + 4 \<le> w j" using Cons.prems(2) [of 0] by simp
    show ?thesis
    proof (cases k)
      case 0
      have "?pad = replicate 4 (CHR '' '') @ replicate (w j - length c - 4) (CHR '' '')"
        using w by (simp flip: replicate_add)
      moreover have "replicate 4 (CHR '' '') = ''    ''" by (simp add: numeral_eq_Suc)
      ultimately have "take 4 ?pad = ''    ''" by simp
      then show ?thesis using w by (simp add: 0 line)
    next
      case (Suc i)
      have "[j..<j + k] = j # [Suc j..<Suc j + i]" unfolding Suc by (simp add: upt_conv_Cons)
      then have "sum_list (map w [j..<j + k]) = length (c @ ?pad) + sum_list (map w [Suc j..<Suc j + i])"
        using w by simp
      moreover have "length (cs ! l) + 4 \<le> w (Suc j + l)" if "l < length cs" for l
        using Cons.prems(2) [of "Suc l"] that by simp
      ultimately show ?thesis
        using Cons.IH [of i "Suc j"] Cons.prems(1) by (simp add: line Suc)
    qed
  qed
qed simp

lemma fold_max_least: "b \<le> fold max xs (b :: nat)"
proof (induction xs arbitrary: b)
  case (Cons y xs)
  show ?case using Cons [of "max y b"] by simp
qed simp

lemma fold_max_upper: "x \<in> set xs \<Longrightarrow> x \<le> fold max xs (b :: nat)"
proof (induction xs arbitrary: b)
  case (Cons y xs)
  then show ?case using fold_max_least [of "max y b" xs] Cons.IH [of "max y b"] by (cases "x = y") simp_all
qed simp

lemma column_width_bound: "r \<in> set rows \<Longrightarrow> length (r ! j) + 4 \<le> column_width rows j"
  unfolding column_width_def by (rule fold_max_upper) simp

text \<open>The lines of a table, and what stands in them.\<close>

lemma table_cells:
  assumes "r \<in> set rows" and "j < length r"
  shows "\<exists>rest. drop (column_start (column_width rows) j) (table_line (column_width rows) 0 r) = r ! j @ rest \<and>
    (Suc j < length r \<longrightarrow> take 4 rest = ''    '')"
  using table_line_cell [of j r "column_width rows" 0] column_width_bound [OF assms(1)] assms(2)
  by (simp add: column_start_def)

lemma clock_logged: "clock w \<le> clock (logged E ev w)"
  by (simp add: logged_def)

lemma table_rows_spec:
  "run_state (table_rows E row xs) w = (rows, w') \<Longrightarrow>
   list_all2 (\<lambda>x r. \<exists>now \<ge> clock w. r = row now x) xs rows"
proof (induction xs arbitrary: rows w)
  case (Cons x xs)
  let ?v = "logged E Now w"
  obtain rows' where r: "run_state (table_rows E row xs) ?v = (rows', w')" and rows: "rows = row (clock w) x # rows'"
    using Cons.prems by (auto simp: run_simps time_Now_def split: prod.splits)
  have "list_all2 (\<lambda>x r. \<exists>now \<ge> clock w. r = row now x) xs rows'"
    by (rule list_all2_mono [OF Cons.IH [OF r]]) (use clock_logged [of w E Now] order_trans in blast)
  then show ?case by (auto simp: rows)
qed (simp add: run_simps)

lemma table_aligned:
  assumes "\<forall>r \<in> set rows. length r = n"
  obtains lines start where "table rows = concat (map (\<lambda>l. l @ newline) lines)" and "length lines = length rows"
    and "\<And>k j. k < length rows \<Longrightarrow> j < n \<Longrightarrow>
      \<exists>rest. drop (start j) (lines ! k) = rows ! k ! j @ rest \<and> (Suc j < n \<longrightarrow> take 4 rest = ''    '')"
proof
  let ?line = "table_line (column_width rows) 0"
  show "table rows = concat (map (\<lambda>l. l @ newline) (map ?line rows))" by (simp add: table_def comp_def)
  show "\<exists>rest. drop (column_start (column_width rows) j) (map ?line rows ! k) = rows ! k ! j @ rest \<and>
      (Suc j < n \<longrightarrow> take 4 rest = ''    '')" if "k < length rows" "j < n" for k j
    using table_cells [of "rows ! k" rows j] that assms by simp
qed simp

lemma list_row_length: "length (list_row E now vm) = 7"
  by (simp add: list_row_def)


text \<open>One stopped VM.\<close>

lemma listing_run:
  "\<exists>v. run_state (List_vms calm_env) listing_world = (Inr {#stopped_vm calm_env ''web'' None#}, v)"
proof -
  have "fs_read_dir (files listing_world) (socketDirectory calm_env) = Inl ENOENT"
    "fs_read_dir (files listing_world) (vmsDir calm_env) = Inr [(''web'', True)]"
    by code_simp+
  then show ?thesis
    by (simp add: List_vms_def dir_entries_def os_ReadDir_def os_read_def run_simps logged_def dir_mtime_def AList.update.simps)
qed


end
