(* ===== verification/Ages.thy ===== *)
theory Ages
  imports Output
begin

text \<open>
  How the ages that are printed relate to the durations they stand for.
\<close>

section \<open>Seconds, minutes and hours\<close>

lemma small_powers:
  "(2 :: real) ^ 51 = 2251799813685248" "(2 :: real) ^ 52 = 4503599627370496" "(2 :: real) ^ 53 = 9007199254740992"
  by simp_all

lemma close_to_part:
  fixes v x :: real
  assumes "\<bar>v - x\<bar> \<le> x / 2 ^ 52" and "0 \<le> x" and "x < 1"
  shows "0 \<le> v" and "v \<le> 2"
proof -
  have "v - x \<le> x / 4503599627370496" "- (v - x) \<le> x / 4503599627370496" using assms(1) unfolding abs_le_iff small_powers by blast+
  then show "0 \<le> v" "v \<le> 2" using assms(2,3) by linarith+
qed

lemma sum_close_to:
  fixes v x s n :: real
  assumes "\<bar>v - x\<bar> \<le> x / 2 ^ 52" and "\<bar>s - (n + v)\<bar> \<le> (n + v) / 2 ^ 53" and "0 \<le> x" and "x < 1" and "0 \<le> n"
  shows "\<bar>s - (n + x)\<bar> \<le> (n + 1) / 2 ^ 51"
proof -
  have "v - x \<le> x / 4503599627370496" "- (v - x) \<le> x / 4503599627370496"
    "s - (n + v) \<le> (n + v) / 9007199254740992" "- (s - (n + v)) \<le> (n + v) / 9007199254740992"
    using assms(1,2) unfolding abs_le_iff small_powers by blast+
  then have "s - (n + x) \<le> (n + 1) / 2251799813685248" "- (s - (n + x)) \<le> (n + 1) / 2251799813685248"
    using close_to_part [OF assms(1,3,4)] assms(3-5) by (simp_all add: field_simps)
  then show ?thesis unfolding abs_le_iff small_powers by blast
qed

text \<open>A duration as a number of units: exact when it is a whole number of them, and close to it otherwise.\<close>

lemma dur_float_close:
  assumes "0 < unit" and "unit < 2 ^ 50" and "0 \<le> d" and "d div unit < 2 ^ 50"
  obtains m e where "dur_float unit d = Fin m e"
    and "d mod unit = 0 \<Longrightarrow> f_val (Fin m e) = of_int (d div unit)"
    and "\<bar>f_val (Fin m e) - of_int d / of_int unit\<bar> \<le> (of_int (d div unit) + 1) / 2 ^ 51"
proof -
  define n r where "n = d div unit" and "r = d mod unit"
  have n: "0 \<le> n" "n < 2 ^ 50" and r: "0 \<le> r" "r < unit" and d: "d = n * unit + r"
    using assms by (simp_all add: n_def r_def pos_imp_zdiv_nonneg_iff)
  have quot: "go_quot d unit = n" "go_rem d unit = r"
    using assms(1,3) n(1) unfolding go_rem_def go_quot_def n_def r_def
    by (cases "d = 0"; simp add: sgn_1_pos minus_mult_div_eq_mod)+
  have fl: "f_of_int n = Fin n 0" "f_of_int r = Fin r 0" "f_of_int unit = Fin unit 0"
    using n r assms(2) by (simp_all add: f_of_int_exact)
  have dur: "dur_float unit d = f_add (Fin n 0) (f_ratio r unit)"
    using assms(1) by (simp add: dur_float_def quot fl)
  have real: "real_of_int d / of_int unit = of_int n + of_int r / of_int unit"
    using assms(1) by (simp add: d add_divide_distrib)
  have rr: "real_of_int r / of_int unit < 1" "0 \<le> real_of_int r / of_int unit" using r assms(1) by simp_all
  show thesis
  proof (cases "r = 0")
    case True
    obtain e where e: "f_ratio 0 unit = Fin 0 e" "- 1000 \<le> e" "e \<le> 0"
      using f_ratio_0 [of unit] assms(1,2) by auto
    have add: "dur_float unit d = f_round (n * 2 ^ nat (- e)) e"
      using e by (simp add: dur True scaled_def min_def)
    note x = f_round_shifted [of n e "nat (- e)"]
    obtain m e' where f: "dur_float unit d = Fin m e'"
      using x(1) n e unfolding add finite_float_def by (auto split: float64.splits)
    have p: "(2 :: real) ^ nat (- e) * 2 powr of_int e = 1"
      using e powr_real_of_int [of 2 "- e"] by (simp add: powr_minus field_simps)
    have "f_val (Fin m e') = of_int n * (2 ^ nat (- e) * 2 powr of_int e)"
      using x(2) n e f add by (simp add: mult.assoc)
    then have v: "f_val (Fin m e') = of_int n" using p by simp
    show thesis
      by (rule that [OF f]) (use v n r_def n_def real True in simp_all)
  next
    case False
    then have "0 < r" using r by simp
    then have "1 \<le> int_bits r" "1 \<le> int_bits unit" using int_bits_bounds [of r] int_bits_bounds [of unit] assms(1) by auto
    moreover have "int_bits r \<le> 50" "int_bits unit \<le> 50"
      using int_bits_le [of r 50] int_bits_le [of unit 50] r assms(2) by simp_all
    ultimately have bits: "\<bar>int_bits unit - int_bits r\<bar> \<le> 900" by linarith
    obtain q f where q: "f_ratio r unit = Fin q f"
      using f_ratio_finite [OF assms(1) \<open>0 < r\<close> bits] by (auto simp: finite_float_def split: float64.splits)
    have f: "- 961 \<le> f" by (rule f_ratio_exponent [OF q \<open>0 < r\<close> bits])
    have c: "\<bar>f_val (Fin q f) - of_int r / of_int unit\<bar> \<le> of_int r / of_int unit / 2 ^ 52"
      using f_ratio_close [OF assms(1) \<open>0 < r\<close> assms(1) \<open>0 < r\<close> bits bits] q by simp
    note v = close_to_part [OF c rr(2,1)]
    from v(1) have "0 \<le> q" by (simp add: zero_le_mult_iff)
    have sum: "f_val (Fin n 0) + f_val (Fin q f) < 2 ^ 60" using n v(2)
      by (simp only: f_val.simps) simp
    have fin: "finite_float (f_add (Fin n 0) (Fin q f))"
      by (rule f_add_finite) (use n \<open>0 \<le> q\<close> sum in simp_all)
    then obtain m e where m: "dur_float unit d = Fin m e"
      unfolding dur q by (auto simp: finite_float_def split: float64.splits)
    have "\<bar>f_val (Fin m e) - (of_int n + f_val (Fin q f))\<bar> \<le> (of_int n + f_val (Fin q f)) / 2 ^ 53"
      using f_add_error [OF _ _ fin] f m v(1) n(1) by (simp add: dur q del: f_add.simps)
    then have "\<bar>f_val (Fin m e) - of_int d / of_int unit\<bar> \<le> (of_int n + 1) / 2 ^ 51"
      using sum_close_to [OF c _ rr(2,1)] n(1) unfolding real by simp
    then show thesis by (intro that [OF m]) (use False in \<open>simp_all add: n_def r_def\<close>)
  qed
qed

text \<open>The number of whole units, as long as it is not large.\<close>

lemma whole_units:
  assumes "0 < unit" and "unit < 2 ^ 50" and "0 \<le> d" and "(d div unit + 1) * unit < 2 ^ 51" and "d div unit < 2 ^ 50"
  shows "f_to_int wide (dur_float unit d) = d div unit"
proof -
  let ?n = "d div unit" and ?x = "real_of_int d / of_int unit"
  have n: "0 \<le> ?n" using assms(1,3) by (simp add: pos_imp_zdiv_nonneg_iff)
  obtain m e where m: "dur_float unit d = Fin m e"
    and exact: "d mod unit = 0 \<Longrightarrow> f_val (Fin m e) = of_int ?n"
    and close: "\<bar>f_val (Fin m e) - ?x\<bar> \<le> (of_int ?n + 1) / 2 ^ 51"
    using dur_float_close [OF assms(1-3,5)] by metis
  have u: "0 < real_of_int unit" using assms(1) by simp
  have "real_of_int ((?n + 1) * unit) < of_int (2 ^ 51)" using assms(4) by (simp only: of_int_less_iff)
  then have small: "(of_int ?n + 1) / 2 ^ 51 < 1 / real_of_int unit" using u by (simp add: field_simps)
  have "of_int ?n \<le> f_val (Fin m e) \<and> f_val (Fin m e) < of_int ?n + 1"
  proof (cases "d mod unit = 0")
    case True
    with exact show ?thesis by simp
  next
    case False
    then have r: "1 \<le> d mod unit" "d mod unit \<le> unit - 1" using pos_mod_sign [OF assms(1), of d] pos_mod_bound [OF assms(1), of d] by linarith+
    have "?x = of_int ?n + of_int (d mod unit) / of_int unit"
      using u by (simp add: field_simps flip: of_int_mult of_int_add)
    moreover have "1 / real_of_int unit \<le> of_int (d mod unit) / of_int unit" using r(1) u by (simp add: divide_right_mono)
    moreover have "of_int (d mod unit) / real_of_int unit \<le> 1 - 1 / of_int unit"
    proof -
      have "real_of_int (d mod unit) \<le> of_int (unit - 1)" using r(2) by (simp only: of_int_le_iff)
      then show ?thesis using u by (simp add: field_simps)
    qed
    ultimately show ?thesis using close small by (simp only: abs_le_iff) linarith
  qed
  then have "f_trunc m e = ?n" using n by (intro f_trunc_val) auto
  then show ?thesis using n assms(5) by (simp add: m)
qed

text \<open>The number of whole days, which is only rounded near a whole number.\<close>

lemma days_close:
  fixes v x z n :: real
  assumes "\<bar>v - x\<bar> \<le> (n + 1) / 2 ^ 51" and "\<bar>z - v / 24\<bar> \<le> v / 24 / 2 ^ 52" and "n \<le> x" and "x \<le> n + 1" and "n < 2562048"
    and "1 \<le> n"
  shows "\<bar>z * 24 - x\<bar> * 3600000000000 \<le> 10000"
proof -
  have v: "v - x \<le> (n + 1) / 2251799813685248" "- (v - x) \<le> (n + 1) / 2251799813685248"
    and z: "z - v / 24 \<le> v / 24 / 4503599627370496" "- (z - v / 24) \<le> v / 24 / 4503599627370496"
    using assms(1,2) unfolding abs_le_iff small_powers by blast+
  have "v \<le> 2562050" using v(1) assms by (simp add: field_simps)
  then have "z * 24 - x \<le> 10000 / 3600000000000" "- (z * 24 - x) \<le> 10000 / 3600000000000"
    using v z assms(5) by (simp_all add: field_simps)
  then show ?thesis by (simp add: abs_if field_simps)
qed

lemma near_ns:
  fixes z x d :: real
  assumes "\<bar>z * 24 - x\<bar> * 3600000000000 \<le> 10000" and "x * 3600000000000 = d"
  shows "z * 86400000000000 \<le> d + 10000 \<and> d \<le> z * 86400000000000 + 10000"
  using assms(1) unfolding assms(2) [symmetric] abs_if by (simp add: algebra_simps split: if_splits)

lemma whole_days:
  assumes "day_ns \<le> d" and "d < 2 ^ 63" and "k = f_to_int wide (f_div (dur_float hour_ns d) (f_of_int 24))"
  shows "k * day_ns \<le> d + 10000" and "d < (k + 1) * day_ns + 10000"
proof -
  let ?n = "d div hour_ns" and ?x = "real_of_int d / of_int hour_ns"
  have h: "hour_ns = 3600000000000" "day_ns = 24 * hour_ns" by (simp_all add: hour_ns_def min_ns_def sec_ns_def day_ns_def)
  have d: "86400000000000 \<le> d" "d < 9223372036854775808" using assms(1,2) h by simp_all
  then have n: "24 \<le> ?n" "?n < 2562048" by (simp_all add: h)
  have u: "0 < hour_ns" "hour_ns < 2 ^ 50" "0 \<le> d" "?n < 2 ^ 50" using d n by (simp_all add: h)
  obtain m e where m: "dur_float hour_ns d = Fin m e"
    and c: "\<bar>f_val (Fin m e) - ?x\<bar> \<le> (of_int ?n + 1) / 2 ^ 51"
    using dur_float_close [OF u] by metis
  have x: "of_int ?n \<le> ?x" "?x \<le> of_int ?n + 1"
    using real_of_int_div4 [of d hour_ns] real_of_int_div3 [of d hour_ns] u(1) by (simp_all add: floor_divide_of_int_eq)
  have n': "1 \<le> real_of_int ?n" "real_of_int ?n < 2562048" using n by linarith+
  have small: "(of_int ?n + 1) / 2 ^ 51 \<le> (1 :: real)" using n' by simp
  have "23 \<le> f_val (Fin m e) \<and> f_val (Fin m e) \<le> 3000000"
    using c small x n' n unfolding abs_le_iff by linarith
  moreover have "3000000 \<le> (2 :: real) ^ 60" by simp
  ultimately have v: "1 \<le> f_val (Fin m e)" "f_val (Fin m e) \<le> 2 ^ 60" by linarith+
  have f24: "f_of_int 24 = Fin 24 0" by (simp add: f_of_int_exact)
  have t24: "(1 :: int) \<le> 24" "(24 :: int) < 2 ^ 30" by simp_all
  obtain q f where q: "f_div (Fin m e) (Fin 24 0) = Fin q f"
    using f_div_close(2) [OF v t24] by (auto simp: finite_float_def split: float64.splits)
  define z where "z = f_val (Fin q f)"
  have zc: "\<bar>z - f_val (Fin m e) / 24\<bar> \<le> f_val (Fin m e) / 24 / 2 ^ 52"
    using f_div_close(1) [OF v t24] unfolding q z_def by simp
  have close: "\<bar>z * 24 - ?x\<bar> * 3600000000000 \<le> 10000" by (rule days_close [OF c zc x n'(2,1)])
  then have z: "0 \<le> z" "z \<le> 2562048" using x n' unfolding abs_if by (simp_all split: if_splits)
  have "f_trunc q f = \<lfloor>z\<rfloor>" by (rule f_trunc_val) (use z(1) in \<open>simp_all add: z_def [symmetric] del: f_val.simps\<close>)
  moreover have "0 \<le> \<lfloor>z\<rfloor>" "\<lfloor>z\<rfloor> \<le> 2562048" using z by linarith+
  ultimately have "k = \<lfloor>z\<rfloor>" by (simp add: assms(3) m f24 q del: f_div.simps)
  then have k: "of_int k \<le> z" "z < of_int k + 1" by linarith+
  have d': "?x * 3600000000000 = of_int d" by (simp add: h(1))
  have near: "z * 86400000000000 \<le> of_int d + 10000" "of_int d \<le> z * 86400000000000 + 10000"
    using near_ns [OF close d'] by simp_all
  have "real_of_int (k * day_ns) \<le> of_int (d + 10000)" "real_of_int d < of_int ((k + 1) * day_ns + 10000)"
    using near k unfolding h by (simp_all add: algebra_simps)
  then show "k * day_ns \<le> d + 10000" "d < (k + 1) * day_ns + 10000" by (simp_all only: of_int_le_iff of_int_less_iff)
qed

text \<open>C28: The age of a VM or a snapshot is printed as the whole number of its seconds, minutes or hours, rounded
  down; from one day on it is a number of days, rounded down except within ten microseconds of a
  whole day, where the division in floating point may be off by one.\<close>
theorem printed_age:
  assumes "0 \<le> d" and "d < 2 ^ 63"
  shows "if d < min_ns then formatDuration E d = itoa (d div sec_ns) @ ''s''
    else if d < hour_ns then formatDuration E d = itoa (d div min_ns) @ ''m''
    else if d < day_ns then formatDuration E d = itoa (d div hour_ns) @ ''h''
    else \<exists>k. formatDuration E d = itoa k @ ''d'' \<and> k * day_ns \<le> d + 10000 \<and> d < (k + 1) * day_ns + 10000"
proof -
  note units = sec_ns_def min_ns_def hour_ns_def day_ns_def
  have whole: "f_to_int (wide_int E) (dur_float unit d) = d div unit"
    if u: "0 < unit" "unit < 2 ^ 50" "d < c * unit" "c * unit < 2 ^ 51" "c \<le> 60" for unit c
  proof -
    have "d div unit < c" using u(1,3) by (rule int_div_less)
    then have "(d div unit + 1) * unit \<le> c * unit" using u(1) by (intro mult_right_mono) auto
    then have "(d div unit + 1) * unit < 2 ^ 51" using u(4) by (rule le_less_trans)
    then show ?thesis using u(5) \<open>d div unit < c\<close> by (intro whole_units [OF u(1,2) assms(1)]) simp_all
  qed
  consider "d < min_ns" | "min_ns \<le> d" "d < hour_ns" | "hour_ns \<le> d" "d < day_ns" | "day_ns \<le> d" by linarith
  then show ?thesis
  proof cases
    case 1
    then show ?thesis using whole [of sec_ns 60] by (simp add: formatDuration_def Let_def units)
  next
    case 2
    then show ?thesis using whole [of min_ns 60] by (simp add: formatDuration_def Let_def units)
  next
    case 3
    then show ?thesis using whole [of hour_ns 24] by (simp add: formatDuration_def Let_def units)
  next
    case 4
    then have "formatDuration E d = itoa (f_to_int (wide_int E) (f_div (dur_float hour_ns d) (f_of_int 24))) @ ''d''"
      by (simp add: formatDuration_def Let_def units)
    with whole_days [OF 4 assms(2) refl] 4 show ?thesis by (auto simp: units)
  qed
qed

text \<open>Ages of 90 minutes and of one second less than three days.\<close>

lemma printed_age_witness:
  "formatDuration calm_env 5400000000000 = ''1h'' \<and> formatDuration calm_env 259199000000000 = ''2d''"
proof
  note units = sec_ns_def min_ns_def hour_ns_def day_ns_def
  have "itoa 1 = ''1''" "itoa 2 = ''2''" by code_simp+
  then show "formatDuration calm_env 5400000000000 = ''1h''" using printed_age [of 5400000000000 calm_env] by (simp add: units)
  obtain k where "formatDuration calm_env 259199000000000 = itoa k @ ''d''" "k * day_ns \<le> 259199000000000 + 10000"
    "259199000000000 < (k + 1) * day_ns + 10000"
    using printed_age [of 259199000000000 calm_env] by (auto simp: units)
  moreover from this have "k = 2" by (simp add: units)
  ultimately show "formatDuration calm_env 259199000000000 = ''2d''" using \<open>itoa 2 = ''2''\<close> by simp
qed

end
