(* ===== verification/Cpus.thy ===== *)
theory Cpus
  imports Invocation Rounding
begin

text \<open>
  A number of CPUs from the command line to the limits of the VM: the decimal that was written, the
  \<open>float64\<close> it is read as, and the vCPUs and the quota computed from that.
\<close>

section \<open>Rounding up\<close>

lemma f_to_int_ceil:
  assumes "0 \<le> m" and "\<lceil>f_val (Fin m e)\<rceil> < 2 ^ 63"
  shows "f_to_int wide (f_ceil (Fin m e)) = \<lceil>f_val (Fin m e)\<rceil>"
proof -
  define c where "c = \<lceil>f_val (Fin m e)\<rceil>"
  have "0 \<le> f_val (Fin m e)" using assms(1) by simp
  then have c: "0 \<le> c" "c < 2 ^ 63" using assms(2) unfolding c_def by linarith+
  have "f_ceil (Fin m e) = Fin c 0 \<or> 0 \<le> e \<and> f_ceil (Fin m e) = Fin m e \<and> m * 2 ^ nat e = c"
  proof (cases "0 \<le> e")
    case True
    have "f_val (Fin m e) = of_int (m * 2 ^ nat e)" using True by (simp add: powr_real_of_int)
    then have "c = m * 2 ^ nat e" unfolding c_def by (simp only: ceiling_of_int)
    with True show ?thesis by simp
  next
    case False
    have "f_val (Fin m e) = of_int m / of_int (2 ^ nat (- e))"
      using False by (simp add: powr_real_of_int inverse_eq_divide)
    then have "c = - ((- m) div 2 ^ nat (- e))" unfolding c_def by (simp only: ceiling_divide_eq_div)
    with False show ?thesis by simp
  qed
  then have "f_to_int wide (f_ceil (Fin m e)) = c" using c by (auto simp: f_trunc_def simp del: f_ceil.simps)
  then show ?thesis by (simp only: c_def)
qed

section \<open>Decimals\<close>

text \<open>A decimal without exponent is read as a value close to the number that it writes.\<close>

definition decimal :: "string \<Rightarrow> string \<Rightarrow> real" where
  "decimal s t = real (undec (s @ t)) / 10 ^ length t"

lemma undec_less: "list_all is_digit s \<Longrightarrow> undec s < 10 ^ length s"
proof (induction s rule: rev_induct)
  case (snoc c s)
  then show ?case using digit_val_less [of c] by (simp add: undec_def)
qed (simp add: undec_def)

lemma power_10_bits: "n \<le> 10 ^ k \<Longrightarrow> int_bits n \<le> 4 * int k + 1"
proof -
  assume "n \<le> 10 ^ k"
  also have "(10 :: int) ^ k \<le> 16 ^ k" by (rule power_mono) simp_all
  also have "(16 :: int) ^ k = 2 ^ (4 * k)" by (simp add: power_mult)
  also have "\<dots> < 2 ^ (4 * k + 1)" by simp
  finally show ?thesis using int_bits_le [of n "4 * k + 1"] by simp
qed

lemma ParseFloat_decimal:
  assumes "list_all is_digit s" and "list_all is_digit t" and "s @ t \<noteq> []" and "length (s @ t) \<le> 200"
    and "0 < undec (s @ t)"
  obtains m e where "ParseFloat (s @ ''.'' @ t) = Some (Fin m e)" and "0 < m" and "- 961 \<le> e"
    and "\<bar>f_val (Fin m e) - decimal s t\<bar> \<le> decimal s t / 2 ^ 52"
proof -
  let ?n = "int (undec (s @ t))" and ?d = "(10 :: int) ^ length t"
  have "list_all plain_digit (s @ ''.'' @ t)" using assms(1,2) by (auto simp: plain_digit_def list_all_iff)
  then have p: "ParseFloat (s @ ''.'' @ t) = in_range (f_decimal ?n (- int (length t)))"
    using read_decimal_digits(2) [OF assms(1,2)] assms(3) by (simp add: ParseFloat_plain)
  have n: "0 < ?n" "?n \<le> 10 ^ 200"
  proof -
    have "?n \<le> 10 ^ length (s @ t)" using undec_less [of "s @ t"] assms(1,2) by (simp add: order_less_imp_le flip: of_nat_power)
    also have "(10 :: int) ^ length (s @ t) \<le> 10 ^ 200" by (rule power_increasing [OF assms(4)]) simp
    finally show "?n \<le> 10 ^ 200" .
  qed (use assms(5) in simp)
  have d: "0 < ?d" "?d \<le> 10 ^ 200" using power_increasing [of "length t" 200 "10 :: int"] assms(4) by simp_all
  have bits: "1 \<le> int_bits ?n" "int_bits ?n \<le> 801" "1 \<le> int_bits ?d" "int_bits ?d \<le> 801"
    using int_bits_bounds [OF n(1)] int_bits_bounds [OF d(1)] power_10_bits [OF n(2)] power_10_bits [OF d(2)] by simp_all
  have r: "decimal s t = of_int ?n / of_int ?d" "0 < decimal s t" using assms(5) by (simp_all add: decimal_def)
  note result = that
  have found: thesis if x: "f_decimal ?n (- int (length t)) = Fin m e" "- 961 \<le> e"
    "\<bar>f_val (Fin m e) - decimal s t\<bar> \<le> decimal s t / 2 ^ 52" for m e
  proof -
    have "decimal s t / 2 ^ 52 < decimal s t" using r(2) by (simp add: field_simps)
    then have "0 < f_val (Fin m e)" using x(3) unfolding abs_le_iff by linarith
    then have "0 < m" by (simp add: zero_less_mult_iff)
    show thesis by (rule result [OF _ \<open>0 < m\<close> x(2,3)]) (use p x(1) in \<open>simp add: in_range_def\<close>)
  qed
  show thesis
  proof (cases "t = []")
    case True
    have fin: "finite_float (f_round ?n 0)" by (rule f_round_finite) (use n bits in simp)
    then obtain m e where m: "f_round ?n 0 = Fin m e" by (auto simp: finite_float_def split: float64.splits)
    have "\<bar>f_val (Fin m e) - of_int ?n\<bar> \<le> of_int ?n / 2 ^ 53"
      using f_round_error [OF fin] bits n by (simp add: m)
    then show thesis using found [of m e] f_round_exponent [OF m] m True r by (simp add: f_decimal_def)
  next
    case False
    have "\<bar>int_bits ?d - int_bits ?n\<bar> \<le> 900" using bits by linarith
    note b = d(1) n(1) this
    obtain m e where m: "f_ratio ?n ?d = Fin m e"
      using f_ratio_finite [OF b] by (auto simp: finite_float_def split: float64.splits)
    show thesis
      using found [of m e] f_ratio_exponent [OF m b(2,3)] f_ratio_close [OF b(1,2) b(1,2,3,3)] False m r
      by (simp add: f_decimal_def)
  qed
qed

section \<open>vCPUs and quota\<close>

lemma times_100:
  assumes "0 < m" and "- 961 \<le> e" and "f_val (Fin m e) \<le> 2 ^ 21"
  obtains q f where "f_mul (Fin m e) (f_of_int 100) = Fin q f" and "0 < q"
    and "\<bar>f_val (Fin q f) - f_val (Fin m e) * 100\<bar> \<le> f_val (Fin m e) * 100 / 2 ^ 53"
proof -
  have mul: "f_mul (Fin m e) (f_of_int 100) = f_round (m * 100) e" by (simp add: f_of_int_exact)
  have v: "of_int (m * 100) * 2 powr of_int e = f_val (Fin m e) * 100" by simp
  have pos: "0 < f_val (Fin m e)" using assms(1) by simp
  have "f_val (Fin m e) * 100 \<le> 2 ^ 21 * 100" using assms(3) by simp
  then have b: "int_bits (m * 100) + e \<le> 60" using small_bits [of "m * 100" e] assms(1) unfolding v by simp
  have fin: "finite_float (f_round (m * 100) e)" by (rule f_round_finite) (use b assms(1) in simp)
  then obtain q f where q: "f_round (m * 100) e = Fin q f" by (auto simp: finite_float_def split: float64.splits)
  have "1 \<le> int_bits (m * 100)" using int_bits_bounds [of "m * 100"] assms(1) by simp
  then have c: "\<bar>f_val (Fin q f) - f_val (Fin m e) * 100\<bar> \<le> f_val (Fin m e) * 100 / 2 ^ 53"
    using f_round_error [OF fin] assms(1,2) pos unfolding v q by simp
  have "f_val (Fin m e) * 100 / 2 ^ 53 < f_val (Fin m e) * 100" using pos by (simp add: field_simps)
  then have "0 < f_val (Fin q f)" using c unfolding abs_le_iff by linarith
  then have "0 < q" by (simp add: zero_less_mult_iff)
  with mul q c that show thesis by simp
qed

lemma hundredfold:
  fixes v r q :: real
  assumes "\<bar>v - r\<bar> \<le> r / 2 ^ 52" and "\<bar>q - v * 100\<bar> \<le> v * 100 / 2 ^ 53" and "0 < r"
  shows "100 * r * (1 - 1 / 2 ^ 51) \<le> q \<and> q \<le> 100 * r * (1 + 1 / 2 ^ 51)"
proof -
  have p: "(2 :: real) ^ 51 = 2251799813685248" "(2 :: real) ^ 52 = 4503599627370496" "(2 :: real) ^ 53 = 9007199254740992"
    by simp_all
  have "v - r \<le> r / 4503599627370496" "- (v - r) \<le> r / 4503599627370496"
    "q - v * 100 \<le> v * 100 / 9007199254740992" "- (q - v * 100) \<le> v * 100 / 9007199254740992"
    using assms(1,2) unfolding abs_le_iff p by blast+
  then show ?thesis unfolding p using assms(3) by (simp add: field_simps)
qed

text \<open>C18: A number of CPUs given as a decimal starts a VM with the number read to within a part in 2^52 of it.
  The VM gets at least that many vCPUs and less than one more, and a quota, when it is under one, of at
  least that many percent and less than one more, both up to that rounding.\<close>
theorem cpus_given:
  assumes "list_all is_digit s" and "list_all is_digit t" and "s @ t \<noteq> []" and "length (s @ t) \<le> 200"
    and "0 < decimal s t" and "decimal s t \<le> 2 ^ 20"
  shows "\<exists>x. cli_Start E i [''--name'', n, ''--cpus'', s @ ''.'' @ t] w =
      map_option (\<lambda>(r, w). (Returns r, w)) (Start E (start_defaults\<lparr>flag_name := n, flag_cpus := x\<rparr>) i w) \<and>
    \<bar>f_val x - decimal s t\<bar> \<le> decimal s t / 2 ^ 52 \<and>
    decimal s t * (1 - 1 / 2 ^ 52) \<le> of_int (vcpus_of E x) \<and>
    of_int (vcpus_of E x) < decimal s t * (1 + 1 / 2 ^ 52) + 1 \<and>
    100 * decimal s t * (1 - 1 / 2 ^ 51) \<le> of_int (cpu_quota E x) \<and>
    of_int (cpu_quota E x) < 100 * decimal s t * (1 + 1 / 2 ^ 51) + 1"
proof -
  let ?r = "decimal s t"
  have "0 < undec (s @ t)" using assms(5) by (simp add: decimal_def zero_less_divide_iff)
  then obtain m e where read: "ParseFloat (s @ ''.'' @ t) = Some (Fin m e)" and m: "0 < m" "- 961 \<le> e"
    and close: "\<bar>f_val (Fin m e) - ?r\<bar> \<le> ?r / 2 ^ 52"
    using ParseFloat_decimal [OF assms(1-4)] by metis
  have v: "?r * (1 - 1 / 2 ^ 52) \<le> f_val (Fin m e)" "f_val (Fin m e) \<le> ?r * (1 + 1 / 2 ^ 52)"
    using close unfolding abs_le_iff by (simp_all add: field_simps)
  have "cli_Start E i [''--name'', n, ''--cpus'', s @ ''.'' @ t] w =
      map_option (\<lambda>(r, w). (Returns r, w)) (Start E (start_defaults\<lparr>flag_name := n, flag_cpus := Fin m e\<rparr>) i w)"
  proof -
    have "list_all (fits (map_of start_set)) [Give ''name'' n, Give ''cpus'' (s @ ''.'' @ t)]"
      by (simp add: fits_def start_set_simps flag_word_def string_value_def float_value_def)
    from parse_settings [OF this, where args = "[]" and r = start_defaults]
    have "parse_flags (map_of start_set) [''--name'', n, ''--cpus'', s @ ''.'' @ t] start_defaults =
        Inr (start_defaults\<lparr>flag_name := n, flag_cpus := Fin m e\<rparr>)"
      using read by (simp add: start_set_simps string_value_def float_value_def del: parse_flags.simps(2))
    then show ?thesis by (simp add: cli_Start_def del: parse_flags.simps)
  qed
  moreover have V: "0 < f_val (Fin m e)" "f_val (Fin m e) \<le> 2 ^ 21" "0 \<le> m"
    using v assms(5,6) m(1) by simp_all
  then have c: "1 \<le> \<lceil>f_val (Fin m e)\<rceil>" "\<lceil>f_val (Fin m e)\<rceil> \<le> 2 ^ 21"
    by (simp_all add: ceiling_le_iff one_le_ceiling del: f_val.simps)
  have vcpus: "vcpus_of E (Fin m e) = \<lceil>f_val (Fin m e)\<rceil>"
    using f_to_int_ceil [OF V(3)] c by (simp add: vcpus_of_def Let_def del: f_to_int.simps f_ceil.simps f_val.simps)
  obtain q f where q: "f_mul (Fin m e) (f_of_int 100) = Fin q f" "0 < q"
    and qc: "\<bar>f_val (Fin q f) - f_val (Fin m e) * 100\<bar> \<le> f_val (Fin m e) * 100 / 2 ^ 53"
    by (rule times_100 [OF m V(2)])
  have Q: "100 * ?r * (1 - 1 / 2 ^ 51) \<le> f_val (Fin q f)" "f_val (Fin q f) \<le> 100 * ?r * (1 + 1 / 2 ^ 51)"
    using hundredfold [OF close qc] assms(5) by simp_all
  then have "\<lceil>f_val (Fin q f)\<rceil> \<le> 2 ^ 30" using assms(6) by (simp add: ceiling_le_iff)
  then have quota: "cpu_quota E (Fin m e) = \<lceil>f_val (Fin q f)\<rceil>"
    using f_to_int_ceil [of q f] q(2) by (simp add: cpu_quota_def q(1) del: f_to_int.simps f_ceil.simps f_val.simps)
  moreover note close
  moreover have "?r * (1 - 1 / 2 ^ 52) \<le> of_int (vcpus_of E (Fin m e))"
    "of_int (vcpus_of E (Fin m e)) < ?r * (1 + 1 / 2 ^ 52) + 1"
    using v unfolding vcpus by linarith+
  moreover have "100 * ?r * (1 - 1 / 2 ^ 51) \<le> of_int (cpu_quota E (Fin m e))"
    "of_int (cpu_quota E (Fin m e)) < 100 * ?r * (1 + 1 / 2 ^ 51) + 1"
    using Q unfolding quota by linarith+
  ultimately show ?thesis by (intro exI [of _ "Fin m e"] conjI)
qed

text \<open>1.1 CPUs are two vCPUs with a quota of 110 or 111 percent.\<close>

lemma cpus_given_witness:
  "\<exists>x. cli_Start calm_env Never [''--name'', ''web'', ''--cpus'', ''1'' @ ''.'' @ ''1''] empty_world =
     map_option (\<lambda>(r, w). (Returns r, w))
       (Start calm_env (start_defaults\<lparr>flag_name := ''web'', flag_cpus := x\<rparr>) Never empty_world) \<and>
   vcpus_of calm_env x = 2 \<and> 110 \<le> cpu_quota calm_env x \<and> cpu_quota calm_env x \<le> 111"
proof -
  have "undec ''11'' = 11" by code_simp
  then have r: "decimal ''1'' ''1'' = 11 / 10" by (simp add: decimal_def)
  have "list_all is_digit ''1''" by code_simp
  from cpus_given [OF this this, where n = "''web''" and E = calm_env and i = Never and w = empty_world]
  obtain x where x: "cli_Start calm_env Never [''--name'', ''web'', ''--cpus'', ''1'' @ ''.'' @ ''1''] empty_world =
      map_option (\<lambda>(r, w). (Returns r, w))
        (Start calm_env (start_defaults\<lparr>flag_name := ''web'', flag_cpus := x\<rparr>) Never empty_world)"
    and b: "11 / 10 * (1 - 1 / 2 ^ 52) \<le> real_of_int (vcpus_of calm_env x)"
    "real_of_int (vcpus_of calm_env x) < 11 / 10 * (1 + 1 / 2 ^ 52) + 1"
    "100 * (11 / 10) * (1 - 1 / 2 ^ 51) \<le> real_of_int (cpu_quota calm_env x)"
    "real_of_int (cpu_quota calm_env x) < 100 * (11 / 10) * (1 + 1 / 2 ^ 51) + 1"
    unfolding r by auto
  then have "1 < real_of_int (vcpus_of calm_env x)" "real_of_int (vcpus_of calm_env x) < 3"
    "109 < real_of_int (cpu_quota calm_env x)" "real_of_int (cpu_quota calm_env x) < 112" by simp_all
  then have "vcpus_of calm_env x = 2" "110 \<le> cpu_quota calm_env x" "cpu_quota calm_env x \<le> 111" by linarith+
  with x show ?thesis by blast
qed

end
