(* ===== verification/Spec2Isabelle.thy ===== *)
theory Spec2Isabelle
  imports Forward Restore Race Listing Program Tables Ages Cpus
begin

text \<open>
  \<^bold>\<open>The program.\<close> Knaller starts Firecracker microVMs, either without privileges under pasta (\<open>Run\<close>) or
  inside a kernel network namespace of its own making (\<open>RunDirect\<close>), configures them over
  Firecracker's HTTP API, stops, pauses, lists and removes them, takes snapshots and restores them.
  It keeps no state of its own: a VM is its socket, its directory, its process and, in direct mode,
  its namespace and firewall rules. Everything about a VM's network is computed from its name.

  \<^bold>\<open>What the program runs on.\<close> \<open>World\<close> is package \<open>os\<close> over a tree of files, together with the environment
  \<open>env\<close>: which call fails (\<open>fault\<close>, with any effect on the files), how long calls take, and what is
  not part of the program, the commands it runs, the processes it starts and signals, the HTTP
  server behind a socket, the other end of a TCP connection, the clock and the source of random
  bytes. Each is a function of the state, so that every theorem holds for every behaviour of them.
  A step of the program is a value of HOL's state monad, a call that may fail returns \<open>err + 'a\<close>, and
  every call is logged in \<open>trace\<close>, which is what theorems about order and absence of calls speak of.
  \<open>GoText\<close>, \<open>GoPath\<close>, \<open>GoTime\<close>, \<open>Float64\<close>, \<open>Sha256\<close> and \<open>Json\<close> are the parts of Go's library that the
  program computes with: \<open>strconv\<close>, \<open>strings\<close>, \<open>filepath\<close>, \<open>time\<close>, \<open>float64\<close>, \<open>sha256\<close> and \<open>encoding/json\<close>.
  \<open>Prelude\<close> holds the collections of hints, \<open>Logic\<close> the rules for what a program ensures, logs, calls
  and fails with, \<open>Files\<close> the contract of a value kept in a file.

  \<^bold>\<open>Theories and sources.\<close>
  \<^item> \<open>Network\<close> (\<open>network.go\<close>, the derived names of \<open>vm_direct.go\<close>): addresses, MACs, ports and interface
    names; disjointness, ranges, collisions. Locales: a /30 link, an interface name.
  \<^item> \<open>Config\<close> (\<open>config.go\<close>, \<open>mergeUniquePorts\<close> of \<open>vm.go\<close>): defaults, checks, the merge of port lists.
  \<^item> \<open>Models\<close> and \<open>Client\<close> (\<open>firecracker/\<close>): the API's structs with their JSON in both directions, and every
    request with the ways it fails. Locale: a type with its JSON form.
  \<^item> \<open>Disk\<close> and \<open>Dns\<close> (\<open>disk.go\<close>, \<open>bootArgsIP\<close>, \<open>parseGuestIP\<close>): the VM's directory, disk image and port
    file; the name servers of a guest and its boot argument.
  \<^item> \<open>Snapshot\<close> (\<open>snapshot.go\<close>): both ways of taking a snapshot with their deferred resume; reading, listing
    and deleting.
  \<^item> \<open>Poll\<close> (\<open>waitForSocket\<close>, \<open>WaitForSSH\<close>): loops with a deadline. Locale: a polling loop, interpreted on
    both; the loops end because every pause advances the clock.
  \<^item> \<open>Vm\<close> (\<open>Run\<close> and \<open>namespaceSetupScript\<close>): one definition per stage, from the end backwards; the requests
    made, what a failure has undone, the CPU count and quota.
  \<^item> \<open>Netns\<close>, \<open>Egress\<close> and \<open>Forward\<close> (\<open>setupBoxNetns\<close>, \<open>teardownBoxNetns\<close>): the commands as a plan, the chains
    of the host's table read off the log, and what they decide about a packet or a connection. nft
    itself is a parameter with the laws \<open>nft_laws\<close> and \<open>dnat_laws\<close>, which say what nft(8) documents for
    rules of the forms the program writes; \<open>first_match\<close> and \<open>first_target\<close> satisfy them.
  \<^item> \<open>Race\<close>: setups of several VMs at once, as a step relation that interleaves their commands; what every
    order keeps of the filter, and what an order or a failure can break.
  \<^item> \<open>Direct\<close> (\<open>RunDirect\<close>, \<open>EscapeContainerCgroup\<close>, the exported accessors): the same for direct mode.
  \<^item> \<open>Lifecycle\<close> (the rest of \<open>vm.go\<close>): waiting, killing, adopting, stopping, removing, listing. Waiting for
    an adopted VM may go on forever and is a partial function; the theorem says exactly when it does.
  \<^item> \<open>Typing\<close>: the integers stay within the 64 bits of Go's \<open>int\<close>.
  \<^item> \<open>Flags\<close>, \<open>Cli\<close> and \<open>Invocation\<close> (\<open>internal/cli\<close>, \<open>cmd/knaller/main.go\<close>): package \<open>flag\<close> with the number
    parsers of \<open>strconv\<close>; flags, checks, commands, exit codes, and an interrupt of the start command at
    any point of its wait; that every command line ends, and that every start can be written as one.
  \<^item> \<open>Output\<close>, \<open>Tables\<close>, \<open>Ages\<close> and \<open>Program\<close>: the same commands with the lines they print, over a model of
    \<open>tabwriter\<close>, of the verb \<open>%g\<close> and of \<open>Duration\<close>; the tables are aligned, the ages are right, and
    printing changes nothing else.
  \<^item> \<open>Rounding\<close> and \<open>Cpus\<close>: how far \<open>Float64\<close> is from the real numbers, and what that makes of a number of
    CPUs from the command line to the quota.
  \<^item> \<open>Session\<close>: any sequence of the library's operations by one program, as a step relation. Every call
    that writes is confined to the data directory and the cgroup file system, provided that the names
    and identifiers the caller gives are plain, which the code does not check.
  \<^item> \<open>Restore\<close>: from \<open>CreateSnapshot\<close> to the start that restores it: the metadata written is found again, and
    with it the ports, the size and the guest's network identity. \<open>spares\<close> says of Firecracker and of
    \<open>cp\<close> that they leave the two JSON files alone.
  \<^item> \<open>Listing\<close> and \<open>Removal\<close>: \<open>List\<close> after \<open>Run\<close> and after \<open>RemoveVM\<close>. \<open>steady\<close> says of the environment that it
    does not remove the socket or the directories, \<open>answers\<close> that Firecracker's server replies.

  \<^bold>\<open>Bounds.\<close> Loops are structural, end by a measure on the clock, or are partial functions with a theorem
  about when they return. The one definition on fuel is \<open>shortest\<close>, the digits of \<open>%g\<close>: it tries 1 to 17
  digits, and 17 always suffice for a \<open>float64\<close>. The compression of SHA-256 and the floating-point
  operations are computed in full. \<open>cpus_given\<close> is about decimals of up to 200 digits and \<open>2 ^ 20\<close> CPUs.

  \<^bold>\<open>Not modelled.\<close> The progress lines of a snapshot and the texts package \<open>flag\<close> prints about a wrong command
  line; the text of an error of package \<open>os\<close>, which is a parameter; in tables, the width of a character
  of more than one byte, and names with a tab or a line break; the pipes between the VM's output and
  the caller's writers (\<open>pipeWriter\<close>, \<open>writerOf\<close>, \<open>Discard\<close>); the change \<open>Run\<close> makes to the caller's \<open>Config\<close>.
  A cancelled context shows as requests that fail, a start that fails or a process that ends, all of
  which the environment may do at any step. The limit of two seconds on some requests is a
  failure of the server to answer. The order of a Go map is not specified, so a list of VMs is a
  multiset.
\<close>

end
